(* ===== verification/Prelude.thy ===== *)
theory Prelude
  imports Main "HOL-Library.Word" "HOL-Library.AList" "HOL-Library.List_Lexorder"
    "HOL-Library.Char_ord" "HOL-Library.Monad_Syntax" "HOL-Library.Sublist"
begin

unbundle bit_operations_syntax

text \<open>
  Shared material of the development: the names of the model's types, the pieces of the Go
  language and of its standard library that several components use (big-endian integers,
  slices with their bounds checks, buffered channels, instants and durations, string
  trimming and number formatting), and the lemmas on lists, association lists and words
  that the component proofs rest on.

  Conventions. A byte is an \<^typ>\<open>8 word\<close>; a Go \<^verbatim>\<open>string\<close> is a \<^typ>\<open>string\<close> (a list of bytes
  as characters); a Go map is an association list, whose order stands for one iteration
  order of the map. A \<^verbatim>\<open>time.Time\<close> is the number of nanoseconds since the zero
  \<^verbatim>\<open>time.Time{}\<close>, so that the zero value is 0. A slice expression out of range is
  \<^term>\<open>None\<close>, the panic.
\<close>

named_theorems be_simps \<open>reading back what a big-endian writer wrote\<close>
named_theorems chan_simps \<open>behaviour of the channel operations\<close>

section \<open>Types\<close>

type_synonym byte = "8 word"
type_synonym bytes = "byte list"
type_synonym u16 = "16 word"
type_synonym u32 = "32 word"
type_synonym u64 = "64 word"
type_synonym time = int
type_synonym duration = int
type_synonym ('k, 'v) gomap = "('k \<times> 'v) list"

section \<open>Big-endian integers (encoding/binary)\<close>

definition PutUint32 :: "u32 \<Rightarrow> bytes" where
  "PutUint32 v = [ucast (drop_bit 24 v), ucast (drop_bit 16 v), ucast (drop_bit 8 v), ucast v]"

definition Uint32 :: "bytes \<Rightarrow> u32" where
  "Uint32 bs = push_bit 24 (ucast (bs ! 0)) OR push_bit 16 (ucast (bs ! 1))
     OR push_bit 8 (ucast (bs ! 2)) OR ucast (bs ! 3)"

definition PutUint16 :: "u16 \<Rightarrow> bytes" where
  "PutUint16 v = [ucast (drop_bit 8 v), ucast v]"

definition Uint16 :: "bytes \<Rightarrow> u16" where
  "Uint16 bs = push_bit 8 (ucast (bs ! 0)) OR ucast (bs ! 1)"

section \<open>Slices\<close>

text \<open>
  \<^verbatim>\<open>s[i:j]\<close>, \<^verbatim>\<open>s[i:]\<close> and \<^verbatim>\<open>s[i]\<close> with the bounds check against the length of the slice. Go lets
  \<^verbatim>\<open>j\<close> go up to the capacity, so that a slice expression that is Some here never panics there.
\<close>

definition slice :: "nat \<Rightarrow> nat \<Rightarrow> 'a list \<Rightarrow> 'a list option" where
  "slice i j xs = (if i \<le> j \<and> j \<le> length xs then Some (drop i (take j xs)) else None)"

definition slice_from :: "nat \<Rightarrow> 'a list \<Rightarrow> 'a list option" where
  "slice_from i xs = (if i \<le> length xs then Some (drop i xs) else None)"

definition index :: "'a list \<Rightarrow> nat \<Rightarrow> 'a option" where
  "index xs i = (if i < length xs then Some (xs ! i) else None)"

text \<open>
  A conjunction with \<^verbatim>\<open>&&\<close>: the operands are evaluated from the left up to the first that is
  false, so a later operand that would panic is guarded by the earlier ones.
\<close>

fun all_of :: "bool option list \<Rightarrow> bool option" where
  "all_of [] = Some True"
| "all_of (c # cs) = (case c of None \<Rightarrow> None | Some b \<Rightarrow> if b then all_of cs else Some False)"

definition byte_is :: "bytes \<Rightarrow> nat \<Rightarrow> byte \<Rightarrow> bool option" where
  "byte_is bs i v = map_option (\<lambda>b. b = v) (index bs i)"

definition u16_is :: "bytes \<Rightarrow> nat \<Rightarrow> u16 \<Rightarrow> bool option" where
  "u16_is bs i v = map_option (\<lambda>s. Uint16 s = v) (slice i (i + 2) bs)"

section \<open>Buffered channels\<close>

record 'a Chan =
  chan_buf :: "'a list"
  chan_cap :: nat
  chan_closed :: bool

datatype 'a send_result = Sent "'a Chan" | Full | SendPanic

definition make_chan :: "nat \<Rightarrow> 'a Chan" where
  "make_chan n = \<lparr>chan_buf = [], chan_cap = n, chan_closed = False\<rparr>"

text \<open>
  A send in a \<^verbatim>\<open>select\<close> with a \<^verbatim>\<open>default\<close> branch: it never blocks, and on a closed channel
  it panics.
\<close>

definition try_send :: "'a Chan \<Rightarrow> 'a \<Rightarrow> 'a send_result" where
  "try_send c v =
     (if chan_closed c then SendPanic
      else if length (chan_buf c) < chan_cap c then Sent (c\<lparr>chan_buf := chan_buf c @ [v]\<rparr>)
      else Full)"

definition close_chan :: "'a Chan \<Rightarrow> 'a Chan" where
  "close_chan c = c\<lparr>chan_closed := True\<rparr>"

section \<open>Instants and durations\<close>

definition nanosecond :: duration where "nanosecond = 1"
definition millisecond :: duration where "millisecond = 1000000"
definition second :: duration where "second = 1000000000"

abbreviation IsZero :: "time \<Rightarrow> bool" where "IsZero t \<equiv> t = 0"

text \<open>\<^verbatim>\<open>t.Sub(u)\<close> saturates at the range of a 64-bit duration.\<close>

definition time_Sub :: "time \<Rightarrow> time \<Rightarrow> duration" where
  "time_Sub t u = max (- (2 ^ 63)) (min (2 ^ 63 - 1) (t - u))"

definition to_int64 :: "int \<Rightarrow> int" where
  "to_int64 x = (x + 2 ^ 63) mod 2 ^ 64 - 2 ^ 63"

text \<open>Nanoseconds from the zero \<^verbatim>\<open>time.Time\<close> (1 January of year 1) to the Unix epoch.\<close>

definition unix_epoch :: time where
  "unix_epoch = 62135596800 * 1000000000"

definition UnixNano :: "time \<Rightarrow> int" where
  "UnixNano t = to_int64 (t - unix_epoch)"

section \<open>Formatting of numbers\<close>

definition hex_digit :: "nat \<Rightarrow> char" where
  "hex_digit n = (if n < 10 then char_of (48 + n) else char_of (87 + n))"

definition hex_byte :: "byte \<Rightarrow> string" where
  "hex_byte b = [hex_digit (unat b div 16), hex_digit (unat b mod 16)]"

definition hex_bytes :: "bytes \<Rightarrow> string" where
  "hex_bytes bs = concat (map hex_byte bs)"

fun dec_string :: "nat \<Rightarrow> string" where
  "dec_string n = (if n < 10 then [char_of (48 + n)] else dec_string (n div 10) @ [char_of (48 + n mod 10)])"

declare dec_string.simps [simp del]

fun join_strings :: "string \<Rightarrow> string list \<Rightarrow> string" where
  "join_strings sep [] = []"
| "join_strings sep [s] = s"
| "join_strings sep (s # t # ss) = s @ sep @ join_strings sep (t # ss)"

section \<open>String trimming (strings.TrimSpace)\<close>

text \<open>
  The encodings of the code points with Unicode property White Space: the six ASCII blanks,
  U+0085, U+00A0, U+1680, U+2000 to U+200A, U+2028, U+2029, U+202F, U+205F and U+3000.
\<close>

definition space_runes :: "string list" where
  "space_runes =
     [[CHR 0x09], [CHR 0x0A], [CHR 0x0B], [CHR 0x0C], [CHR 0x0D], [CHR 0x20],
      [CHR 0xC2, CHR 0x85], [CHR 0xC2, CHR 0xA0], [CHR 0xE1, CHR 0x9A, CHR 0x80]]
     @ map (\<lambda>c. [CHR 0xE2, CHR 0x80, c])
         [CHR 0x80, CHR 0x81, CHR 0x82, CHR 0x83, CHR 0x84, CHR 0x85, CHR 0x86, CHR 0x87, CHR 0x88,
          CHR 0x89, CHR 0x8A, CHR 0xA8, CHR 0xA9, CHR 0xAF]
     @ [[CHR 0xE2, CHR 0x81, CHR 0x9F], [CHR 0xE3, CHR 0x80, CHR 0x80]]"

definition strip_rune :: "string list \<Rightarrow> string \<Rightarrow> string option" where
  "strip_rune rs s = (case find (\<lambda>r. prefix r s) rs of None \<Rightarrow> None | Some r \<Rightarrow> Some (drop (length r) s))"

lemma find_in_set: "find P xs = Some x \<Longrightarrow> x \<in> set xs"
  by (auto simp: find_Some_iff)

lemma strip_rune_shorter:
  "\<forall>r \<in> set rs. r \<noteq> [] \<Longrightarrow> strip_rune rs s = Some t \<Longrightarrow> length t < length s"
proof -
  assume ne: "\<forall>r \<in> set rs. r \<noteq> []" and strip: "strip_rune rs s = Some t"
  then obtain r where r: "find (\<lambda>r. prefix r s) rs = Some r" "t = drop (length r) s"
    by (auto simp: strip_rune_def split: option.splits)
  then have "r \<in> set rs" "prefix r s"
    by (auto simp: find_Some_iff)
  then have "0 < length r" "length r \<le> length s"
    using ne prefix_length_le by auto
  moreover have "length t = length s - length r"
    using r(2) by simp
  ultimately show ?thesis by linarith
qed

lemma space_runes_nonempty: "\<forall>r \<in> set space_runes. r \<noteq> []"
  by (auto simp: space_runes_def)

function trim_left :: "string list \<Rightarrow> string \<Rightarrow> string" where
  "trim_left rs s =
     (if \<forall>r \<in> set rs. r \<noteq> []
      then (case strip_rune rs s of None \<Rightarrow> s | Some t \<Rightarrow> trim_left rs t) else s)"
  by pat_completeness auto
termination
  by (relation "measure (\<lambda>(rs, s). length s)") (auto dest: strip_rune_shorter)

declare trim_left.simps [simp del]

definition TrimSpace :: "string \<Rightarrow> string" where
  "TrimSpace s = rev (trim_left (map rev space_runes) (rev (trim_left space_runes s)))"

section \<open>Splitting\<close>

text \<open>\<^verbatim>\<open>strings.Split\<close> and \<^verbatim>\<open>bytes.Split\<close> at a separator of one byte.\<close>

fun split_on :: "'a \<Rightarrow> 'a list \<Rightarrow> 'a list list" where
  "split_on c [] = [[]]"
| "split_on c (x # xs) =
     (if x = c then [] # split_on c xs
      else case split_on c xs of [] \<Rightarrow> [[x]] | l # ls \<Rightarrow> (x # l) # ls)"

lemma split_on_not_Nil [simp]: "split_on c xs \<noteq> []"
  by (cases xs) (auto split: list.splits)

lemma split_on_line: "c \<notin> set l \<Longrightarrow> split_on c (l @ c # xs) = l # split_on c xs"
  by (induction l) auto

lemma split_on_end: "c \<notin> set l \<Longrightarrow> split_on c l = [l]"
  by (induction l) auto

section \<open>Lemmas on big-endian integers\<close>

lemma length_PutUint32 [simp]: "length (PutUint32 v) = 4"
  by (simp add: PutUint32_def)

lemma length_PutUint16 [simp]: "length (PutUint16 v) = 2"
  by (simp add: PutUint16_def)

lemma Uint32_PutUint32 [simp, be_simps]: "Uint32 (PutUint32 v) = v"
proof (rule bit_word_eqI)
  fix n assume n: "n < LENGTH(32)"
  consider "n < 8" | "8 \<le> n" "n < 16" | "16 \<le> n" "n < 24" | "24 \<le> n"
    by linarith
  then show "bit (Uint32 (PutUint32 v)) n = bit v n"
    using n by cases (auto simp: Uint32_def PutUint32_def bit_simps)
qed

lemma PutUint32_Uint32 [be_simps]:
  assumes "length bs = 4"
  shows "PutUint32 (Uint32 bs) = bs"
proof -
  obtain a b c d where bs: "bs = [a, b, c, d]"
    using assms by (auto simp: numeral_eq_Suc length_Suc_conv)
  have "ucast (drop_bit 24 (Uint32 bs)) = a" "ucast (drop_bit 16 (Uint32 bs)) = b"
    "ucast (drop_bit 8 (Uint32 bs)) = c" "ucast (Uint32 bs) = d"
    by (rule bit_word_eqI; auto simp: Uint32_def bs bit_simps dest: bit_imp_le_length)+
  then show ?thesis by (simp add: PutUint32_def bs)
qed

lemma Uint16_PutUint16 [simp, be_simps]: "Uint16 (PutUint16 v) = v"
  by (rule bit_word_eqI) (auto simp: Uint16_def PutUint16_def bit_simps)

lemma Uint32_append [be_simps]: "length bs = 4 \<Longrightarrow> Uint32 (bs @ cs) = Uint32 bs"
  by (simp add: Uint32_def nth_append)

end
