(* ===== verification/Protocol.thy ===== *)
theory Protocol
  imports Prelude
begin

text \<open>
  The wire protocol, \<^verbatim>\<open>src/internal/protocol/protocol.go\<close>: message types, the structures
  carried as JSON, and the framing (a type byte, a 32-bit big-endian length, the payload).

  An \<^verbatim>\<open>io.Writer\<close> is a write function \<open>wr\<close> over a writer state; an \<^verbatim>\<open>io.Reader\<close> is the
  bytes it will still deliver and the error that ends them. \<^verbatim>\<open>json.Marshal\<close> and
  \<^verbatim>\<open>json.Unmarshal\<close> of a type are arguments \<open>marshal\<close> and \<open>unmarshal\<close>. The interface of
  a framing (a decoder that undoes an encoder and leaves the rest of the stream) is the
  locale \<open>framing\<close>, interpreted on the control and on the data stream.
\<close>

section \<open>Constants and message types\<close>

type_synonym MessageType = byte

definition Version :: int where "Version = 1"
definition DefaultMTU :: int where "DefaultMTU = 1300"
definition MaxFrameSize :: nat where "MaxFrameSize = 1600"
definition MaxControlSize :: nat where "MaxControlSize = 64 * 1024"
definition FeaturePeerLatency :: string where "FeaturePeerLatency = ''peer_latency''"

definition TypeJoinRoom :: MessageType where "TypeJoinRoom = 1"
definition TypeJoinAccept :: MessageType where "TypeJoinAccept = 2"
definition TypeJoinReject :: MessageType where "TypeJoinReject = 3"
definition TypeEthernetFrame :: MessageType where "TypeEthernetFrame = 4"
definition TypePing :: MessageType where "TypePing = 5"
definition TypePong :: MessageType where "TypePong = 6"
definition TypePeerList :: MessageType where "TypePeerList = 7"

lemmas message_type_defs =
  TypeJoinRoom_def TypeJoinAccept_def TypeJoinReject_def TypeEthernetFrame_def
  TypePing_def TypePong_def TypePeerList_def

lemmas size_defs = MaxFrameSize_def MaxControlSize_def

definition Valid :: "MessageType \<Rightarrow> bool" where
  "Valid t \<longleftrightarrow> TypeJoinRoom \<le> t \<and> t \<le> TypePeerList"

datatype ioerr = EOF | ErrUnexpectedEOF | IOErr string

datatype proto_error =
    ErrPayloadTooLarge
  | ErrUnknownMessage
  | ErrExpectedMessage MessageType MessageType
  | ErrIO ioerr
  | ErrJSON string

section \<open>Structures\<close>

record JoinRoom =
  jr_Version :: int
  jr_Room :: string
  jr_DisplayName :: string
  jr_MAC :: string
  jr_Nonce :: string
  jr_Features :: "string list"

record PeerInfo =
  pi_ID :: string
  pi_DisplayName :: string
  pi_IPv4 :: string
  pi_MAC :: string
  pi_Features :: "string list"

record JoinAccept =
  ja_Version :: int
  ja_Room :: string
  ja_PeerID :: string
  ja_IPv4 :: string
  ja_CIDR :: string
  ja_MAC :: string
  ja_MTU :: int
  ja_RoomCreatedAt :: time
  ja_Peers :: "PeerInfo list"
  ja_Features :: "string list"

record JoinReject =
  rj_Reason :: string

record PeerList =
  pl_RoomCreatedAt :: time
  pl_Peers :: "PeerInfo list"

record PeerPing =
  ping_ID :: string
  ping_FromPeerID :: string
  ping_ToPeerID :: string
  ping_SentAtUnixNano :: int

record PeerPong =
  pong_ID :: string
  pong_FromPeerID :: string
  pong_ToPeerID :: string
  pong_SentAtUnixNano :: int

section \<open>Readers and writers\<close>

record Reader =
  rd_data :: bytes
  rd_end :: ioerr

type_synonym 'w writer = "'w \<Rightarrow> bytes \<Rightarrow> 'w \<times> ioerr option"

text \<open>\<^verbatim>\<open>io.ReadFull\<close> into a buffer of \<open>n\<close> bytes.\<close>

definition ReadFull :: "nat \<Rightarrow> Reader \<Rightarrow> Reader \<times> (ioerr + bytes)" where
  "ReadFull n r =
     (if n \<le> length (rd_data r)
      then (r\<lparr>rd_data := drop n (rd_data r)\<rparr>, Inr (take n (rd_data r)))
      else (r\<lparr>rd_data := []\<rparr>,
            Inl (if rd_data r \<noteq> [] \<and> rd_end r = EOF then ErrUnexpectedEOF else rd_end r)))"

text \<open>\<^verbatim>\<open>bytes.Buffer\<close>: a write never fails.\<close>

definition buf_Write :: "bytes writer" where
  "buf_Write b bs = (b @ bs, None)"

section \<open>Framing\<close>

definition WriteMessage :: "'w writer \<Rightarrow> 'w \<Rightarrow> MessageType \<Rightarrow> bytes \<Rightarrow> 'w \<times> proto_error option" where
  "WriteMessage wr w typ payload =
     (if \<not> Valid typ then (w, Some ErrUnknownMessage)
      else if typ = TypeEthernetFrame \<and> MaxFrameSize < length payload then (w, Some ErrPayloadTooLarge)
      else if MaxControlSize < length payload then (w, Some ErrPayloadTooLarge)
      else
        (let header = typ # PutUint32 (of_nat (length payload))
         in case wr w header of
              (w1, Some e) \<Rightarrow> (w1, Some (ErrIO e))
            | (w1, None) \<Rightarrow>
                if length payload = 0 then (w1, None)
                else (case wr w1 payload of (w2, err) \<Rightarrow> (w2, map_option ErrIO err))))"

definition ReadMessage :: "Reader \<Rightarrow> int \<Rightarrow> Reader \<times> (proto_error + MessageType \<times> bytes)" where
  "ReadMessage r maxPayload =
     (case ReadFull 5 r of
        (r1, Inl e) \<Rightarrow> (r1, Inl (ErrIO e))
      | (r1, Inr header) \<Rightarrow>
          (let typ = header ! 0 in
           if \<not> Valid typ then (r1, Inl ErrUnknownMessage)
           else
             (let size = unat (Uint32 (drop 1 header)) in
              if 0 < maxPayload \<and> maxPayload < int size then (r1, Inl ErrPayloadTooLarge)
              else if typ = TypeEthernetFrame \<and> MaxFrameSize < size then (r1, Inl ErrPayloadTooLarge)
              else if size = 0 then (r1, Inr (typ, []))
              else (case ReadFull size r1 of
                      (r2, Inl e) \<Rightarrow> (r2, Inl (ErrIO e))
                    | (r2, Inr payload) \<Rightarrow> (r2, Inr (typ, payload))))))"

definition WriteJSON ::
  "('v \<Rightarrow> string + bytes) \<Rightarrow> 'w writer \<Rightarrow> 'w \<Rightarrow> MessageType \<Rightarrow> 'v \<Rightarrow> 'w \<times> proto_error option" where
  "WriteJSON marshal wr w typ v =
     (case marshal v of
        Inl e \<Rightarrow> (w, Some (ErrJSON e))
      | Inr payload \<Rightarrow> WriteMessage wr w typ payload)"

definition MarshalMessage :: "('v \<Rightarrow> string + bytes) \<Rightarrow> MessageType \<Rightarrow> 'v \<Rightarrow> proto_error + bytes" where
  "MarshalMessage marshal typ v =
     (case WriteJSON marshal buf_Write [] typ v of
        (buf, Some e) \<Rightarrow> Inl e
      | (buf, None) \<Rightarrow> Inr buf)"

definition ReadJSON ::
  "(bytes \<Rightarrow> string + 'v) \<Rightarrow> Reader \<Rightarrow> MessageType \<Rightarrow> int \<Rightarrow> Reader \<times> (proto_error + 'v)" where
  "ReadJSON unmarshal r want maxPayload =
     (case ReadMessage r maxPayload of
        (r1, Inl e) \<Rightarrow> (r1, Inl e)
      | (r1, Inr (typ, payload)) \<Rightarrow>
          if typ \<noteq> want then (r1, Inl (ErrExpectedMessage want typ))
          else (r1, case unmarshal payload of Inl e \<Rightarrow> Inl (ErrJSON e) | Inr v \<Rightarrow> Inr v))"

section \<open>Frames as byte strings\<close>

text \<open>The bytes of one message, and which messages each side accepts under a size limit.\<close>

definition frame_bytes :: "MessageType \<times> bytes \<Rightarrow> bytes" where
  "frame_bytes m = (case m of (typ, payload) \<Rightarrow> typ # PutUint32 (of_nat (length payload)) @ payload)"

definition writable :: "MessageType \<times> bytes \<Rightarrow> bool" where
  "writable m \<longleftrightarrow> Valid (fst m) \<and> (fst m = TypeEthernetFrame \<longrightarrow> length (snd m) \<le> MaxFrameSize)
     \<and> length (snd m) \<le> MaxControlSize"

definition readable :: "int \<Rightarrow> MessageType \<times> bytes \<Rightarrow> bool" where
  "readable maxPayload m \<longleftrightarrow> Valid (fst m)
     \<and> (0 < maxPayload \<longrightarrow> int (length (snd m)) \<le> maxPayload)
     \<and> (fst m = TypeEthernetFrame \<longrightarrow> length (snd m) \<le> MaxFrameSize)
     \<and> length (snd m) < 2 ^ 32"

lemma unat_of_nat_u32: "n < 2 ^ 32 \<Longrightarrow> unat (of_nat n :: u32) = n"
  by (simp add: unat_of_nat)

lemma writable_readable:
  "writable m \<Longrightarrow> maxPayload \<le> 0 \<or> int (length (snd m)) \<le> maxPayload \<Longrightarrow> readable maxPayload m"
  by (auto simp: writable_def readable_def size_defs)

lemma WriteMessage_buf:
  "WriteMessage buf_Write b typ payload =
     (if writable (typ, payload) then (b @ frame_bytes (typ, payload), None)
      else (b, Some (if Valid typ then ErrPayloadTooLarge else ErrUnknownMessage)))"
  by (auto simp: WriteMessage_def buf_Write_def writable_def frame_bytes_def Let_def)

lemma ReadFull_append:
  "n = length xs \<Longrightarrow> ReadFull n \<lparr>rd_data = xs @ ys, rd_end = e\<rparr> = (\<lparr>rd_data = ys, rd_end = e\<rparr>, Inr xs)"
  by (simp add: ReadFull_def)

lemma ReadMessage_frame:
  assumes "readable maxPayload m"
  shows "ReadMessage \<lparr>rd_data = frame_bytes m @ rest, rd_end = e\<rparr> maxPayload
           = (\<lparr>rd_data = rest, rd_end = e\<rparr>, Inr m)"
proof -
  obtain t payload where m: "m = (t, payload)" by (cases m)
  let ?hd = "t # PutUint32 (of_nat (length payload))"
  have "ReadFull 5 \<lparr>rd_data = ?hd @ (payload @ rest), rd_end = e\<rparr>
      = (\<lparr>rd_data = payload @ rest, rd_end = e\<rparr>, Inr ?hd)"
    by (rule ReadFull_append) simp
  moreover have "ReadFull (length payload) \<lparr>rd_data = payload @ rest, rd_end = e\<rparr>
      = (\<lparr>rd_data = rest, rd_end = e\<rparr>, Inr payload)"
    by (rule ReadFull_append) simp
  ultimately show ?thesis
    using assms by (auto simp: ReadMessage_def m frame_bytes_def readable_def Let_def unat_of_nat_u32)
qed

text \<open>The converse: whatever a successful read returns was framed in the stream.\<close>

lemma ReadFull_Inr:
  "ReadFull n r = (r', Inr bs) \<Longrightarrow>
     rd_data r = bs @ rd_data r' \<and> length bs = n \<and> rd_end r' = rd_end r"
  by (auto simp: ReadFull_def split: if_splits)

lemma ReadMessage_Inr:
  assumes "ReadMessage r maxPayload = (r', Inr m)"
  shows "rd_data r = frame_bytes m @ rd_data r' \<and> readable maxPayload m \<and> rd_end r' = rd_end r"
proof -
  obtain r1 header where h: "ReadFull 5 r = (r1, Inr header)"
    using assms by (auto simp: ReadMessage_def split: prod.splits sum.splits)
  note h' = ReadFull_Inr [OF h]
  then obtain t hs where header: "header = t # hs" and hs: "length hs = 4"
    by (cases header) auto
  let ?size = "unat (Uint32 hs)"
  have bound: "?size < 2 ^ 32" using unsigned_less [of "Uint32 hs"] by simp
  have put: "PutUint32 (of_nat ?size) = hs"
    using PutUint32_Uint32 [OF hs] by simp
  show ?thesis
  proof (cases "?size = 0")
    case True
    then have "m = (t, []) \<and> r' = r1"
      using assms by (auto simp: ReadMessage_def h header Let_def split: if_splits)
    then show ?thesis
      using assms h' True put
      by (auto simp: ReadMessage_def h header Let_def frame_bytes_def readable_def split: if_splits)
  next
    case False
    then obtain r2 payload where p: "ReadFull ?size r1 = (r2, Inr payload)" "m = (t, payload)" "r' = r2"
      using assms by (auto simp: ReadMessage_def h header Let_def split: if_splits prod.splits sum.splits)
    then show ?thesis
      using assms h' ReadFull_Inr [OF p(1)] put bound
      by (auto simp: ReadMessage_def h header Let_def frame_bytes_def readable_def
          split: if_splits)
  qed
qed

section \<open>The interface of a framing\<close>

locale framing =
  fixes encode :: "'m \<Rightarrow> bytes"
    and decode :: "bytes \<Rightarrow> ('m \<times> bytes) option"
    and ok :: "'m \<Rightarrow> bool"
  assumes decode_encode: "ok m \<Longrightarrow> decode (encode m @ rest) = Some (m, rest)"
    and decode_sound: "decode bs = Some (m, rest) \<Longrightarrow> ok m \<and> bs = encode m @ rest"
    and encode_nonempty: "encode m \<noteq> []"
begin

lemma prefix_free: "ok m \<Longrightarrow> ok m' \<Longrightarrow> encode m @ r = encode m' @ r' \<Longrightarrow> m = m' \<and> r = r'"
  by (metis decode_encode option.inject prod.inject)

lemma stream_inj:
  "list_all ok ms \<Longrightarrow> list_all ok ms' \<Longrightarrow>
     concat (map encode ms) = concat (map encode ms') \<Longrightarrow> ms = ms'"
proof (induction ms arbitrary: ms')
  case Nil
  then show ?case by (cases ms') (auto simp: encode_nonempty)
next
  case (Cons m ms)
  obtain n ns where ms': "ms' = n # ns"
    using Cons.prems(3) encode_nonempty [of m] by (cases ms') auto
  have "m = n \<and> concat (map encode ms) = concat (map encode ns)"
    using Cons.prems unfolding ms' by (intro prefix_free) simp_all
  moreover from this have "ms = ns"
    using Cons.prems unfolding ms' by (intro Cons.IH) simp_all
  ultimately show ?case by (simp add: ms')
qed

lemma truncated: "ok m \<Longrightarrow> strict_prefix bs (encode m) \<Longrightarrow> decode bs = None"
proof (rule ccontr)
  assume ok: "ok m" and pre: "strict_prefix bs (encode m)" and dec: "decode bs \<noteq> None"
  obtain z zs where z: "encode m = bs @ z # zs"
    using pre by (auto elim: strict_prefixE')
  obtain m' rest where "decode bs = Some (m', rest)" using dec by auto
  then have "ok m'" and bs: "bs = encode m' @ rest" using decode_sound by auto
  with ok z have "m = m' \<and> [] = rest @ z # zs"
    by (intro prefix_free) auto
  then show False by simp
qed

end

definition read_frame :: "int \<Rightarrow> bytes \<Rightarrow> ((MessageType \<times> bytes) \<times> bytes) option" where
  "read_frame maxPayload bs =
     (case ReadMessage \<lparr>rd_data = bs, rd_end = EOF\<rparr> maxPayload of
        (r, Inl e) \<Rightarrow> None
      | (r, Inr m) \<Rightarrow> Some (m, rd_data r))"

lemma framing_read_frame: "framing frame_bytes (read_frame maxPayload) (readable maxPayload)"
proof
  show "read_frame maxPayload (frame_bytes m @ rest) = Some (m, rest)" if "readable maxPayload m" for m rest
    using that by (simp add: read_frame_def ReadMessage_frame)
  show "readable maxPayload m \<and> bs = frame_bytes m @ rest" if "read_frame maxPayload bs = Some (m, rest)" for bs m rest
    using that by (auto simp: read_frame_def split: prod.splits sum.splits dest: ReadMessage_Inr)
  show "frame_bytes m \<noteq> []" for m by (cases m) (simp add: frame_bytes_def)
qed

interpretation control_framing:
  framing frame_bytes "read_frame (int MaxControlSize)" "readable (int MaxControlSize)"
  by (rule framing_read_frame)

interpretation data_framing:
  framing frame_bytes "read_frame (int MaxFrameSize)" "readable (int MaxFrameSize)"
  by (rule framing_read_frame)

section \<open>The read loop\<close>

text \<open>
  Every reader goroutine calls \<^verbatim>\<open>ReadMessage\<close> until it fails. The loop ends because each
  message takes at least the five bytes of its header.
\<close>

lemma ReadMessage_progress:
  "ReadMessage r maxPayload = (r', Inr m) \<Longrightarrow> length (rd_data r') < length (rd_data r)"
  by (drule ReadMessage_Inr) (auto simp: frame_bytes_def split: prod.splits)

function ReadAll :: "Reader \<Rightarrow> int \<Rightarrow> (MessageType \<times> bytes) list \<times> proto_error" where
  "ReadAll r maxPayload =
     (case ReadMessage r maxPayload of
        (r', Inl e) \<Rightarrow> ([], e)
      | (r', Inr m) \<Rightarrow> (case ReadAll r' maxPayload of (ms, e) \<Rightarrow> (m # ms, e)))"
  by pat_completeness auto
termination
  by (relation "measure (\<lambda>(r, maxPayload). length (rd_data r))") (auto dest: sym ReadMessage_progress)

declare ReadAll.simps [simp del]

fun WriteAll :: "bytes \<Rightarrow> (MessageType \<times> bytes) list \<Rightarrow> bytes" where
  "WriteAll b [] = b"
| "WriteAll b ((t, payload) # ms) = WriteAll (fst (WriteMessage buf_Write b t payload)) ms"

lemma ReadAll_frames:
  "list_all (readable maxPayload) ms \<Longrightarrow>
     ReadAll \<lparr>rd_data = concat (map frame_bytes ms), rd_end = e\<rparr> maxPayload = (ms, ErrIO e)"
proof (induction ms)
  case Nil
  show ?case by (subst ReadAll.simps) (simp add: ReadMessage_def ReadFull_def)
next
  case (Cons m ms)
  then show ?case by (subst ReadAll.simps) (simp add: ReadMessage_frame)
qed

lemma WriteAll_frames:
  "list_all writable ms \<Longrightarrow> WriteAll b ms = b @ concat (map frame_bytes ms)"
  by (induction b ms rule: WriteAll.induct) (auto simp: WriteMessage_buf)

end
