(* ===== verification/Protocol_Props.thy ===== *)
theory Protocol_Props
  imports Protocol
begin

text \<open>
  What the wire protocol promises to both ends: messages come out of a stream as they went
  in, a reader accepts exactly the well-formed frames within its limit, a writer sends
  nothing of a message it refuses, and a cut stream never yields a message.
\<close>

text \<open>C4. Messages written one after the other are read back as the same list, in order and
  complete, by the loop that reads until the stream ends, whose error is then that of the
  stream.\<close>

theorem stream_roundtrip:
  assumes "list_all writable ms" and "list_all (\<lambda>m. int (length (snd m)) \<le> maxPayload) ms"
  shows "ReadAll \<lparr>rd_data = WriteAll [] ms, rd_end = e\<rparr> maxPayload = (ms, ErrIO e)"
proof -
  have "list_all (readable maxPayload) ms"
    using assms writable_readable by (auto simp: list_all_iff)
  then show ?thesis using WriteAll_frames [OF assms(1), of "[]"] ReadAll_frames by simp
qed

theorem stream_roundtrip_witness:
  "ReadAll \<lparr>rd_data = WriteAll [] [(TypePing, []), (TypeEthernetFrame, [1, 2, 3])], rd_end = EOF\<rparr> 1600
     = ([(TypePing, []), (TypeEthernetFrame, [1, 2, 3])], ErrIO EOF)"
  by (rule stream_roundtrip) (simp_all add: writable_def Valid_def message_type_defs size_defs)

text \<open>C19. A read succeeds exactly on a well-formed frame: the message returned has a known type
  and a size within the caller's limit (and within 1600 bytes for an Ethernet frame), its
  encoding is what was at the front of the stream, and exactly these bytes are consumed.\<close>

theorem read_exact:
  "ReadMessage r maxPayload = (r', Inr m) \<longleftrightarrow>
     readable maxPayload m \<and> rd_data r = frame_bytes m @ rd_data r' \<and> rd_end r' = rd_end r"
proof
  assume *: "readable maxPayload m \<and> rd_data r = frame_bytes m @ rd_data r' \<and> rd_end r' = rd_end r"
  then have "r = \<lparr>rd_data = frame_bytes m @ rd_data r', rd_end = rd_end r'\<rparr>" by (cases r) simp
  moreover have "\<lparr>rd_data = rd_data r', rd_end = rd_end r'\<rparr> = r'" by (cases r') simp
  ultimately show "ReadMessage r maxPayload = (r', Inr m)"
    using ReadMessage_frame [of maxPayload m "rd_data r'" "rd_end r'"] * by metis
qed (use ReadMessage_Inr in blast)

text \<open>A message that may not be sent leaves the stream untouched, with an error that says
  why: an unknown type, an Ethernet frame of more than 1600 bytes or any payload of more
  than 64 KiB. Every other message is appended as its header and its payload.\<close>

lemma write_all_or_nothing:
  "WriteMessage buf_Write b t payload =
     (if \<not> Valid t then (b, Some ErrUnknownMessage)
      else if length payload \<le> (if t = TypeEthernetFrame then 1600 else 65536)
           then (b @ [t] @ PutUint32 (of_nat (length payload)) @ payload, None)
           else (b, Some ErrPayloadTooLarge))"
  by (auto simp: WriteMessage_buf writable_def frame_bytes_def size_defs)

lemma strict_prefix_length: "strict_prefix bs cs \<Longrightarrow> length bs < length cs \<and> bs = take (length bs) cs"
  by (auto simp: strict_prefix_def prefix_def)

text \<open>C20. A stream that ends in the middle of a message never yields that message. The error is
  the plain end of file when the cut is before the header or between header and payload, and
  an unexpected end of file at every other place.\<close>

theorem cut_stream_rejected:
  assumes "readable maxPayload m" and "strict_prefix bs (frame_bytes m)"
  shows "snd (ReadMessage \<lparr>rd_data = bs, rd_end = EOF\<rparr> maxPayload)
    = Inl (ErrIO (if length bs = 0 \<or> length bs = 5 then EOF else ErrUnexpectedEOF))"
proof (cases "length bs < 5")
  case True
  then show ?thesis by (auto simp: ReadMessage_def ReadFull_def)
next
  case False
  obtain t payload where m: "m = (t, payload)" by (cases m)
  let ?hd = "t # PutUint32 (of_nat (length payload))"
  have cut: "length bs < 5 + length payload" "bs = take (length bs) (?hd @ payload)"
    using strict_prefix_length [OF assms(2)] by (simp_all add: frame_bytes_def m)
  have "take (length bs) (?hd @ payload) = ?hd @ take (length bs - 5) payload"
    using False by (simp add: take_append del: append_Cons)
  with cut(2) have bs: "bs = ?hd @ take (length bs - 5) payload" by (rule trans)
  have "ReadFull 5 \<lparr>rd_data = ?hd @ take (length bs - 5) payload, rd_end = EOF\<rparr>
      = (\<lparr>rd_data = take (length bs - 5) payload, rd_end = EOF\<rparr>, Inr ?hd)"
    by (rule ReadFull_append) simp
  then have "ReadMessage \<lparr>rd_data = bs, rd_end = EOF\<rparr> maxPayload
      = (case ReadFull (length payload) \<lparr>rd_data = take (length bs - 5) payload, rd_end = EOF\<rparr> of
           (r2, Inl e) \<Rightarrow> (r2, Inl (ErrIO e)) | (r2, Inr p) \<Rightarrow> (r2, Inr (t, p)))"
    using assms(1) cut(1) False bs
    by (subst bs) (auto simp: ReadMessage_def m readable_def Let_def unat_of_nat_u32)
  then show ?thesis using cut(1) False by (auto simp: ReadFull_def)
qed

theorem cut_stream_rejected_witness:
  "snd (ReadMessage \<lparr>rd_data = [TypePing, 0, 0, 0, 2, 9], rd_end = EOF\<rparr> 65536) = Inl (ErrIO ErrUnexpectedEOF)"
proof -
  have "frame_bytes (TypePing, [9, 8]) = [TypePing, 0, 0, 0, 2, 9, 8]" by code_simp
  then have "strict_prefix [TypePing, 0, 0, 0, 2, 9] (frame_bytes (TypePing, [9, 8]))" by simp
  moreover have "readable 65536 (TypePing, [9, 8])" by (simp add: readable_def Valid_def message_type_defs)
  ultimately show ?thesis using cut_stream_rejected by fastforce
qed

end
