(* ===== verification/Netaddr.thy ===== *)
theory Netaddr
  imports Prelude
begin

text \<open>
  Addresses of Go's \<^verbatim>\<open>net\<close> and \<^verbatim>\<open>net/netip\<close> packages as the program uses them: IPv4 and
  IPv6 addresses, prefixes, hardware addresses, and their text form.
\<close>

section \<open>netip.Addr and netip.Prefix\<close>

datatype Addr = AddrInvalid | Addr4 u32 | Addr6 bytes string

definition Is4 :: "Addr \<Rightarrow> bool" where
  "Is4 a \<longleftrightarrow> (case a of Addr4 _ \<Rightarrow> True | _ \<Rightarrow> False)"

definition As4 :: "Addr \<Rightarrow> bytes" where
  "As4 a = (case a of Addr4 w \<Rightarrow> PutUint32 w | Addr6 bs z \<Rightarrow> drop 12 bs | AddrInvalid \<Rightarrow> [])"

definition AddrFrom4 :: "bytes \<Rightarrow> Addr" where
  "AddrFrom4 bs = Addr4 (Uint32 bs)"

record Prefix =
  pfx_addr :: Addr
  pfx_bits :: int

definition BitLen :: "Addr \<Rightarrow> int" where
  "BitLen a = (case a of AddrInvalid \<Rightarrow> 0 | Addr4 _ \<Rightarrow> 32 | Addr6 _ _ \<Rightarrow> 128)"

definition PrefixFrom :: "Addr \<Rightarrow> int \<Rightarrow> Prefix" where
  "PrefixFrom a bits = \<lparr>pfx_addr = a, pfx_bits = (if 0 \<le> bits \<and> bits \<le> BitLen a \<and> a \<noteq> AddrInvalid then bits else -1)\<rparr>"

definition Prefix_IsValid :: "Prefix \<Rightarrow> bool" where
  "Prefix_IsValid p \<longleftrightarrow> pfx_addr p \<noteq> AddrInvalid \<and> 0 \<le> pfx_bits p"

section \<open>Text form\<close>

definition string4 :: "u32 \<Rightarrow> string" where
  "string4 w = join_strings ''.'' (map (\<lambda>b. dec_string (unat b)) (PutUint32 w))"

fun drop_zeros :: "string \<Rightarrow> string" where
  "drop_zeros (c # d # cs) = (if c = CHR ''0'' then drop_zeros (d # cs) else c # d # cs)"
| "drop_zeros cs = cs"

definition hex_u16 :: "u16 \<Rightarrow> string" where
  "hex_u16 w = drop_zeros (hex_bytes (PutUint16 w))"

fun groups6 :: "bytes \<Rightarrow> u16 list" where
  "groups6 (a # b # bs) = Uint16 [a, b] # groups6 bs"
| "groups6 _ = []"

text \<open>The first longest run of at least two zero groups, as a half-open interval.\<close>

definition zero_run :: "u16 list \<Rightarrow> nat \<Rightarrow> nat" where
  "zero_run gs i = length (takeWhile (\<lambda>g. g = 0) (drop i gs))"

definition longest_zeros :: "u16 list \<Rightarrow> nat \<times> nat" where
  "longest_zeros gs =
     foldl (\<lambda>(s, e) i. if 2 \<le> zero_run gs i \<and> e - s < zero_run gs i then (i, i + zero_run gs i) else (s, e))
       (255, 255) [0 ..< 8]"

definition string6 :: "bytes \<Rightarrow> string" where
  "string6 bs =
     (let gs = groups6 bs; (s, e) = longest_zeros gs; txt = join_strings '':'' \<circ> map hex_u16
      in if s = 255 then txt gs else txt (take s gs) @ ''::'' @ txt (drop e gs))"

definition Is4In6 :: "bytes \<Rightarrow> bool" where
  "Is4In6 bs \<longleftrightarrow> take 12 bs = replicate 10 0 @ [255, 255]"

definition Addr_String :: "Addr \<Rightarrow> string" where
  "Addr_String a =
     (case a of
        AddrInvalid \<Rightarrow> ''invalid IP''
      | Addr4 w \<Rightarrow> string4 w
      | Addr6 bs z \<Rightarrow>
          (if Is4In6 bs then ''::ffff:'' @ string4 (Uint32 (drop 12 bs)) else string6 bs)
          @ (if z = '''' then '''' else ''%'' @ z))"

definition Prefix_String :: "Prefix \<Rightarrow> string" where
  "Prefix_String p =
     (if Prefix_IsValid p then Addr_String (pfx_addr p) @ ''/'' @ dec_string (nat (pfx_bits p))
      else ''invalid Prefix'')"

text \<open>\<^verbatim>\<open>net.HardwareAddr.String\<close>\<close>

definition HardwareAddr_String :: "bytes \<Rightarrow> string" where
  "HardwareAddr_String mac = join_strings '':'' (map hex_byte mac)"

text \<open>\<^verbatim>\<open>net.IP.String\<close> on a slice of four or sixteen bytes.\<close>

definition IP_String :: "bytes \<Rightarrow> string" where
  "IP_String ip =
     (if ip = [] then ''<nil>''
      else if length ip = 4 then string4 (Uint32 ip)
      else if length ip = 16 then
        (if Is4In6 ip then string4 (Uint32 (drop 12 ip)) else string6 ip)
      else ''?'' @ hex_bytes ip)"

section \<open>Lemmas\<close>

lemma AddrFrom4_As4 [simp]: "AddrFrom4 (As4 (Addr4 w)) = Addr4 w"
  by (simp add: AddrFrom4_def As4_def)

end
