(* ===== verification/Relay.thy ===== *)
theory Relay
  imports Protocol Netaddr
begin

text \<open>
  The relay, \<^verbatim>\<open>src/internal/relay/room.go\<close>: the manager of rooms, the rooms with their peer
  and MAC tables, and the peers with their queues, counters and rate window.

  Rooms and peers are shared by pointer and the code compares pointers
  (\<^verbatim>\<open>m.rooms[room.name] != room\<close>, \<^verbatim>\<open>r.peers[peer.ID] != peer\<close>), so the model has a store: a
  \<^verbatim>\<open>*Room\<close> is an index into \<open>roomHeap\<close>, a \<^verbatim>\<open>*Peer\<close> an index into \<open>peerHeap\<close>, and an
  allocation appends to the heap. One definition is one critical section of the code or one
  function that runs without a lock; the wall clock and the bytes drawn from
  \<^verbatim>\<open>crypto/rand\<close> are arguments.
\<close>

section \<open>Constants, errors, data\<close>

definition firstUsableHost :: byte where "firstUsableHost = 2"
definition lastUsableHost :: byte where "lastUsableHost = 254"
definition frameRateWindow :: duration where "frameRateWindow = second"
definition maxPeerFrames :: int where "maxPeerFrames = 5000"
definition maxPeerBytes :: int where "maxPeerBytes = 20 * 1024 * 1024"

datatype relay_error =
    ErrRoomFull
  | ErrRoomClosed
  | ErrPoolFull
  | ErrMACInUse
  | ErrMACInvalid
  | ErrInvalidFrame
  | ErrSourceMACInvalid
  | ErrNotIPv4 Addr
  | ErrRand

type_synonym roomref = nat
type_synonym peerref = nat

record Peer =
  p_ID :: string
  p_DisplayName :: string
  p_Features :: "string list"
  p_Room :: roomref
  p_IP :: Addr
  p_MAC :: bytes
  p_ConnectedAt :: time
  p_Frames :: "bytes Chan"
  p_Notify :: "bytes Chan"
  p_closing :: bool
  p_rxBytes :: u64
  p_rxFrames :: u64
  p_txBytes :: u64
  p_txFrames :: u64
  p_dropBytes :: u64
  p_dropFrames :: u64
  p_windowStart :: time
  p_windowFrames :: int
  p_windowBytes :: int

record Room =
  r_manager :: bool  \<comment> \<open>the manager pointer is not nil; there is one manager\<close>
  r_index :: u32
  r_name :: string
  r_prefix :: Prefix
  r_createdAt :: time
  r_peers :: "(string, peerref) gomap"
  r_macToPeer :: "(bytes, peerref) gomap"
  r_nextHost :: byte
  r_freeHosts :: "byte list"
  r_closed :: bool

record Manager =
  m_pool :: Prefix
  m_rooms :: "(string, roomref) gomap"
  m_nextRoom :: u32
  m_freeRoom :: "u32 list"

record Store =
  mgr :: Manager
  roomHeap :: "Room list"
  peerHeap :: "Peer list"

record JoinOptions =
  opt_DisplayName :: string
  opt_RequestedMAC :: "bytes option"  \<comment> \<open>None: the nil slice\<close>
  opt_Features :: "string list"

text \<open>What \<^verbatim>\<open>AddPeer\<close> takes from outside: the clock and two draws of random bytes, which may fail.\<close>

record Draw =
  d_now :: time
  d_id :: "bytes option"
  d_mac :: "bytes option"

definition zero_opt :: JoinOptions where
  "zero_opt = \<lparr>opt_DisplayName = '''', opt_RequestedMAC = None, opt_Features = []\<rparr>"

section \<open>Address helpers\<close>

definition ipv4ToUint32 :: "Addr \<Rightarrow> relay_error + u32" where
  "ipv4ToUint32 addr = (if \<not> Is4 addr then Inl (ErrNotIPv4 addr) else Inr (Uint32 (As4 addr)))"

definition uint32ToIPv4 :: "u32 \<Rightarrow> Addr" where
  "uint32ToIPv4 v = AddrFrom4 (PutUint32 v)"

definition isBroadcast :: "bytes \<Rightarrow> bool" where
  "isBroadcast mac \<longleftrightarrow> list_all (\<lambda>b. b = 0xff) mac"

definition isMulticast :: "bytes \<Rightarrow> bool" where
  "isMulticast mac \<longleftrightarrow> 0 < length mac \<and> mac ! 0 AND 1 = 1"

definition validPeerMAC :: "bytes \<Rightarrow> bool" where
  "validPeerMAC mac \<longleftrightarrow>
     \<not> (length mac \<noteq> 6 \<or> isBroadcast mac \<or> isMulticast mac) \<and> list_ex (\<lambda>b. b \<noteq> 0) mac"

text \<open>Appending no byte to a nil slice leaves it nil.\<close>

definition cloneMAC :: "bytes option \<Rightarrow> bytes option" where
  "cloneMAC mac = (case mac of None \<Rightarrow> None | Some [] \<Rightarrow> None | Some m \<Rightarrow> Some m)"

definition randomMAC :: "bytes option \<Rightarrow> relay_error + bytes" where
  "randomMAC drawn =
     (case drawn of
        None \<Rightarrow> Inl ErrRand
      | Some mac \<Rightarrow> Inr (mac[0 := (mac ! 0 OR 0x02) AND 0xfe]))"

definition randomHex :: "bytes option \<Rightarrow> relay_error + string" where
  "randomHex drawn = (case drawn of None \<Rightarrow> Inl ErrRand | Some buf \<Rightarrow> Inr (hex_bytes buf))"

section \<open>Manager\<close>

definition NewManager :: "Prefix \<Rightarrow> Store" where
  "NewManager pool =
     \<lparr>mgr = \<lparr>m_pool = pool, m_rooms = [], m_nextRoom = 0, m_freeRoom = []\<rparr>,
      roomHeap = [], peerHeap = []\<rparr>"

text \<open>
  \<^verbatim>\<open>uint32(1) << uint32(24-m.pool.Bits())\<close>: the shift count is the difference as a 32-bit
  number, and a count of 32 or more gives 0.
\<close>

definition maxRooms :: "Manager \<Rightarrow> u32" where
  "maxRooms m = (let c = unat (word_of_int (24 - pfx_bits (m_pool m)) :: u32)
                 in if c < 32 then push_bit c 1 else 0)"

definition allocateRoomIndexLocked :: "Manager \<Rightarrow> relay_error + Manager \<times> u32" where
  "allocateRoomIndexLocked m =
     (let n = length (m_freeRoom m) in
      if 0 < n then Inr (m\<lparr>m_freeRoom := take (n - 1) (m_freeRoom m)\<rparr>, m_freeRoom m ! (n - 1))
      else if maxRooms m \<le> m_nextRoom m then Inl ErrPoolFull
      else Inr (m\<lparr>m_nextRoom := m_nextRoom m + 1\<rparr>, m_nextRoom m))"

text \<open>The index goes back to the free list, which is kept in descending order.\<close>

definition releaseRoomIndex :: "u32 \<Rightarrow> Manager \<Rightarrow> Manager" where
  "releaseRoomIndex idx m = m\<lparr>m_freeRoom := rev (sort (m_freeRoom m @ [idx]))\<rparr>"

definition getOrCreateRoom :: "string \<Rightarrow> time \<Rightarrow> Store \<Rightarrow> Store \<times> (relay_error + roomref)" where
  "getOrCreateRoom roomName now s =
     (case map_of (m_rooms (mgr s)) roomName of
        Some room \<Rightarrow> (s, Inr room)
      | None \<Rightarrow>
          (case allocateRoomIndexLocked (mgr s) of
             Inl e \<Rightarrow> (s, Inl e)
           | Inr (m1, roomIndex) \<Rightarrow>
               (case ipv4ToUint32 (pfx_addr (m_pool m1)) of
                  Inl e \<Rightarrow> (s\<lparr>mgr := m1\<rparr>, Inl e)
                | Inr base \<Rightarrow>
                    (let roomAddr = uint32ToIPv4 (base + push_bit 8 roomIndex);
                         room = \<lparr>r_manager = True, r_index = roomIndex, r_name = roomName,
                                 r_prefix = PrefixFrom roomAddr 24, r_createdAt = now,
                                 r_peers = [], r_macToPeer = [], r_nextHost = firstUsableHost,
                                 r_freeHosts = [], r_closed = False\<rparr>;
                         ref = length (roomHeap s)
                     in (s\<lparr>mgr := m1\<lparr>m_rooms := AList.update roomName ref (m_rooms m1)\<rparr>,
                           roomHeap := roomHeap s @ [room]\<rparr>, Inr ref)))))"

definition Manager_Room :: "string \<Rightarrow> Store \<Rightarrow> roomref option" where
  "Manager_Room roomName s = map_of (m_rooms (mgr s)) roomName"

definition deleteEmptyRoom :: "roomref \<Rightarrow> Store \<Rightarrow> Store" where
  "deleteEmptyRoom room s =
     (let r = roomHeap s ! room in
      if map_of (m_rooms (mgr s)) (r_name r) \<noteq> Some room \<or> length (r_peers r) \<noteq> 0 then s
      else s\<lparr>roomHeap := (roomHeap s)[room := r\<lparr>r_closed := True\<rparr>],
             mgr := releaseRoomIndex (r_index r)
                      ((mgr s)\<lparr>m_rooms := AList.delete (r_name r) (m_rooms (mgr s))\<rparr>)\<rparr>)"

section \<open>Room\<close>

definition allocateHostLocked :: "Room \<Rightarrow> relay_error + Room \<times> byte" where
  "allocateHostLocked r =
     (case r_freeHosts r of
        host # rest \<Rightarrow> Inr (r\<lparr>r_freeHosts := rest\<rparr>, host)
      | [] \<Rightarrow>
          if lastUsableHost < r_nextHost r then Inl ErrRoomFull
          else Inr (r\<lparr>r_nextHost := r_nextHost r + 1\<rparr>, r_nextHost r))"

definition releaseHost :: "byte \<Rightarrow> Room \<Rightarrow> Room" where
  "releaseHost host r =
     (if host < firstUsableHost \<or> lastUsableHost < host then r
      else if host \<in> set (r_freeHosts r) then r
      else r\<lparr>r_freeHosts := sort (r_freeHosts r @ [host])\<rparr>)"

definition releaseHostLocked :: "Addr \<Rightarrow> Room \<Rightarrow> Room" where
  "releaseHostLocked ip r = (if \<not> Is4 ip then r else releaseHost (As4 ip ! 3) r)"

definition chooseMAC :: "JoinOptions \<Rightarrow> Draw \<Rightarrow> Room \<Rightarrow> relay_error + bytes" where
  "chooseMAC opt d r =
     (case cloneMAC (opt_RequestedMAC opt) of
        Some mac \<Rightarrow>
          if \<not> validPeerMAC mac then Inl ErrMACInvalid
          else if map_of (r_macToPeer r) mac \<noteq> None then Inl ErrMACInUse
          else Inr mac
      | None \<Rightarrow> randomMAC (d_mac d))"

definition newPeer :: "string \<Rightarrow> JoinOptions \<Rightarrow> roomref \<Rightarrow> Addr \<Rightarrow> bytes \<Rightarrow> time \<Rightarrow> Peer" where
  "newPeer peerID opt room ip mac now =
     \<lparr>p_ID = peerID, p_DisplayName = opt_DisplayName opt, p_Features = opt_Features opt,
      p_Room = room, p_IP = ip, p_MAC = mac, p_ConnectedAt = now,
      p_Frames = make_chan 128, p_Notify = make_chan 16, p_closing = False,
      p_rxBytes = 0, p_rxFrames = 0, p_txBytes = 0, p_txFrames = 0, p_dropBytes = 0, p_dropFrames = 0,
      p_windowStart = 0, p_windowFrames = 0, p_windowBytes = 0\<rparr>"

definition AddPeer :: "roomref \<Rightarrow> JoinOptions list \<Rightarrow> Draw \<Rightarrow> Store \<Rightarrow> Store \<times> (relay_error + peerref)" where
  "AddPeer room opts d s =
     (let r = roomHeap s ! room;
          opt = (case opts of [] \<Rightarrow> zero_opt | o1 # _ \<Rightarrow> o1)
      in if r_closed r then (s, Inl ErrRoomClosed)
         else case randomHex (d_id d) of
           Inl e \<Rightarrow> (s, Inl e)
         | Inr peerID \<Rightarrow>
             (case chooseMAC opt d r of
                Inl e \<Rightarrow> (s, Inl e)
              | Inr mac \<Rightarrow>
                  (case allocateHostLocked r of
                     Inl e \<Rightarrow> (s, Inl e)
                   | Inr (r1, host) \<Rightarrow>
                       (case ipv4ToUint32 (pfx_addr (r_prefix r1)) of
                          Inl e \<Rightarrow> (s\<lparr>roomHeap := (roomHeap s)[room := r1]\<rparr>, Inl e)
                        | Inr ipBase \<Rightarrow>
                            (let ip = uint32ToIPv4 (ipBase + ucast host);
                                 peer = newPeer peerID opt room ip mac (d_now d);
                                 ref = length (peerHeap s);
                                 r2 = r1\<lparr>r_peers := AList.update peerID ref (r_peers r1),
                                         r_macToPeer := AList.update mac ref (r_macToPeer r1)\<rparr>
                             in (s\<lparr>roomHeap := (roomHeap s)[room := r2],
                                   peerHeap := peerHeap s @ [peer]\<rparr>, Inr ref))))))"

text \<open>
  \<^verbatim>\<open>Manager.Join\<close> retries when the room it was given has been closed in the meantime. Run
  without interference, \<open>ds\<close> holds the draws of the successive attempts; None means that the
  given attempts did not settle the call.
\<close>

fun Manager_Join ::
  "string \<Rightarrow> JoinOptions list \<Rightarrow> Draw list \<Rightarrow> Store \<Rightarrow> Store \<times> (relay_error + peerref) option" where
  "Manager_Join roomName opts [] s = (s, None)"
| "Manager_Join roomName opts (d # ds) s =
     (let opt = (case opts of [] \<Rightarrow> zero_opt | o1 # _ \<Rightarrow> o1)
      in case getOrCreateRoom roomName (d_now d) s of
           (s1, Inl e) \<Rightarrow> (s1, Some (Inl e))
         | (s1, Inr room) \<Rightarrow>
             (case AddPeer room [opt] d s1 of
                (s2, Inl ErrRoomClosed) \<Rightarrow> Manager_Join roomName opts ds s2
              | (s2, res) \<Rightarrow> (s2, Some res)))"

definition PeerCount :: "roomref \<Rightarrow> Store \<Rightarrow> nat" where
  "PeerCount room s = length (r_peers (roomHeap s ! room))"

definition closeFrames :: "Peer \<Rightarrow> Peer" where
  "closeFrames p = (if p_closing p then p else p\<lparr>p_closing := True, p_Frames := close_chan (p_Frames p)\<rparr>)"

text \<open>
  \<^verbatim>\<open>RemovePeer\<close>: the section under the room's lock, with its answer whether the room is now
  empty (None: the peer is not registered and the call returns at once), and the whole call.
\<close>

definition removePeerLocked :: "peerref \<Rightarrow> roomref \<Rightarrow> Store \<Rightarrow> Store \<times> bool option" where
  "removePeerLocked peer room s =
     (let r = roomHeap s ! room; p = peerHeap s ! peer in
      if map_of (r_peers r) (p_ID p) \<noteq> Some peer then (s, None)
      else
        (let r1 = r\<lparr>r_peers := AList.delete (p_ID p) (r_peers r)\<rparr>;
             r2 = releaseHostLocked (p_IP p) r1;
             r3 = r2\<lparr>r_macToPeer := filter (\<lambda>(mac, owner). owner \<noteq> peer) (r_macToPeer r2)\<rparr>
         in (s\<lparr>roomHeap := (roomHeap s)[room := r3]\<rparr>, Some (r_peers r3 = []))))"

definition RemovePeer :: "peerref \<Rightarrow> roomref \<Rightarrow> Store \<Rightarrow> Store" where
  "RemovePeer peer room s =
     (case removePeerLocked peer room s of
        (s1, None) \<Rightarrow> s1
      | (s1, Some emptied) \<Rightarrow>
          (let s2 = s1\<lparr>peerHeap := (peerHeap s1)[peer := closeFrames (peerHeap s1 ! peer)]\<rparr>
           in if emptied \<and> r_manager (roomHeap s2 ! room) then deleteEmptyRoom room s2 else s2))"

section \<open>Forwarding\<close>

definition otherPeersLocked :: "Room \<Rightarrow> peerref \<Rightarrow> peerref list" where
  "otherPeersLocked r from = filter (\<lambda>p. p \<noteq> from) (map snd (r_peers r))"

text \<open>The section of \<^verbatim>\<open>Forward\<close> under the room's lock: the sender must still be registered.\<close>

definition forwardLocked :: "roomref \<Rightarrow> peerref \<Rightarrow> bytes \<Rightarrow> Store \<Rightarrow> Store \<times> (relay_error + peerref list)" where
  "forwardLocked room from dst s =
     (let p = peerHeap s ! from; r = roomHeap s ! room in
      if map_of (r_peers r) (p_ID p) \<noteq> Some from then (s, Inr [])
      else
        (let r1 = r\<lparr>r_macToPeer := AList.update (p_MAC p) from (r_macToPeer r)\<rparr>;
             s1 = s\<lparr>roomHeap := (roomHeap s)[room := r1]\<rparr>
         in if isBroadcast dst \<or> isMulticast dst then (s1, Inr (otherPeersLocked r1 from))
            else case map_of (r_macToPeer r1) dst of
              Some target \<Rightarrow>
                if target \<noteq> from \<and> map_of (r_peers r1) (p_ID (peerHeap s ! target)) = Some target
                then (s1, Inr [target]) else (s1, Inr (otherPeersLocked r1 from))
            | None \<Rightarrow> (s1, Inr (otherPeersLocked r1 from))))"

text \<open>The whole call. None is the panic of a slice expression out of range.\<close>

definition Forward ::
  "roomref \<Rightarrow> peerref \<Rightarrow> bytes \<Rightarrow> Store \<Rightarrow> (Store \<times> (relay_error + peerref list)) option" where
  "Forward room from frame s =
     (if length frame < 14 then Some (s, Inl ErrInvalidFrame)
      else do {
        dst \<leftarrow> slice 0 6 frame;
        src \<leftarrow> slice 6 12 frame;
        if src \<noteq> p_MAC (peerHeap s ! from) then Some (s, Inl ErrSourceMACInvalid)
        else Some (forwardLocked room from dst s)
      })"

lemma slice_prefix: "n \<le> length xs \<Longrightarrow> slice 0 n xs = Some (take n xs)"
  by (simp add: slice_def)

lemma slice_field: "i + n \<le> length xs \<Longrightarrow> slice i (i + n) xs = Some (take n (drop i xs))"
  by (simp add: slice_def drop_take)

text \<open>The check of the length makes both slices succeed: no frame makes the call panic.\<close>

lemma Forward_eq:
  "Forward room from frame s = Some
     (if length frame < 14 then (s, Inl ErrInvalidFrame)
      else if take 6 (drop 6 frame) \<noteq> p_MAC (peerHeap s ! from) then (s, Inl ErrSourceMACInvalid)
      else forwardLocked room from (take 6 frame) s)"
  using slice_prefix [of 6 frame] slice_field [of 6 6 frame] by (simp add: Forward_def)

lemmas forward_defs = Forward_eq forwardLocked_def Let_def

section \<open>Peer\<close>

definition RecordRxFrame :: "nat \<Rightarrow> Peer \<Rightarrow> Peer" where
  "RecordRxFrame sz p = p\<lparr>p_rxFrames := p_rxFrames p + 1, p_rxBytes := p_rxBytes p + of_nat sz\<rparr>"

definition RecordTxFrame :: "nat \<Rightarrow> Peer \<Rightarrow> Peer" where
  "RecordTxFrame sz p = p\<lparr>p_txFrames := p_txFrames p + 1, p_txBytes := p_txBytes p + of_nat sz\<rparr>"

definition RecordDropFrame :: "nat \<Rightarrow> Peer \<Rightarrow> Peer" where
  "RecordDropFrame sz p = p\<lparr>p_dropFrames := p_dropFrames p + 1, p_dropBytes := p_dropBytes p + of_nat sz\<rparr>"

text \<open>None is the panic of a send on a closed channel.\<close>

definition Enqueue :: "bytes \<Rightarrow> Peer \<Rightarrow> (Peer \<times> bool) option" where
  "Enqueue frame p =
     (case try_send (p_Frames p) frame of
        Sent c \<Rightarrow> Some (RecordTxFrame (length frame) (p\<lparr>p_Frames := c\<rparr>), True)
      | Full \<Rightarrow> Some (RecordDropFrame (length frame) p, False)
      | SendPanic \<Rightarrow> None)"

definition AllowFrame :: "nat \<Rightarrow> time \<Rightarrow> Peer \<Rightarrow> Peer \<times> bool" where
  "AllowFrame sz now p =
     (let p1 = (if IsZero (p_windowStart p) \<or> frameRateWindow \<le> time_Sub now (p_windowStart p)
                then p\<lparr>p_windowStart := now, p_windowFrames := 0, p_windowBytes := 0\<rparr> else p)
      in if maxPeerFrames < p_windowFrames p1 + 1 \<or> maxPeerBytes < p_windowBytes p1 + int sz
         then (p1, False)
         else (p1\<lparr>p_windowFrames := p_windowFrames p1 + 1,
                  p_windowBytes := p_windowBytes p1 + int sz\<rparr>, True))"

section \<open>Notifications\<close>

text \<open>
  The notify channel is never closed, so a send either succeeds or takes the default branch.
\<close>

definition push_notify :: "bytes \<Rightarrow> Peer \<Rightarrow> Peer \<times> bool" where
  "push_notify msg p =
     (case try_send (p_Notify p) msg of
        Sent c \<Rightarrow> (p\<lparr>p_Notify := c\<rparr>, True)
      | _ \<Rightarrow> (p, False))"

definition BroadcastNotify :: "roomref \<Rightarrow> bytes \<Rightarrow> peerref option \<Rightarrow> Store \<Rightarrow> Store" where
  "BroadcastNotify room msg exclude s =
     (let peers = filter (\<lambda>p. Some p \<noteq> exclude) (map snd (r_peers (roomHeap s ! room)))
      in s\<lparr>peerHeap := foldl (\<lambda>ph p. ph[p := fst (push_notify msg (ph ! p))]) (peerHeap s) peers\<rparr>)"

definition SendNotify :: "roomref \<Rightarrow> string \<Rightarrow> bytes \<Rightarrow> Store \<Rightarrow> Store \<times> bool" where
  "SendNotify room toPeerID msg s =
     (case map_of (r_peers (roomHeap s ! room)) toPeerID of
        None \<Rightarrow> (s, False)
      | Some p \<Rightarrow>
          (case push_notify msg (peerHeap s ! p) of
             (q, ok) \<Rightarrow> (s\<lparr>peerHeap := (peerHeap s)[p := q]\<rparr>, ok)))"

end
