(* ===== verification/Allocators.thy ===== *)
theory Allocators
  imports Relay
begin

text \<open>
  The two allocators of the relay, host numbers of a room and /24 indices of the manager,
  keep a counter of ids never handed out and a sorted list of returned ones. Both keep the
  same contract, stated as the locale \<open>id_allocator\<close>: an allocation returns the least id
  that is not owned, fails only when every id is owned, and a release makes exactly the
  given id available again. The consequences are proved once in the locale and used
  through its two interpretations \<open>host\<close> and \<open>room_index\<close>.
\<close>

section \<open>The contract\<close>

locale id_allocator =
  fixes alloc :: "'p \<Rightarrow> 'e + 'p \<times> ('i :: linorder)"
    and release :: "'i \<Rightarrow> 'p \<Rightarrow> 'p"
    and inv :: "'p \<Rightarrow> bool"
    and ids :: "'p \<Rightarrow> 'i set"
    and owned :: "'p \<Rightarrow> 'i set"
  assumes finite_ids: "finite (ids p)"
    and owned_ids: "inv p \<Longrightarrow> owned p \<subseteq> ids p"
    and alloc_some: "inv p \<Longrightarrow> owned p \<noteq> ids p \<Longrightarrow>
      \<exists>p'. alloc p = Inr (p', Min (ids p - owned p)) \<and> inv p' \<and> ids p' = ids p
           \<and> owned p' = insert (Min (ids p - owned p)) (owned p)"
    and alloc_none: "inv p \<Longrightarrow> owned p = ids p \<Longrightarrow> \<exists>e. alloc p = Inl e"
    and release_owned: "inv p \<Longrightarrow> i \<in> owned p \<Longrightarrow>
      inv (release i p) \<and> ids (release i p) = ids p \<and> owned (release i p) = owned p - {i}"
begin

lemma min_free: "inv p \<Longrightarrow> owned p \<noteq> ids p \<Longrightarrow> Min (ids p - owned p) \<in> ids p - owned p"
  using owned_ids [of p] finite_ids [of p] by (intro Min_in) auto

lemma alloc_Inr:
  assumes "inv p" and "alloc p = Inr (p', i)"
  shows "i \<in> ids p" and "i \<notin> owned p" and "i = Min (ids p - owned p)"
    and "inv p'" and "ids p' = ids p" and "owned p' = insert i (owned p)"
proof -
  have ne: "owned p \<noteq> ids p" using alloc_none [of p] assms by auto
  from alloc_some [OF assms(1) ne] assms(2) min_free [OF assms(1) ne]
  show "i \<in> ids p" "i \<notin> owned p" "i = Min (ids p - owned p)"
    "inv p'" "ids p' = ids p" "owned p' = insert i (owned p)" by auto
qed

lemma alloc_fails_iff: "inv p \<Longrightarrow> (\<exists>e. alloc p = Inl e) \<longleftrightarrow> card (owned p) = card (ids p)"
proof -
  assume p: "inv p"
  have "(\<exists>e. alloc p = Inl e) \<longleftrightarrow> owned p = ids p"
    using alloc_none [OF p] alloc_some [OF p] by (cases "owned p = ids p") auto
  also have "\<dots> \<longleftrightarrow> card (owned p) = card (ids p)"
    using card_subset_eq [OF finite_ids owned_ids [OF p]] by auto
  finally show ?thesis .
qed

text \<open>A released id that lies below every free one is the next to be handed out.\<close>

lemma reuse:
  assumes "inv p" and "i \<in> owned p" and "\<forall>j \<in> ids p - owned p. i \<le> j"
  shows "\<exists>p'. alloc (release i p) = Inr (p', i)"
proof -
  note rel = release_owned [OF assms(1,2)]
  have i: "i \<in> ids p" using owned_ids [OF assms(1)] assms(2) by auto
  have "ids p - (owned p - {i}) = insert i (ids p - owned p)" using i by auto
  moreover have "Min (insert i (ids p - owned p)) = i"
    using assms(3) finite_ids [of p] by (intro Min_eqI) auto
  ultimately have least: "Min (ids (release i p) - owned (release i p)) = i"
    using rel by simp
  have "i \<notin> owned (release i p)" "i \<in> ids (release i p)" using rel i by simp_all
  then have "owned (release i p) \<noteq> ids (release i p)" by metis
  from alloc_some [OF conjunct1 [OF rel] this] show ?thesis unfolding least by (elim exE conjE) (rule exI)
qed

text \<open>Releasing what was just allocated restores the set of owned ids.\<close>

lemma alloc_release: "inv p \<Longrightarrow> alloc p = Inr (p', i) \<Longrightarrow> owned (release i p') = owned p"
  using alloc_Inr [of p p' i] release_owned [of p' i] by auto

end

section \<open>Counter and free list\<close>

text \<open>
  What both allocators share: the ids below a counter \<open>n\<close>, less a set \<open>F\<close> of returned ones,
  are owned; \<open>I\<close> is the set of all ids.
\<close>

lemma pool_min_free:
  fixes n :: "'i :: linorder"
  assumes "finite I" and "F \<subseteq> {lo ..< n}" and "{lo ..< n} \<subseteq> I" and "I \<subseteq> {lo ..}"
    and "h \<in> F" and "\<forall>x \<in> F. h \<le> x"
  shows "Min (I - ({lo ..< n} - F)) = h"
proof (rule Min_eqI)
  show "h \<le> y" if "y \<in> I - ({lo ..< n} - F)" for y
  proof (cases "y \<in> F")
    case False
    then have "n \<le> y" using that assms(4) by auto
    moreover have "h < n" using assms(2,5) by auto
    ultimately show ?thesis by simp
  qed (use assms(6) in simp)
qed (use assms in auto)

lemma pool_min_next:
  fixes n :: "'i :: linorder"
  assumes "finite I" and "I \<subseteq> {lo ..}" and "n \<in> I"
  shows "Min (I - {lo ..< n}) = n"
  by (rule Min_eqI) (use assms in auto)

lemma word_less_Suc: "(n :: 'a::len word) < m \<Longrightarrow> x < n + 1 \<longleftrightarrow> x \<le> n"
proof -
  assume "n < m"
  then have "n \<noteq> -1" using word_order.extremum_strict by blast
  then have "n < n + 1" using inc_less_eq_self_iff_eq [of n] by (simp add: not_le)
  then show ?thesis using less_inc_imp_less_eq [of x n] by (meson order_le_less_trans)
qed

lemma word_interval_Suc: "(n :: 'a::len word) < m \<Longrightarrow> k \<le> n \<Longrightarrow> {k ..< n + 1} = insert n {k ..< n}"
  by (auto simp: word_less_Suc order_le_less)

section \<open>Host numbers of a room\<close>

definition host_ids :: "Room \<Rightarrow> byte set" where
  "host_ids r = {firstUsableHost .. lastUsableHost}"

definition host_owned :: "Room \<Rightarrow> byte set" where
  "host_owned r = {firstUsableHost ..< r_nextHost r} - set (r_freeHosts r)"

definition host_inv :: "Room \<Rightarrow> bool" where
  "host_inv r \<longleftrightarrow> sorted (r_freeHosts r) \<and> distinct (r_freeHosts r)
     \<and> set (r_freeHosts r) \<subseteq> {firstUsableHost ..< r_nextHost r}
     \<and> firstUsableHost \<le> r_nextHost r"

lemmas host_consts = firstUsableHost_def lastUsableHost_def

lemma byte_less_le: "(x :: byte) < y \<Longrightarrow> x \<le> lastUsableHost"
proof -
  assume "x < y"
  moreover have "unat y < 2 ^ 8" using unsigned_less [of y] by simp
  ultimately show ?thesis by (simp add: word_less_nat_alt word_le_nat_alt lastUsableHost_def)
qed

lemma host_below: "{firstUsableHost ..< r_nextHost r} \<subseteq> host_ids r"
  by (auto simp: host_ids_def dest: byte_less_le)

interpretation host: id_allocator allocateHostLocked releaseHost host_inv host_ids host_owned
proof
  fix r :: Room and h :: byte
  show "finite (host_ids r)" by (simp add: host_ids_def)
  show "host_owned r \<subseteq> host_ids r"
    using host_below by (auto simp: host_owned_def)
  show "\<exists>e. allocateHostLocked r = Inl e" if r: "host_inv r" "host_owned r = host_ids r"
  proof -
    have "set (r_freeHosts r) \<subseteq> host_ids r" using r(1) host_below by (auto simp: host_inv_def)
    then have "r_freeHosts r = []"
      using r(2) by (cases "r_freeHosts r") (auto simp: host_owned_def)
    moreover have "lastUsableHost < r_nextHost r"
      using r(2) by (auto simp: host_owned_def host_ids_def host_consts)
    ultimately show ?thesis by (simp add: allocateHostLocked_def)
  qed
  show "\<exists>r'. allocateHostLocked r = Inr (r', Min (host_ids r - host_owned r)) \<and> host_inv r'
      \<and> host_ids r' = host_ids r \<and> host_owned r' = insert (Min (host_ids r - host_owned r)) (host_owned r)"
    if r: "host_inv r" "host_owned r \<noteq> host_ids r"
  proof (cases "r_freeHosts r")
    case (Cons k ks)
    have k: "Min (host_ids r - host_owned r) = k"
      unfolding host_owned_def
      by (rule pool_min_free) (use r(1) Cons host_below in \<open>auto simp: host_ids_def host_inv_def\<close>)
    then show ?thesis
      using r(1) Cons by (auto simp: allocateHostLocked_def host_inv_def host_owned_def host_ids_def)
  next
    case Nil
    have le: "r_nextHost r \<le> lastUsableHost"
    proof (rule ccontr)
      assume "\<not> r_nextHost r \<le> lastUsableHost"
      then have "host_owned r = host_ids r"
        using Nil host_below [of r] by (auto simp: host_owned_def host_ids_def)
      with r(2) show False ..
    qed
    then have m: "r_nextHost r \<in> host_ids r"
      using r(1) by (auto simp: host_ids_def host_inv_def)
    have k: "Min (host_ids r - host_owned r) = r_nextHost r"
      using pool_min_next [OF _ _ m, of firstUsableHost] Nil by (simp add: host_owned_def host_ids_def)
    have lt: "r_nextHost r < 255"
      using le by (auto simp: host_consts intro: order_le_less_trans)
    then have "{firstUsableHost ..< r_nextHost r + 1} = insert (r_nextHost r) {firstUsableHost ..< r_nextHost r}"
      using r(1) by (intro word_interval_Suc) (auto simp: host_inv_def)
    moreover have "firstUsableHost \<le> r_nextHost r + 1"
      using r(1) word_less_Suc [OF lt, of firstUsableHost] by (auto simp: host_inv_def)
    ultimately show ?thesis
      using r(1) Nil le k
      by (auto simp: allocateHostLocked_def host_inv_def host_owned_def host_ids_def)
  qed
  show "host_inv (releaseHost h r) \<and> host_ids (releaseHost h r) = host_ids r
      \<and> host_owned (releaseHost h r) = host_owned r - {h}" if r: "host_inv r" "h \<in> host_owned r"
  proof -
    have "h \<in> host_ids r" "h \<notin> set (r_freeHosts r)"
      using r host_below [of r] by (auto simp: host_owned_def)
    then show ?thesis
      using r by (auto simp: releaseHost_def host_inv_def host_owned_def host_ids_def)
  qed
qed

section \<open>/24 indices of the manager\<close>

definition room_ids :: "Manager \<Rightarrow> u32 set" where
  "room_ids m = {0 ..< maxRooms m}"

definition room_owned :: "Manager \<Rightarrow> u32 set" where
  "room_owned m = {0 ..< m_nextRoom m} - set (m_freeRoom m)"

definition index_inv :: "Manager \<Rightarrow> bool" where
  "index_inv m \<longleftrightarrow> sorted (rev (m_freeRoom m)) \<and> distinct (m_freeRoom m)
     \<and> set (m_freeRoom m) \<subseteq> {0 ..< m_nextRoom m} \<and> m_nextRoom m \<le> maxRooms m"

lemma maxRooms_frame [simp]:
  "maxRooms (m\<lparr>m_freeRoom := f\<rparr>) = maxRooms m" "maxRooms (m\<lparr>m_nextRoom := n\<rparr>) = maxRooms m"
  "maxRooms (m\<lparr>m_rooms := rs\<rparr>) = maxRooms m"
  by (simp_all add: maxRooms_def)

lemma last_least: "sorted (rev xs) \<Longrightarrow> x \<in> set xs \<Longrightarrow> last xs \<le> x"
  by (induction xs rule: rev_induct) auto

interpretation room_index: id_allocator allocateRoomIndexLocked releaseRoomIndex index_inv room_ids room_owned
proof
  fix m :: Manager and i :: u32
  have below: "{0 ..< m_nextRoom m} \<subseteq> room_ids m" if "index_inv m"
    using that by (auto simp: room_ids_def index_inv_def)
  show "finite (room_ids m)" by (simp add: room_ids_def)
  show "room_owned m \<subseteq> room_ids m" if "index_inv m"
    using below [OF that] by (auto simp: room_owned_def)
  show "\<exists>e. allocateRoomIndexLocked m = Inl e" if m: "index_inv m" "room_owned m = room_ids m"
  proof -
    have "m_freeRoom m = []"
      using m below by (cases "m_freeRoom m") (auto simp: room_owned_def index_inv_def)
    moreover have "maxRooms m \<le> m_nextRoom m"
      using m(2) by (auto simp: room_owned_def room_ids_def)
    ultimately show ?thesis by (simp add: allocateRoomIndexLocked_def)
  qed
  show "\<exists>m'. allocateRoomIndexLocked m = Inr (m', Min (room_ids m - room_owned m)) \<and> index_inv m'
      \<and> room_ids m' = room_ids m \<and> room_owned m' = insert (Min (room_ids m - room_owned m)) (room_owned m)"
    if m: "index_inv m" "room_owned m \<noteq> room_ids m"
  proof (cases "m_freeRoom m" rule: rev_cases)
    case (snoc ks k)
    have "\<forall>x \<in> set (m_freeRoom m). k \<le> x"
      using m(1) snoc last_least [of "m_freeRoom m"] by (auto simp: index_inv_def)
    then have k: "Min (room_ids m - room_owned m) = k"
      unfolding room_owned_def
      by (intro pool_min_free) (use m(1) snoc below in \<open>auto simp: room_ids_def index_inv_def\<close>)
    then show ?thesis
      using m(1) snoc
      by (auto simp: allocateRoomIndexLocked_def index_inv_def room_owned_def room_ids_def nth_append)
  next
    case Nil
    have lt: "m_nextRoom m < maxRooms m"
    proof (rule ccontr)
      assume "\<not> m_nextRoom m < maxRooms m"
      then have "m_nextRoom m = maxRooms m" using m(1) by (simp add: index_inv_def)
      with m(2) Nil show False by (simp add: room_owned_def room_ids_def)
    qed
    have "Min (room_ids m - {0 ..< m_nextRoom m}) = m_nextRoom m"
      by (rule pool_min_next) (use lt in \<open>auto simp: room_ids_def\<close>)
    then have k: "Min (room_ids m - room_owned m) = m_nextRoom m"
      using Nil by (simp add: room_owned_def)
    have "{0 ..< m_nextRoom m + 1} = insert (m_nextRoom m) {0 ..< m_nextRoom m}"
      using lt by (intro word_interval_Suc) auto
    then show ?thesis
      using m(1) Nil lt k inc_le [OF lt]
      by (auto simp: allocateRoomIndexLocked_def index_inv_def room_owned_def room_ids_def)
  qed
  show "index_inv (releaseRoomIndex i m) \<and> room_ids (releaseRoomIndex i m) = room_ids m
      \<and> room_owned (releaseRoomIndex i m) = room_owned m - {i}" if m: "index_inv m" "i \<in> room_owned m"
    using m by (auto simp: releaseRoomIndex_def index_inv_def room_owned_def room_ids_def)
qed

end
