(* ===== verification/Relay_Inv.thy ===== *)
theory Relay_Inv
  imports Allocators
begin

text \<open>
  The invariant of the relay's store and its preservation by every operation of a room and
  of the manager. It ties the tables of a room to each other (peer table, MAC table, host
  numbers), the rooms to the manager (names, indices, the closed flag) and every address to
  the pool. The consequences that a user of the relay sees are stated in \<open>Relay_Props\<close>.
\<close>

section \<open>Association lists\<close>

lemma update_fresh: "k \<notin> fst ` set al \<Longrightarrow> AList.update k v al = al @ [(k, v)]"
  by (induction al) auto

lemma map_of_filter_snd:
  "distinct (map fst al) \<Longrightarrow>
     map_of (filter (\<lambda>(k, v). P v) al) k = (case map_of al k of Some v \<Rightarrow> if P v then Some v else None | None \<Rightarrow> None)"
proof (induction al)
  case (Cons kv al)
  have "map_of al (fst kv) = None" using Cons.prems by (simp add: map_of_eq_None_iff)
  with Cons show ?case by (cases kv) (auto split: option.splits)
qed simp

lemma distinct_filter_keys: "distinct (map fst al) \<Longrightarrow> distinct (map fst (filter P al))"
  by (simp add: distinct_map_filter)

lemma update_same: "map_of al k = Some v \<Longrightarrow> AList.update k v al = al"
  by (induction al) auto

lemma nth_update_any: "xs[i := x] ! j = (if i = j \<and> j < length xs then x else xs ! j)"
  by (cases "i < length xs") (auto simp: nth_list_update list_update_beyond)

section \<open>Addresses\<close>

definition room_base :: "Room \<Rightarrow> u32" where
  "room_base r = Uint32 (As4 (pfx_addr (r_prefix r)))"

definition peer_host :: "Peer \<Rightarrow> byte" where
  "peer_host p = As4 (p_IP p) ! 3"

definition room_address :: "Prefix \<Rightarrow> u32 \<Rightarrow> u32" where
  "room_address pool idx = Uint32 (As4 (pfx_addr pool)) + push_bit 8 idx"

definition pool_ok :: "Prefix \<Rightarrow> bool" where
  "pool_ok pool \<longleftrightarrow> Is4 (pfx_addr pool) \<and> 0 \<le> pfx_bits pool \<and> pfx_bits pool \<le> 24
     \<and> take_bit (32 - nat (pfx_bits pool)) (Uint32 (As4 (pfx_addr pool))) = 0"

lemma ipv4_addr4 [simp]: "ipv4ToUint32 (Addr4 w) = Inr w"
  by (simp add: ipv4ToUint32_def Is4_def As4_def)

lemma uint32ToIPv4_eq [simp]: "uint32ToIPv4 w = Addr4 w"
  by (simp add: uint32ToIPv4_def AddrFrom4_def)

lemma As4_Addr4 [simp]: "As4 (Addr4 w) = PutUint32 w"
  by (simp add: As4_def)

lemma Is4_Addr4 [simp]: "Is4 (Addr4 w)"
  by (simp add: Is4_def)

lemma low_byte: "PutUint32 w ! 3 = ucast w"
  by (simp add: PutUint32_def)

text \<open>A host number added to an aligned address is its last byte.\<close>

lemma aligned_bit: "take_bit k (b :: 'a::len word) = 0 \<Longrightarrow> n < k \<Longrightarrow> \<not> bit b n"
  using bit_take_bit_iff [of k b n] by simp

lemma aligned_add: "take_bit 8 b = 0 \<Longrightarrow> (b :: u32) + ucast (h :: byte) = b OR ucast h"
proof (rule disjunctive_add)
  fix n assume b: "take_bit 8 b = 0"
  show "\<not> bit b n \<or> \<not> bit (ucast h :: u32) n"
    using aligned_bit [OF b, of n] bit_imp_le_length [of h n] by (auto simp: bit_simps)
qed

lemma ucast_aligned: "take_bit 8 b = 0 \<Longrightarrow> ucast ((b :: u32) + ucast (h :: byte)) = h"
  by (rule bit_word_eqI) (auto simp: aligned_add bit_simps dest: aligned_bit)

lemma push_bit_inj: "(i :: u32) < 2 ^ 24 \<Longrightarrow> j < 2 ^ 24 \<Longrightarrow> push_bit 8 i = push_bit 8 j \<Longrightarrow> i = j"
proof -
  assume b: "i < 2 ^ 24" "j < 2 ^ 24" and eq: "push_bit 8 i = push_bit 8 j"
  have "unat i < 2 ^ 24" "unat j < 2 ^ 24" using b by (simp_all add: word_less_nat_alt)
  moreover have "unat (push_bit 8 i) = unat (push_bit 8 j)" using eq by simp
  ultimately show ?thesis
    by (simp add: push_bit_eq_mult unat_word_ariths word_unat_eq_iff)
qed

lemma pool_bits:
  assumes "pool_ok pool"
  obtains b where "pfx_bits pool = int b" and "b \<le> 24"
  using assms by (metis nat_0_le nat_le_iff of_nat_numeral pool_ok_def nat_numeral)

lemma unat_power2_u32: "k < 32 \<Longrightarrow> unat ((2 :: u32) ^ k) = 2 ^ k"
proof -
  assume "k < 32"
  then have "(2 :: nat) ^ k < 2 ^ 32" by (rule power_strict_increasing) simp
  then show ?thesis using unat_of_nat_u32 [of "2 ^ k"] by simp
qed

lemma maxRooms_pool:
  assumes "pool_ok (m_pool m)"
  shows "unat (maxRooms m) = 2 ^ (24 - nat (pfx_bits (m_pool m)))"
proof -
  obtain b where b: "pfx_bits (m_pool m) = int b" "b \<le> 24" using pool_bits [OF assms] .
  have "24 - b < (2 :: nat) ^ 32" using power_strict_increasing [of 5 32 "2 :: nat"] by simp
  then have "unat (of_nat (24 - b) :: u32) = 24 - b" by (rule unat_of_nat_u32)
  moreover have "(word_of_int (24 - int b) :: u32) = of_nat (24 - b)"
    using b(2) of_int_of_nat_eq [of "24 - b", where 'a = u32] by (simp only: of_nat_diff of_nat_numeral)
  ultimately show ?thesis by (simp add: maxRooms_def Let_def b push_bit_eq_mult unat_power2_u32)
qed

lemma maxRooms_le:
  assumes "pool_ok (m_pool m)"
  shows "unat (maxRooms m) \<le> 2 ^ 24"
  unfolding maxRooms_pool [OF assms] by (rule power_increasing) simp_all

lemma idx_bound: "pool_ok (m_pool m) \<Longrightarrow> i < maxRooms m \<Longrightarrow> i < 2 ^ 24"
  using maxRooms_le [of m] by (simp add: word_less_nat_alt)

lemma aligned_iff: "take_bit 8 (w :: u32) = 0 \<longleftrightarrow> unat w mod 256 = 0"
proof -
  have "unat (take_bit 8 w) = unat w mod 256"
    by (simp only: unsigned_take_bit_eq) (simp add: take_bit_eq_mod)
  then show ?thesis by (metis unat_eq_zero)
qed

lemma aligned_plus: "take_bit 8 a = 0 \<Longrightarrow> take_bit 8 b = 0 \<Longrightarrow> take_bit 8 (a + b :: u32) = 0"
proof -
  assume "take_bit 8 a = 0" "take_bit 8 b = 0"
  then have "(unat a + unat b) mod 256 = 0" by (simp add: aligned_iff mod_eq_0_iff_dvd)
  moreover have "unat (a + b) mod 256 = (unat a + unat b) mod 256"
    by (simp add: unat_word_ariths mod_mod_cancel)
  ultimately show ?thesis by (simp add: aligned_iff)
qed

lemma room_address_aligned: "pool_ok pool \<Longrightarrow> take_bit 8 (room_address pool idx) = 0"
proof -
  assume p: "pool_ok pool"
  have "8 \<le> 32 - nat (pfx_bits pool)" using p unfolding pool_ok_def by linarith
  have "take_bit 8 (Uint32 (As4 (pfx_addr pool))) = 0"
  proof (rule bit_word_eqI)
    fix n
    show "bit (take_bit 8 (Uint32 (As4 (pfx_addr pool)))) n = bit 0 n"
      using p \<open>8 \<le> _\<close> aligned_bit [of "32 - nat (pfx_bits pool)" "Uint32 (As4 (pfx_addr pool))" n]
      by (auto simp: bit_simps pool_ok_def)
  qed
  moreover have "take_bit 8 (push_bit 8 idx) = 0" by (simp add: take_bit_push_bit)
  ultimately show ?thesis
    unfolding room_address_def by (rule aligned_plus)
qed

section \<open>The invariant\<close>

definition live :: "Room \<Rightarrow> peerref set" where
  "live r = snd ` set (r_peers r)"

definition peer_ok :: "Peer list \<Rightarrow> roomref \<Rightarrow> Room \<Rightarrow> peerref \<Rightarrow> bool" where
  "peer_ok ph room r p \<longleftrightarrow> p < length ph \<and> map_of (r_peers r) (p_ID (ph ! p)) = Some p
     \<and> p_Room (ph ! p) = room \<and> \<not> p_closing (ph ! p) \<and> \<not> chan_closed (p_Frames (ph ! p))
     \<and> p_IP (ph ! p) = Addr4 (room_base r + ucast (peer_host (ph ! p)))
     \<and> validPeerMAC (p_MAC (ph ! p))"

definition mac_ok :: "Peer list \<Rightarrow> Room \<Rightarrow> bool" where
  "mac_ok ph r \<longleftrightarrow> distinct (map fst (r_macToPeer r))
     \<and> (\<forall>mac p. map_of (r_macToPeer r) mac = Some p \<longleftrightarrow> p \<in> live r \<and> p_MAC (ph ! p) = mac)"

definition host_ok :: "Peer list \<Rightarrow> Room \<Rightarrow> bool" where
  "host_ok ph r \<longleftrightarrow> host_inv r \<and> inj_on (\<lambda>p. peer_host (ph ! p)) (live r)
     \<and> (\<lambda>p. peer_host (ph ! p)) ` live r = host_owned r"

definition room_inv :: "Peer list \<Rightarrow> roomref \<Rightarrow> Room \<Rightarrow> bool" where
  "room_inv ph room r \<longleftrightarrow> distinct (map fst (r_peers r)) \<and> (\<forall>(k, p) \<in> set (r_peers r). p_ID (ph ! p) = k)
     \<and> (\<forall>p \<in> live r. peer_ok ph room r p) \<and> mac_ok ph r \<and> host_ok ph r"

definition live_rooms :: "Store \<Rightarrow> roomref set" where
  "live_rooms s = snd ` set (m_rooms (mgr s))"

definition registered :: "Store \<Rightarrow> roomref \<Rightarrow> bool" where
  "registered s room \<longleftrightarrow> map_of (m_rooms (mgr s)) (r_name (roomHeap s ! room)) = Some room"

definition room_ok :: "Store \<Rightarrow> roomref \<Rightarrow> bool" where
  "room_ok s room \<longleftrightarrow>
     (let r = roomHeap s ! room
      in room_inv (peerHeap s) room r \<and> r_manager r
         \<and> r_prefix r = PrefixFrom (Addr4 (room_address (m_pool (mgr s)) (r_index r))) 24
         \<and> (r_closed r \<longrightarrow> r_peers r = []) \<and> (r_closed r \<longleftrightarrow> \<not> registered s room))"

definition store_inv :: "Store \<Rightarrow> bool" where
  "store_inv s \<longleftrightarrow> pool_ok (m_pool (mgr s)) \<and> index_inv (mgr s)
     \<and> distinct (map fst (m_rooms (mgr s)))
     \<and> (\<forall>(n, room) \<in> set (m_rooms (mgr s)). room < length (roomHeap s) \<and> r_name (roomHeap s ! room) = n)
     \<and> (\<forall>room < length (roomHeap s). room_ok s room)
     \<and> inj_on (\<lambda>room. r_index (roomHeap s ! room)) (live_rooms s)
     \<and> (\<lambda>room. r_index (roomHeap s ! room)) ` live_rooms s = room_owned (mgr s)"

lemma store_invD:
  assumes "store_inv s"
  shows "pool_ok (m_pool (mgr s))" and "index_inv (mgr s)" and "distinct (map fst (m_rooms (mgr s)))"
    and "\<And>room. room \<in> live_rooms s \<Longrightarrow> room < length (roomHeap s) \<and> registered s room"
    and "\<And>room. room < length (roomHeap s) \<Longrightarrow> room_ok s room"
    and "inj_on (\<lambda>room. r_index (roomHeap s ! room)) (live_rooms s)"
    and "(\<lambda>room. r_index (roomHeap s ! room)) ` live_rooms s = room_owned (mgr s)"
    and "\<And>n room. (n, room) \<in> set (m_rooms (mgr s)) \<Longrightarrow> room < length (roomHeap s) \<and> r_name (roomHeap s ! room) = n"
proof -
  show "room < length (roomHeap s) \<and> registered s room" if live: "room \<in> live_rooms s" for room
  proof -
    obtain n where n: "(n, room) \<in> set (m_rooms (mgr s))" using live by (auto simp: live_rooms_def)
    then have "room < length (roomHeap s) \<and> r_name (roomHeap s ! room) = n"
      using assms by (auto simp: store_inv_def)
    moreover have "map_of (m_rooms (mgr s)) n = Some room"
      using assms n by (intro map_of_is_SomeI) (simp_all add: store_inv_def)
    ultimately show ?thesis by (simp add: registered_def)
  qed
qed (use assms in \<open>auto simp: store_inv_def\<close>)

lemma registered_live: "registered s room \<Longrightarrow> room \<in> live_rooms s"
  by (force simp: registered_def live_rooms_def dest: map_of_SomeD)

lemma live_rooms_iff: "store_inv s \<Longrightarrow> room \<in> live_rooms s \<longleftrightarrow> room < length (roomHeap s) \<and> registered s room"
  using store_invD(4) registered_live by blast

theorem NewManager_inv: "pool_ok pool \<Longrightarrow> store_inv (NewManager pool)"
  by (simp add: store_inv_def NewManager_def live_rooms_def index_inv_def room_owned_def)

section \<open>Frame rules\<close>

text \<open>A room keeps its invariant when peers are appended, when a peer of another room changes, and when a peer changes without touching what the tables speak about.\<close>

definition same_peer :: "Peer \<Rightarrow> Peer \<Rightarrow> bool" where
  "same_peer p q \<longleftrightarrow> p_ID p = p_ID q \<and> p_Room p = p_Room q \<and> p_IP p = p_IP q \<and> p_MAC p = p_MAC q
     \<and> p_closing p = p_closing q \<and> chan_closed (p_Frames p) = chan_closed (p_Frames q)"

lemma room_inv_cong:
  assumes "room_inv ph room r" and "length ph \<le> length ph'" and "\<And>p. p \<in> live r \<Longrightarrow> same_peer (ph ! p) (ph' ! p)"
  shows "room_inv ph' room r"
proof -
  have host: "peer_host (ph ! p) = peer_host (ph' ! p)" and mac: "p_MAC (ph ! p) = p_MAC (ph' ! p)"
    and ok: "peer_ok ph room r p \<Longrightarrow> peer_ok ph' room r p" if "p \<in> live r" for p
    using assms(3) [OF that] assms(2) by (auto simp: same_peer_def peer_host_def peer_ok_def)
  have "inj_on (\<lambda>p. peer_host (ph' ! p)) (live r) = inj_on (\<lambda>p. peer_host (ph ! p)) (live r)"
    by (rule inj_on_cong) (simp add: host)
  moreover have "(\<lambda>p. peer_host (ph' ! p)) ` live r = (\<lambda>p. peer_host (ph ! p)) ` live r"
    by (rule image_cong) (simp_all add: host)
  ultimately have "host_ok ph' r" using assms(1) by (simp add: room_inv_def host_ok_def)
  moreover have "mac_ok ph' r"
    using assms(1) mac by (auto simp: room_inv_def mac_ok_def)
  moreover have "p_ID (ph' ! p) = k" if "(k, p) \<in> set (r_peers r)" for k p
  proof -
    have "p \<in> live r" "p_ID (ph ! p) = k" using that assms(1) by (force simp: live_def room_inv_def)+
    then show ?thesis using assms(3) by (auto simp: same_peer_def)
  qed
  ultimately show ?thesis using assms(1) ok by (auto simp: room_inv_def)
qed

lemma live_room: "room_inv ph room r \<Longrightarrow> p \<in> live r \<Longrightarrow> p_Room (ph ! p) = room \<and> p < length ph"
  by (auto simp: room_inv_def peer_ok_def)

lemma same_peer_refl [simp]: "same_peer p p"
  by (simp add: same_peer_def)

lemma room_inv_append: "room_inv ph room r \<Longrightarrow> room_inv (ph @ [x]) room r"
  by (rule room_inv_cong [of ph]) (auto simp: nth_append dest: live_room)

lemma room_inv_update: "room_inv ph room r \<Longrightarrow> same_peer (ph ! p) x \<Longrightarrow> room_inv (ph[p := x]) room r"
  by (rule room_inv_cong [of ph]) (auto simp: nth_update_any dest: live_room)

lemma room_inv_update_dead: "room_inv ph room r \<Longrightarrow> p \<notin> live r \<Longrightarrow> room_inv (ph[p := x]) room r"
  by (rule room_inv_cong [of ph]) (auto simp: nth_update_any dest: live_room)

lemma live_closed: "live (r\<lparr>r_closed := c\<rparr>) = live r"
  by (simp add: live_def)

lemma room_inv_closed: "room_inv ph room (r\<lparr>r_closed := c\<rparr>) = room_inv ph room r"
proof -
  have "peer_ok ph room (r\<lparr>r_closed := c\<rparr>) = peer_ok ph room r"
    by (rule ext) (simp add: peer_ok_def room_base_def)
  moreover have "mac_ok ph (r\<lparr>r_closed := c\<rparr>) = mac_ok ph r"
    by (simp add: mac_ok_def live_closed)
  moreover have "host_ok ph (r\<lparr>r_closed := c\<rparr>) = host_ok ph r"
    by (simp add: host_ok_def live_closed host_inv_def host_owned_def)
  ultimately show ?thesis by (simp add: room_inv_def live_closed)
qed

text \<open>Replacing one room of the store, and the peers with it.\<close>

definition same_room :: "Room \<Rightarrow> Room \<Rightarrow> bool" where
  "same_room a b \<longleftrightarrow> r_manager a = r_manager b \<and> r_index a = r_index b \<and> r_name a = r_name b
     \<and> r_prefix a = r_prefix b \<and> r_closed a = r_closed b"

lemma registered_frame:
  assumes "same_room (roomHeap s ! room) r'"
  shows "registered (s\<lparr>roomHeap := (roomHeap s)[room := r'], peerHeap := ph\<rparr>) k \<longleftrightarrow> registered s k"
  using assms by (cases "room < length (roomHeap s)")
    (auto simp: registered_def nth_list_update same_room_def list_update_beyond)

lemma store_inv_room_update:
  assumes inv: "store_inv s" and room: "room < length (roomHeap s)"
    and same: "same_room (roomHeap s ! room) r'" and new: "room_inv ph room r'"
    and open_room: "\<not> r_closed r'"
    and others: "\<And>k. k < length (roomHeap s) \<Longrightarrow> k \<noteq> room \<Longrightarrow> room_inv ph k (roomHeap s ! k)"
  shows "store_inv (s\<lparr>roomHeap := (roomHeap s)[room := r'], peerHeap := ph\<rparr>)"
proof -
  let ?s' = "s\<lparr>roomHeap := (roomHeap s)[room := r'], peerHeap := ph\<rparr>"
  have idx: "r_index (roomHeap ?s' ! k) = r_index (roomHeap s ! k)" for k
    using same by (cases "k = room") (auto simp: same_room_def nth_list_update room)
  have "room_ok ?s' k" if k: "k < length (roomHeap s)" for k
    using store_invD(5) [OF inv k] same new open_room others [OF k] room
    by (cases "k = room")
      (auto simp: room_ok_def Let_def same_room_def registered_frame [OF same])
  moreover have "live_rooms ?s' = live_rooms s" by (simp add: live_rooms_def)
  moreover have "r_name (roomHeap ?s' ! k) = r_name (roomHeap s ! k)" for k
    using same by (cases "k = room") (auto simp: same_room_def nth_list_update room)
  ultimately show ?thesis
    using inv unfolding store_inv_def idx by simp
qed

section \<open>Creating a room\<close>

lemma allocateRoomIndex_frame:
  "allocateRoomIndexLocked m = Inr (m', i) \<Longrightarrow> m_pool m' = m_pool m \<and> m_rooms m' = m_rooms m"
  by (auto simp: allocateRoomIndexLocked_def Let_def split: if_splits)

lemma allocateRoomIndex_error: "allocateRoomIndexLocked m = Inl e \<Longrightarrow> e = ErrPoolFull"
  by (auto simp: allocateRoomIndexLocked_def Let_def split: if_splits)

definition freshRoom :: "string \<Rightarrow> time \<Rightarrow> Prefix \<Rightarrow> u32 \<Rightarrow> Room" where
  "freshRoom name now pool idx =
     \<lparr>r_manager = True, r_index = idx, r_name = name,
      r_prefix = PrefixFrom (Addr4 (room_address pool idx)) 24, r_createdAt = now,
      r_peers = [], r_macToPeer = [], r_nextHost = firstUsableHost, r_freeHosts = [], r_closed = False\<rparr>"

lemma freshRoom_inv: "room_inv ph room (freshRoom name now pool idx)"
  by (auto simp: room_inv_def freshRoom_def live_def mac_ok_def host_ok_def host_inv_def host_owned_def)

lemma pool_addr: "pool_ok pool \<Longrightarrow> ipv4ToUint32 (pfx_addr pool) = Inr (Uint32 (As4 (pfx_addr pool)))"
  by (simp add: pool_ok_def ipv4ToUint32_def)

text \<open>With an IPv4 pool there are three outcomes: the name is known, the pool is exhausted, or a new room is registered.\<close>

lemma getOrCreateRoom_cases:
  assumes "pool_ok (m_pool (mgr s))"
  obtains (known) room where "map_of (m_rooms (mgr s)) name = Some room"
      and "getOrCreateRoom name now s = (s, Inr room)"
  | (exhausted) "map_of (m_rooms (mgr s)) name = None" and "allocateRoomIndexLocked (mgr s) = Inl ErrPoolFull"
      and "getOrCreateRoom name now s = (s, Inl ErrPoolFull)"
  | (created) m1 idx where "map_of (m_rooms (mgr s)) name = None"
      and "allocateRoomIndexLocked (mgr s) = Inr (m1, idx)"
      and "getOrCreateRoom name now s =
        (s\<lparr>mgr := m1\<lparr>m_rooms := m_rooms (mgr s) @ [(name, length (roomHeap s))]\<rparr>,
           roomHeap := roomHeap s @ [freshRoom name now (m_pool (mgr s)) idx]\<rparr>, Inr (length (roomHeap s)))"
proof (cases "map_of (m_rooms (mgr s)) name")
  case (Some room)
  then show thesis by (intro known) (simp_all add: getOrCreateRoom_def)
next
  case None
  then have fresh: "AList.update name v (m_rooms (mgr s)) = m_rooms (mgr s) @ [(name, v)]" for v
    by (intro update_fresh) (simp add: map_of_eq_None_iff)
  show thesis
  proof (cases "allocateRoomIndexLocked (mgr s)")
    case (Inl e)
    then show thesis
      using None allocateRoomIndex_error [OF Inl] by (intro exhausted) (simp_all add: getOrCreateRoom_def)
  next
    case (Inr mi)
    obtain m1 idx where mi: "mi = (m1, idx)" by (cases mi)
    note fr = allocateRoomIndex_frame [OF Inr [unfolded mi]]
    show thesis
      by (rule created [OF None Inr [unfolded mi]])
        (simp add: getOrCreateRoom_def None Inr mi fr pool_addr [OF assms] fresh freshRoom_def
          room_address_def Let_def)
  qed
qed

lemma getOrCreateRoom_inv:
  assumes inv: "store_inv s" and run: "getOrCreateRoom name now s = (s', res)"
  shows "store_inv s'"
  using store_invD(1) [OF inv]
proof (cases rule: getOrCreateRoom_cases [of s name now])
  case (created m1 idx)
  let ?n = "length (roomHeap s)"
  let ?s' = "s\<lparr>mgr := m1\<lparr>m_rooms := m_rooms (mgr s) @ [(name, ?n)]\<rparr>,
      roomHeap := roomHeap s @ [freshRoom name now (m_pool (mgr s)) idx]\<rparr>"
  note D = store_invD [OF inv]
  note al = room_index.alloc_Inr [OF D(2) created(2)]
  note fr = allocateRoomIndex_frame [OF created(2)]
  have reg: "registered ?s' k \<longleftrightarrow> registered s k" if "k < ?n" for k
    using that created(1) by (auto simp: registered_def nth_append map_add_Some_iff)
  have reg_n: "registered ?s' ?n"
    using created(1) by (simp add: registered_def freshRoom_def map_add_def)
  have lr: "live_rooms ?s' = insert ?n (live_rooms s)"
    by (simp add: live_rooms_def)
  have notin: "?n \<notin> live_rooms s" using D(4) by blast
  have idx_old: "r_index (roomHeap ?s' ! k) = r_index (roomHeap s ! k)" if "k \<in> live_rooms s" for k
    using D(4) [OF that] by (simp add: nth_append)
  have idx_n: "r_index (roomHeap ?s' ! ?n) = idx" by (simp add: freshRoom_def)
  have img: "(\<lambda>k. r_index (roomHeap ?s' ! k)) ` live_rooms s = room_owned (mgr s)"
    using D(7) idx_old by (metis (no_types, lifting) image_cong)
  have "room_ok ?s' k" if "k < Suc ?n" for k
  proof (cases "k = ?n")
    case True
    then show ?thesis
      using reg_n fr by (simp add: room_ok_def freshRoom_inv) (simp add: freshRoom_def)
  next
    case False
    then have "k < ?n" using that by simp
    then show ?thesis
      using D(5) [of k] reg fr by (simp add: room_ok_def nth_append Let_def)
  qed
  moreover have "distinct (map fst (m_rooms (mgr ?s')))"
    using D(3) created(1) by (auto simp: map_of_eq_None_iff)
  moreover have "inj_on (\<lambda>k. r_index (roomHeap ?s' ! k)) (live_rooms ?s')"
    unfolding lr using D(6) notin img al(2) idx_old idx_n
    by (auto simp: inj_on_insert cong: inj_on_cong)
  moreover have "(\<lambda>k. r_index (roomHeap ?s' ! k)) ` live_rooms ?s' = room_owned (mgr ?s')"
    unfolding lr image_insert img idx_n using al(6) by (simp add: room_owned_def)
  moreover have "index_inv (mgr ?s')" using al(4) by (simp add: index_inv_def)
  moreover have "\<forall>(n, k) \<in> set (m_rooms (mgr ?s')). k < length (roomHeap ?s') \<and> r_name (roomHeap ?s' ! k) = n"
    using D(8) by (auto simp: less_SucI nth_append) (simp add: freshRoom_def)
  ultimately have "store_inv ?s'"
    using D(1) fr by (simp add: store_inv_def)
  then show ?thesis using run created(3) by simp
qed (use run inv in simp_all)

end
