(* ===== verification/Relay_Ops.thy ===== *)
theory Relay_Ops
  imports Relay_Inv
begin

text \<open>
  Preservation of the relay's invariant by joining, leaving and forwarding, with the outcome
  of each operation case by case.
\<close>

lemma map_of_snoc: "i \<notin> fst ` set al \<Longrightarrow> map_of (al @ [(i, v)]) k = (if k = i then Some v else map_of al k)"
  by (induction al) auto

section \<open>Drawn MAC addresses\<close>

lemma random_byte:
  fixes x :: byte
  shows "((x OR 2) AND 0xfe) AND 1 = 0" and "(x OR 2) AND 0xfe \<noteq> 0" and "(x OR 2) AND 0xfe \<noteq> 0xff"
proof -
  have b0: "\<not> bit ((x OR 2) AND 0xfe) 0" and b1: "bit ((x OR 2) AND 0xfe) 1"
    by (simp_all add: bit_simps)
  show "((x OR 2) AND 0xfe) AND 1 = 0"
    using b0 by (simp add: and_one_eq mod_2_eq_odd bit_0)
  show "(x OR 2) AND 0xfe \<noteq> 0" using b1 by auto
  show "(x OR 2) AND 0xfe \<noteq> 0xff" using b0 by auto
qed

lemma randomMAC_valid:
  assumes "randomMAC (Some b) = Inr mac" and "length b = 6"
  shows "validPeerMAC mac"
proof -
  obtain x xs where b: "b = x # xs" using assms(2) by (cases b) auto
  then have "mac = ((x OR 2) AND 0xfe) # xs" using assms(1) by (simp add: randomMAC_def)
  then show ?thesis
    using assms(2) b random_byte [of x]
    by (simp add: validPeerMAC_def isBroadcast_def isMulticast_def)
qed

section \<open>Joining a room\<close>

text \<open>
  What the code takes for granted of \<^verbatim>\<open>crypto/rand\<close>: a read fills the buffer, and the drawn
  id and MAC are not already in use in the room. (A requested MAC is checked by the code, a
  drawn one is not.)
\<close>

definition fresh_draw :: "Room \<Rightarrow> JoinOptions \<Rightarrow> Draw \<Rightarrow> bool" where
  "fresh_draw r opt d \<longleftrightarrow>
     (case randomHex (d_id d) of Inl e \<Rightarrow> True | Inr i \<Rightarrow> i \<notin> fst ` set (r_peers r))
     \<and> (case d_mac d of None \<Rightarrow> True | Some b \<Rightarrow> length b = 6)
     \<and> (cloneMAC (opt_RequestedMAC opt) = None \<longrightarrow>
          (case randomMAC (d_mac d) of Inl e \<Rightarrow> True | Inr m \<Rightarrow> m \<notin> fst ` set (r_macToPeer r)))"

lemma chooseMAC_ok:
  assumes "chooseMAC opt d r = Inr mac" and "fresh_draw r opt d"
  shows "validPeerMAC mac" and "mac \<notin> fst ` set (r_macToPeer r)"
proof -
  have "validPeerMAC mac \<and> mac \<notin> fst ` set (r_macToPeer r)"
  proof (cases "cloneMAC (opt_RequestedMAC opt)")
    case None
    then have r: "randomMAC (d_mac d) = Inr mac" using assms(1) by (simp add: chooseMAC_def)
    then obtain b where "d_mac d = Some b" by (cases "d_mac d") (auto simp: randomMAC_def)
    then show ?thesis
      using r None assms(2) randomMAC_valid [of b mac] by (simp add: fresh_draw_def)
  next
    case (Some m)
    then show ?thesis
      using assms(1) by (auto simp: chooseMAC_def map_of_eq_None_iff split: if_splits)
  qed
  then show "validPeerMAC mac" "mac \<notin> fst ` set (r_macToPeer r)" by simp_all
qed

lemma allocateHost_frame:
  "allocateHostLocked r = Inr (r1, h) \<Longrightarrow>
     \<exists>n f. r1 = r\<lparr>r_nextHost := n, r_freeHosts := f\<rparr>"
proof -
  assume "allocateHostLocked r = Inr (r1, h)"
  then consider "r1 = r\<lparr>r_freeHosts := tl (r_freeHosts r)\<rparr>" | "r1 = r\<lparr>r_nextHost := r_nextHost r + 1\<rparr>"
    by (auto simp: allocateHostLocked_def split: list.splits if_splits)
  then show ?thesis
  proof cases
    case 1
    then have "r1 = r\<lparr>r_nextHost := r_nextHost r, r_freeHosts := tl (r_freeHosts r)\<rparr>" by simp
    then show ?thesis by blast
  next
    case 2
    then have "r1 = r\<lparr>r_nextHost := r_nextHost r + 1, r_freeHosts := r_freeHosts r\<rparr>" by simp
    then show ?thesis by blast
  qed
qed

lemma allocateHost_error: "allocateHostLocked r = Inl e \<Longrightarrow> e = ErrRoomFull"
  by (auto simp: allocateHostLocked_def split: list.splits if_splits)

definition joined :: "Room \<Rightarrow> string \<Rightarrow> bytes \<Rightarrow> peerref \<Rightarrow> Room" where
  "joined r peerID mac p =
     r\<lparr>r_peers := r_peers r @ [(peerID, p)], r_macToPeer := r_macToPeer r @ [(mac, p)]\<rparr>"

lemma host_inv_cong:
  "r_nextHost r = r_nextHost r' \<Longrightarrow> r_freeHosts r = r_freeHosts r' \<Longrightarrow>
     host_inv r = host_inv r' \<and> host_owned r = host_owned r'"
  by (simp add: host_inv_def host_owned_def)

lemma mac_lookup:
  "room_inv ph room r \<Longrightarrow> map_of (r_macToPeer r) mac = Some p \<longleftrightarrow> p \<in> live r \<and> p_MAC (ph ! p) = mac"
  by (simp add: room_inv_def mac_ok_def)

lemma joined_room_inv:
  assumes inv: "room_inv ph room r" and alloc: "allocateHostLocked r = Inr (r1, h)"
    and fresh_id: "i \<notin> fst ` set (r_peers r)" and fresh_mac: "mac \<notin> fst ` set (r_macToPeer r)"
    and mac: "validPeerMAC mac" and base: "take_bit 8 (room_base r) = 0"
    and q: "q = newPeer i opt room (Addr4 (room_base r + ucast h)) mac now"
  shows "room_inv (ph @ [q]) room (joined r1 i mac (length ph))"
proof -
  let ?p = "length ph" and ?ph = "ph @ [q]"
  let ?r = "joined r1 i mac ?p"
  obtain n f where r1: "r1 = r\<lparr>r_nextHost := n, r_freeHosts := f\<rparr>"
    using allocateHost_frame [OF alloc] by blast
  have old: "room_inv ?ph room r" using inv by (rule room_inv_append)
  have hinv: "host_inv r" using inv by (simp add: room_inv_def host_ok_def)
  note al = host.alloc_Inr [OF hinv alloc]
  have live: "live ?r = insert ?p (live r)" by (simp add: live_def joined_def r1)
  have notin: "?p \<notin> live r" using live_room [OF inv] by blast
  have h: "peer_host q = h"
    using ucast_aligned [OF base, of h] by (simp add: q newPeer_def peer_host_def low_byte)
  have b: "room_base ?r = room_base r" by (simp add: room_base_def joined_def r1)
  have peers: "map_of (r_peers ?r) k = (if k = i then Some ?p else map_of (r_peers r) k)" for k
    using fresh_id by (simp add: joined_def r1 map_of_snoc del: map_of_append)
  have "peer_ok ?ph room ?r p" if "p \<in> live ?r" for p
  proof (cases "p = ?p")
    case True
    then show ?thesis
      using h by (simp add: peer_ok_def peers b) (simp add: q newPeer_def make_chan_def mac)
  next
    case False
    then have ok: "peer_ok ?ph room r p" using that live old by (auto simp: room_inv_def)
    then have "p_ID (?ph ! p) \<noteq> i"
      using fresh_id by (force simp: peer_ok_def dest: map_of_SomeD)
    with ok show ?thesis by (simp add: peer_ok_def peers b)
  qed
  moreover have "mac_ok ?ph ?r"
  proof -
    have none: "map_of (r_macToPeer r) mac = None" using fresh_mac by (simp add: map_of_eq_None_iff)
    have look: "map_of (r_macToPeer ?r) m = (if m = mac then Some ?p else map_of (r_macToPeer r) m)" for m
      using fresh_mac by (simp add: joined_def r1 map_of_snoc del: map_of_append)
    have ne: "p_MAC (?ph ! p) \<noteq> mac" if "p \<in> live r" for p
      using mac_lookup [OF old, of mac p] none that by simp
    have "p_MAC (?ph ! ?p) = mac" by (simp add: q newPeer_def)
    then have "(map_of (r_macToPeer ?r) m = Some p) = (p \<in> live ?r \<and> p_MAC (?ph ! p) = m)" for m p
      unfolding look live using mac_lookup [OF old, of m p] ne notin none by auto
    moreover have "distinct (map fst (r_macToPeer ?r))"
      using inv fresh_mac by (simp add: room_inv_def mac_ok_def joined_def r1)
    ultimately show ?thesis by (simp add: mac_ok_def)
  qed
  moreover have "host_ok ?ph ?r"
  proof -
    have *: "host_inv ?r = host_inv r1" "host_owned ?r = host_owned r1"
      using host_inv_cong [of ?r r1] by (simp_all add: joined_def)
    have img: "(\<lambda>p. peer_host (?ph ! p)) ` live r = host_owned r"
      and inj: "inj_on (\<lambda>p. peer_host (?ph ! p)) (live r)"
      using old by (simp_all add: room_inv_def host_ok_def)
    show ?thesis
      unfolding host_ok_def * live image_insert img al(6)
      using al(2,4) inj img h notin by (auto simp: inj_on_insert)
  qed
  moreover have "distinct (map fst (r_peers ?r))"
    using inv fresh_id by (simp add: room_inv_def joined_def r1)
  moreover have "\<forall>(k, p) \<in> set (r_peers ?r). p_ID (?ph ! p) = k"
    using old by (simp add: room_inv_def joined_def r1) (simp add: q newPeer_def)
  ultimately show ?thesis by (simp add: room_inv_def)
qed

lemma room_prefix:
  assumes "store_inv s" and "room < length (roomHeap s)"
  shows "pfx_addr (r_prefix (roomHeap s ! room)) = Addr4 (room_base (roomHeap s ! room))"
    and "take_bit 8 (room_base (roomHeap s ! room)) = 0"
    and "room_base (roomHeap s ! room) = room_address (m_pool (mgr s)) (r_index (roomHeap s ! room))"
proof -
  have "r_prefix (roomHeap s ! room) = PrefixFrom (Addr4 (room_address (m_pool (mgr s)) (r_index (roomHeap s ! room)))) 24"
    using store_invD(5) [OF assms] by (simp add: room_ok_def Let_def)
  then show "pfx_addr (r_prefix (roomHeap s ! room)) = Addr4 (room_base (roomHeap s ! room))"
    and "take_bit 8 (room_base (roomHeap s ! room)) = 0"
    and "room_base (roomHeap s ! room) = room_address (m_pool (mgr s)) (r_index (roomHeap s ! room))"
    using room_address_aligned [OF store_invD(1) [OF assms(1)]]
    by (simp_all add: room_base_def PrefixFrom_def)
qed

abbreviation the_opt :: "JoinOptions list \<Rightarrow> JoinOptions" where
  "the_opt opts \<equiv> (case opts of [] \<Rightarrow> zero_opt | o1 # _ \<Rightarrow> o1)"

lemma AddPeer_cases:
  assumes inv: "store_inv s" and room: "room < length (roomHeap s)"
    and fresh: "fresh_draw (roomHeap s ! room) (the_opt opts) d"
  obtains (closed) "r_closed (roomHeap s ! room)" and "AddPeer room opts d s = (s, Inl ErrRoomClosed)"
  | (no_id) "\<not> r_closed (roomHeap s ! room)" and "d_id d = None"
      and "AddPeer room opts d s = (s, Inl ErrRand)"
  | (no_mac) e where "\<not> r_closed (roomHeap s ! room)"
      and "chooseMAC (the_opt opts) d (roomHeap s ! room) = Inl e"
      and "AddPeer room opts d s = (s, Inl e)"
  | (full) mac where "\<not> r_closed (roomHeap s ! room)"
      and "chooseMAC (the_opt opts) d (roomHeap s ! room) = Inr mac"
      and "allocateHostLocked (roomHeap s ! room) = Inl ErrRoomFull"
      and "AddPeer room opts d s = (s, Inl ErrRoomFull)"
  | (added) i mac r1 h q where "\<not> r_closed (roomHeap s ! room)" and "randomHex (d_id d) = Inr i"
      and "chooseMAC (the_opt opts) d (roomHeap s ! room) = Inr mac"
      and "allocateHostLocked (roomHeap s ! room) = Inr (r1, h)"
      and "i \<notin> fst ` set (r_peers (roomHeap s ! room))"
      and "q = newPeer i (the_opt opts) room (Addr4 (room_base (roomHeap s ! room) + ucast h)) mac (d_now d)"
      and "AddPeer room opts d s =
        (s\<lparr>roomHeap := (roomHeap s)[room := joined r1 i mac (length (peerHeap s))],
           peerHeap := peerHeap s @ [q]\<rparr>, Inr (length (peerHeap s)))"
proof (cases "r_closed (roomHeap s ! room)")
  case True
  then show thesis by (intro closed) (simp_all add: AddPeer_def)
next
  case op: False
  show thesis
  proof (cases "d_id d")
    case None
    then show thesis using op by (intro no_id) (simp_all add: AddPeer_def randomHex_def)
  next
    case (Some b)
    then have i: "randomHex (d_id d) = Inr (hex_bytes b)" by (simp add: randomHex_def)
    show thesis
    proof (cases "chooseMAC (the_opt opts) d (roomHeap s ! room)")
      case (Inl e)
      then show thesis using op i by (intro no_mac) (simp_all add: AddPeer_def)
    next
      case mac: (Inr mac)
      show thesis
      proof (cases "allocateHostLocked (roomHeap s ! room)")
        case (Inl e)
        then show thesis
          using op i mac allocateHost_error [OF Inl] by (intro full) (simp_all add: AddPeer_def)
      next
        case (Inr rh)
        obtain r1 h where rh: "rh = (r1, h)" by (cases rh)
        note alloc = Inr [unfolded rh]
        have "hex_bytes b \<notin> fst ` set (r_peers (roomHeap s ! room))"
          using fresh i by (simp add: fresh_draw_def)
        note new = this chooseMAC_ok(2) [OF mac fresh]
        obtain n f where r1: "r1 = (roomHeap s ! room)\<lparr>r_nextHost := n, r_freeHosts := f\<rparr>"
          using allocateHost_frame [OF alloc] by blast
        show thesis
          by (rule added [OF op i mac alloc new(1) refl])
            (use op i mac alloc new in \<open>simp add: AddPeer_def Let_def joined_def r1 update_fresh
              room_prefix(1) [OF inv room]\<close>)
      qed
    qed
  qed
qed

lemma AddPeer_inv:
  assumes inv: "store_inv s" and room: "room < length (roomHeap s)"
    and fresh: "fresh_draw (roomHeap s ! room) (the_opt opts) d"
    and run: "AddPeer room opts d s = (s', res)"
  shows "store_inv s'"
  using inv room fresh
proof (cases rule: AddPeer_cases)
  case (added i mac r1 h q)
  let ?r = "roomHeap s ! room"
  have rinv: "room_inv (peerHeap s) k (roomHeap s ! k)" if "k < length (roomHeap s)" for k
    using store_invD(5) [OF inv that] by (simp add: room_ok_def Let_def)
  have "room_inv (peerHeap s @ [q]) room (joined r1 i mac (length (peerHeap s)))"
    using joined_room_inv [OF rinv [OF room] added(4,5) chooseMAC_ok(2,1) [OF added(3) fresh]
        room_prefix(2) [OF inv room] added(6)] .
  moreover obtain n f where "r1 = ?r\<lparr>r_nextHost := n, r_freeHosts := f\<rparr>"
    using allocateHost_frame [OF added(4)] by blast
  then have "same_room ?r (joined r1 i mac (length (peerHeap s)))"
    "\<not> r_closed (joined r1 i mac (length (peerHeap s)))"
    using added(1) by (simp_all add: same_room_def joined_def)
  ultimately have "store_inv (s\<lparr>roomHeap := (roomHeap s)[room := joined r1 i mac (length (peerHeap s))],
      peerHeap := peerHeap s @ [q]\<rparr>)"
    by (intro store_inv_room_update inv room) (auto intro: room_inv_append rinv)
  then show ?thesis using run added(7) by simp
qed (use run inv in simp_all)

section \<open>Leaving a room\<close>

lemma live_delete:
  assumes "room_inv ph room r" and "map_of (r_peers r) (p_ID (ph ! p)) = Some p"
  shows "snd ` set (AList.delete (p_ID (ph ! p)) (r_peers r)) = live r - {p}"
proof -
  have "k = p_ID (ph ! p) \<longleftrightarrow> q = p" if kq: "(k, q) \<in> set (r_peers r)" for k q
  proof -
    have d: "distinct (map fst (r_peers r))" using assms(1) by (simp add: room_inv_def)
    have "p_ID (ph ! q) = k" using kq assms(1) by (auto simp: room_inv_def)
    moreover have "map_of (r_peers r) k = Some q" using d kq by (rule map_of_is_SomeI)
    ultimately show ?thesis using assms(2) by (metis option.inject)
  qed
  then have "AList.delete (p_ID (ph ! p)) (r_peers r) = filter (\<lambda>(k, q). q \<noteq> p) (r_peers r)"
    unfolding AList.delete_eq by (intro filter_cong) auto
  moreover have "snd ` set (filter (\<lambda>(k, q). q \<noteq> p) xs) = snd ` set xs - {p}" for xs :: "(string \<times> peerref) list"
    by force
  ultimately show ?thesis by (simp add: live_def)
qed

lemma releaseHost_frame: "\<exists>f. releaseHostLocked ip r = r\<lparr>r_freeHosts := f\<rparr>"
proof -
  have "r = r\<lparr>r_freeHosts := r_freeHosts r\<rparr>" by simp
  then show ?thesis unfolding releaseHostLocked_def releaseHost_def by metis
qed

definition parted :: "Room \<Rightarrow> string \<Rightarrow> peerref \<Rightarrow> byte list \<Rightarrow> Room" where
  "parted r peerID p free =
     r\<lparr>r_peers := AList.delete peerID (r_peers r), r_freeHosts := free,
       r_macToPeer := filter (\<lambda>(mac, owner). owner \<noteq> p) (r_macToPeer r)\<rparr>"

lemma parted_room_inv:
  assumes inv: "room_inv ph room r" and p: "map_of (r_peers r) (p_ID (ph ! p)) = Some p"
    and free: "free = r_freeHosts (releaseHost (peer_host (ph ! p)) r)"
  shows "room_inv ph room (parted r (p_ID (ph ! p)) p free)"
proof -
  let ?id = "p_ID (ph ! p)" and ?h = "peer_host (ph ! p)"
  let ?r = "parted r ?id p free"
  have pl: "p \<in> live r" using p by (force simp: live_def dest: map_of_SomeD)
  have live: "live ?r = live r - {p}" using live_delete [OF inv p] by (simp add: live_def parted_def)
  have keys: "p_ID (ph ! q) \<noteq> ?id" if "q \<in> live r - {p}" for q
    using that inv p by (auto simp: room_inv_def peer_ok_def)
  have b: "room_base ?r = room_base r" by (simp add: room_base_def parted_def)
  have "peer_ok ph room ?r q" if "q \<in> live ?r" for q
    using that keys [of q] inv unfolding live
    by (auto simp: room_inv_def peer_ok_def b) (simp add: parted_def AList.delete_conv')
  moreover have "mac_ok ph ?r"
  proof -
    have "distinct (map fst (r_macToPeer r))" using inv by (simp add: room_inv_def mac_ok_def)
    then have look: "map_of (r_macToPeer ?r) mac = Some q \<longleftrightarrow> map_of (r_macToPeer r) mac = Some q \<and> q \<noteq> p" for mac q
      by (cases "map_of (r_macToPeer r) mac")
        (auto simp: parted_def map_of_filter_snd simp del: map_of_eq_Some_iff)
    have "distinct (map fst (r_macToPeer ?r))"
      using inv by (simp add: room_inv_def mac_ok_def parted_def distinct_filter_keys)
    then show ?thesis
      unfolding mac_ok_def live look mac_lookup [OF inv] by blast
  qed
  moreover have "host_ok ph ?r"
  proof -
    have hinv: "host_inv r" and img: "(\<lambda>q. peer_host (ph ! q)) ` live r = host_owned r"
      and inj: "inj_on (\<lambda>q. peer_host (ph ! q)) (live r)"
      using inv by (simp_all add: room_inv_def host_ok_def)
    have h: "?h \<in> host_owned r" using pl img by auto
    note rel = host.release_owned [OF hinv h]
    have "r_nextHost (releaseHost ?h r) = r_nextHost r" by (simp add: releaseHost_def)
    then have *: "host_inv ?r = host_inv (releaseHost ?h r)" "host_owned ?r = host_owned (releaseHost ?h r)"
      using host_inv_cong [of ?r "releaseHost ?h r"] by (simp_all add: parted_def free)
    have "(\<lambda>q. peer_host (ph ! q)) ` (live r - {p}) = host_owned r - {?h}"
      using inj_on_image_set_diff [OF inj, of "live r" "{p}"] pl img by auto
    then show ?thesis
      unfolding host_ok_def * live using rel inj by (auto intro: inj_on_diff)
  qed
  moreover have "distinct (map fst (r_peers ?r))"
    using inv by (simp add: room_inv_def parted_def AList.distinct_delete)
  moreover have "\<forall>(k, q) \<in> set (r_peers ?r). p_ID (ph ! q) = k"
    using inv by (auto simp: room_inv_def parted_def AList.delete_eq)
  ultimately show ?thesis by (simp add: room_inv_def)
qed

lemma store_room_inv: "store_inv s \<Longrightarrow> k < length (roomHeap s) \<Longrightarrow> room_inv (peerHeap s) k (roomHeap s ! k)"
  using store_invD(5) by (simp add: room_ok_def Let_def)

lemma member_open:
  assumes "store_inv s" and "room < length (roomHeap s)" and "p \<in> live (roomHeap s ! room)"
  shows "\<not> r_closed (roomHeap s ! room)"
  using store_invD(5) [OF assms(1,2)] assms(3) by (auto simp: room_ok_def Let_def live_def)

lemma lookup_live: "map_of (r_peers r) k = Some p \<Longrightarrow> p \<in> live r"
  by (force simp: live_def dest: map_of_SomeD)

lemma removePeerLocked_cases:
  assumes inv: "store_inv s" and room: "room < length (roomHeap s)"
  obtains (absent) "map_of (r_peers (roomHeap s ! room)) (p_ID (peerHeap s ! p)) \<noteq> Some p"
      and "removePeerLocked p room s = (s, None)"
  | (removed) r' where "map_of (r_peers (roomHeap s ! room)) (p_ID (peerHeap s ! p)) = Some p"
      and "r' = parted (roomHeap s ! room) (p_ID (peerHeap s ! p)) p
             (r_freeHosts (releaseHost (peer_host (peerHeap s ! p)) (roomHeap s ! room)))"
      and "removePeerLocked p room s = (s\<lparr>roomHeap := (roomHeap s)[room := r']\<rparr>, Some (r_peers r' = []))"
      and "room_inv (peerHeap s) room r'" and "same_room (roomHeap s ! room) r'" and "\<not> r_closed r'"
      and "live r' = live (roomHeap s ! room) - {p}"
proof (cases "map_of (r_peers (roomHeap s ! room)) (p_ID (peerHeap s ! p)) = Some p")
  case False
  then show thesis by (intro absent) (simp_all add: removePeerLocked_def Let_def)
next
  case True
  let ?r = "roomHeap s ! room" and ?q = "peerHeap s ! p"
  let ?r' = "parted ?r (p_ID ?q) p (r_freeHosts (releaseHost (peer_host ?q) ?r))"
  note rinv = store_room_inv [OF inv room]
  have "p \<in> live ?r" using True by (rule lookup_live)
  then have ip: "p_IP ?q = Addr4 (room_base ?r + ucast (peer_host ?q))" and op: "\<not> r_closed ?r"
    using rinv member_open [OF inv room] by (auto simp: room_inv_def peer_ok_def)
  have "Is4 (p_IP ?q)" by (subst ip) simp
  then have rel: "releaseHostLocked (p_IP ?q) (?r\<lparr>r_peers := ps\<rparr>)
      = ?r\<lparr>r_peers := ps, r_freeHosts := r_freeHosts (releaseHost (peer_host ?q) ?r)\<rparr>" for ps
    by (simp add: releaseHostLocked_def peer_host_def releaseHost_def)
  show thesis
  proof (rule removed [OF True refl])
    show "removePeerLocked p room s = (s\<lparr>roomHeap := (roomHeap s)[room := ?r']\<rparr>, Some (r_peers ?r' = []))"
      using True by (simp add: removePeerLocked_def Let_def rel parted_def)
    show "room_inv (peerHeap s) room ?r'" using rinv True by (rule parted_room_inv) simp
    show "same_room ?r ?r'" "\<not> r_closed ?r'" using op by (simp_all add: same_room_def parted_def)
    show "live ?r' = live ?r - {p}" using live_delete [OF rinv True] by (simp add: live_def parted_def)
  qed
qed

lemma store_inv_room_only:
  assumes "store_inv s" and "room < length (roomHeap s)" and "same_room (roomHeap s ! room) r'"
    and "room_inv (peerHeap s) room r'" and "\<not> r_closed r'"
  shows "store_inv (s\<lparr>roomHeap := (roomHeap s)[room := r']\<rparr>)"
proof -
  have "store_inv (s\<lparr>roomHeap := (roomHeap s)[room := r'], peerHeap := peerHeap s\<rparr>)"
    using assms store_room_inv by (intro store_inv_room_update) auto
  then show ?thesis by simp
qed

lemma removePeerLocked_inv:
  assumes inv: "store_inv s" and room: "room < length (roomHeap s)"
    and run: "removePeerLocked p room s = (s', res)"
  shows "store_inv s'"
  using inv room
proof (cases rule: removePeerLocked_cases [of s room p])
  case (removed r')
  then show ?thesis using store_inv_room_only [OF inv room removed(5,4,6)] run by simp
qed (use run inv in simp)

text \<open>A peer that is in no table may change in any way, as it does when its queue is closed.\<close>

definition detached :: "Store \<Rightarrow> peerref \<Rightarrow> bool" where
  "detached s p \<longleftrightarrow> (\<forall>k < length (roomHeap s). p \<notin> live (roomHeap s ! k))"

lemma store_inv_peers:
  assumes inv: "store_inv s" and rooms: "\<And>k. k < length (roomHeap s) \<Longrightarrow> room_inv ph k (roomHeap s ! k)"
  shows "store_inv (s\<lparr>peerHeap := ph\<rparr>)"
proof -
  have "room_ok (s\<lparr>peerHeap := ph\<rparr>) k" if "k < length (roomHeap s)" for k
    using store_invD(5) [OF inv that] rooms [OF that] by (simp add: room_ok_def registered_def Let_def)
  then show ?thesis
    using inv by (simp add: store_inv_def live_rooms_def)
qed

lemma detached_update: "store_inv s \<Longrightarrow> detached s p \<Longrightarrow> store_inv (s\<lparr>peerHeap := (peerHeap s)[p := x]\<rparr>)"
  by (rule store_inv_peers) (auto simp: detached_def intro: room_inv_update_dead store_room_inv)

lemma same_peer_update:
  "store_inv s \<Longrightarrow> same_peer (peerHeap s ! p) x \<Longrightarrow> store_inv (s\<lparr>peerHeap := (peerHeap s)[p := x]\<rparr>)"
  by (rule store_inv_peers) (auto intro: room_inv_update store_room_inv)

lemma removed_detached:
  assumes inv: "store_inv s" and room: "room < length (roomHeap s)"
    and run: "removePeerLocked p room s = (s', Some b)"
  shows "detached s' p"
  using inv room
proof (cases rule: removePeerLocked_cases [of s room p])
  case (removed r')
  have "p_Room (peerHeap s ! p) = room"
    using live_room [OF store_room_inv [OF inv room] lookup_live [OF removed(1)]] by simp
  then have "p \<notin> live (roomHeap s ! k)" if "k < length (roomHeap s)" "k \<noteq> room" for k
    using live_room [OF store_room_inv [OF inv that(1)], of p] that by auto
  moreover have "s' = s\<lparr>roomHeap := (roomHeap s)[room := r']\<rparr>" using run removed(3) by simp
  ultimately show ?thesis using removed(7) by (auto simp: detached_def nth_update_any split: if_splits)
qed (use run in simp)

section \<open>Deleting an empty room\<close>

lemma deleteEmptyRoom_cases:
  assumes "store_inv s" and "room < length (roomHeap s)"
  obtains (kept) "\<not> registered s room \<or> r_peers (roomHeap s ! room) \<noteq> []" and "deleteEmptyRoom room s = s"
  | (deleted) "registered s room" and "r_peers (roomHeap s ! room) = []"
      and "deleteEmptyRoom room s =
        s\<lparr>roomHeap := (roomHeap s)[room := (roomHeap s ! room)\<lparr>r_closed := True\<rparr>],
          mgr := releaseRoomIndex (r_index (roomHeap s ! room))
            ((mgr s)\<lparr>m_rooms := AList.delete (r_name (roomHeap s ! room)) (m_rooms (mgr s))\<rparr>)\<rparr>"
  by (cases "registered s room \<and> r_peers (roomHeap s ! room) = []")
    (auto simp: deleteEmptyRoom_def registered_def Let_def)

lemma live_rooms_delete:
  assumes inv: "store_inv s" and reg: "registered s room"
  shows "snd ` set (AList.delete (r_name (roomHeap s ! room)) (m_rooms (mgr s))) = live_rooms s - {room}"
proof -
  have "n = r_name (roomHeap s ! room) \<longleftrightarrow> k = room" if nk: "(n, k) \<in> set (m_rooms (mgr s))" for n k
  proof -
    have "r_name (roomHeap s ! k) = n" using store_invD(8) [OF inv nk] by simp
    moreover have "map_of (m_rooms (mgr s)) n = Some k"
      using store_invD(3) [OF inv] nk by (rule map_of_is_SomeI)
    ultimately show ?thesis using reg unfolding registered_def by (metis option.inject)
  qed
  then have "AList.delete (r_name (roomHeap s ! room)) (m_rooms (mgr s)) = filter (\<lambda>(n, k). k \<noteq> room) (m_rooms (mgr s))"
    unfolding AList.delete_eq by (intro filter_cong) auto
  moreover have "snd ` set (filter (\<lambda>(n, k). k \<noteq> room) xs) = snd ` set xs - {room}" for xs :: "(string \<times> roomref) list"
    by force
  ultimately show ?thesis by (simp add: live_rooms_def)
qed

lemma deleteEmptyRoom_inv:
  assumes inv: "store_inv s" and room: "room < length (roomHeap s)"
  shows "store_inv (deleteEmptyRoom room s)"
  using inv room
proof (cases rule: deleteEmptyRoom_cases)
  case deleted
  let ?r = "roomHeap s ! room"
  let ?m = "(mgr s)\<lparr>m_rooms := AList.delete (r_name ?r) (m_rooms (mgr s))\<rparr>"
  let ?s' = "s\<lparr>roomHeap := (roomHeap s)[room := ?r\<lparr>r_closed := True\<rparr>],
      mgr := releaseRoomIndex (r_index ?r) ?m\<rparr>"
  note D = store_invD [OF inv]
  have mine: "room \<in> live_rooms s" using deleted(1) by (rule registered_live)
  have im: "index_inv ?m" "room_owned ?m = room_owned (mgr s)"
    using D(2) by (simp_all add: index_inv_def room_owned_def)
  have owned: "r_index ?r \<in> room_owned ?m" using mine D(7) im(2) by auto
  note rel = room_index.release_owned [OF im(1) owned]
  have frame: "m_pool (mgr ?s') = m_pool (mgr s)" "m_rooms (mgr ?s') = m_rooms ?m"
    by (simp_all add: releaseRoomIndex_def)
  have lr: "live_rooms ?s' = live_rooms s - {room}"
    using live_rooms_delete [OF inv deleted(1)] by (simp add: live_rooms_def releaseRoomIndex_def)
  have heap: "roomHeap ?s' ! k = (if k = room then ?r\<lparr>r_closed := True\<rparr> else roomHeap s ! k)" for k
    using room by (simp add: nth_update_any)
  have idx: "r_index (roomHeap ?s' ! k) = r_index (roomHeap s ! k)" for k
    unfolding heap by simp
  have reg: "registered ?s' k \<longleftrightarrow> k \<noteq> room \<and> registered s k" for k
    using deleted(1) unfolding registered_def frame heap by (auto simp: AList.delete_conv')
  have "room_ok ?s' k" if k: "k < length (roomHeap s)" for k
    using D(5) [OF k] deleted(2) unfolding room_ok_def Let_def reg heap frame
    by (auto simp: room_inv_closed)
  moreover have "(\<lambda>k. r_index (roomHeap ?s' ! k)) ` live_rooms ?s' = room_owned (mgr ?s')"
    unfolding lr idx using inj_on_image_set_diff [OF D(6), of "live_rooms s" "{room}"] mine D(7) rel im(2)
    by auto
  moreover have "inj_on (\<lambda>k. r_index (roomHeap ?s' ! k)) (live_rooms ?s')"
    unfolding lr idx using D(6) by (rule inj_on_diff)
  moreover have "distinct (map fst (m_rooms (mgr ?s')))"
    unfolding frame using D(3) by (simp add: AList.distinct_delete)
  moreover have "\<forall>(n, k) \<in> set (m_rooms (mgr ?s')). k < length (roomHeap ?s') \<and> r_name (roomHeap ?s' ! k) = n"
    unfolding frame heap using D(8) by (auto simp: AList.delete_eq)
  ultimately have "store_inv ?s'" using D(1) rel by (simp add: store_inv_def frame(1) releaseRoomIndex_def)
  then show ?thesis using deleted(3) by simp
qed (use inv in simp)

lemma removePeerLocked_heaps:
  "removePeerLocked p room s = (s', res) \<Longrightarrow>
     length (roomHeap s') = length (roomHeap s) \<and> peerHeap s' = peerHeap s \<and> mgr s' = mgr s"
  by (auto simp: removePeerLocked_def Let_def split: if_splits)

lemma RemovePeer_inv:
  assumes inv: "store_inv s" and room: "room < length (roomHeap s)"
  shows "store_inv (RemovePeer p room s)"
proof -
  obtain s1 res where run: "removePeerLocked p room s = (s1, res)" by fastforce
  have inv1: "store_inv s1" using removePeerLocked_inv [OF inv room run] .
  show ?thesis
  proof (cases res)
    case None
    then show ?thesis using run inv1 by (simp add: RemovePeer_def)
  next
    case (Some b)
    let ?s2 = "s1\<lparr>peerHeap := (peerHeap s1)[p := closeFrames (peerHeap s1 ! p)]\<rparr>"
    have "store_inv ?s2"
      using inv1 removed_detached [OF inv room run [unfolded Some]] by (rule detached_update)
    moreover from this have "store_inv (deleteEmptyRoom room ?s2)"
      using room removePeerLocked_heaps [OF run] by (intro deleteEmptyRoom_inv) simp_all
    ultimately show ?thesis using run Some by (simp add: RemovePeer_def Let_def)
  qed
qed

section \<open>Forwarding\<close>

text \<open>
  Relearning the sender's MAC changes nothing, because the table already maps it to the
  sender: forwarding leaves the store as it is.
\<close>

lemma Forward_registered:
  assumes inv: "store_inv s" and room: "room < length (roomHeap s)"
    and member: "map_of (r_peers (roomHeap s ! room)) (p_ID (peerHeap s ! from)) = Some from"
    and len: "14 \<le> length frame" and src: "take 6 (drop 6 frame) = p_MAC (peerHeap s ! from)"
  shows "Forward room from frame s =
    Some (s, Inr (let dst = take 6 frame; r = roomHeap s ! room
             in if isBroadcast dst \<or> isMulticast dst then otherPeersLocked r from
                else case map_of (r_macToPeer r) dst of
                  Some target \<Rightarrow> if target \<noteq> from then [target] else otherPeersLocked r from
                | None \<Rightarrow> otherPeersLocked r from))"
proof -
  let ?r = "roomHeap s ! room" and ?p = "peerHeap s ! from"
  note rinv = store_room_inv [OF inv room]
  have "from \<in> live ?r" using member by (rule lookup_live)
  then have "map_of (r_macToPeer ?r) (p_MAC ?p) = Some from" using mac_lookup [OF rinv] by blast
  then have upd: "AList.update (p_MAC ?p) from (r_macToPeer ?r) = r_macToPeer ?r" by (rule update_same)
  have tgt: "map_of (r_peers ?r) (p_ID (peerHeap s ! t)) = Some t" if "map_of (r_macToPeer ?r) m = Some t" for m t
    using that mac_lookup [OF rinv] rinv by (auto simp: room_inv_def peer_ok_def)
  have "s\<lparr>roomHeap := (roomHeap s)[room := ?r\<lparr>r_macToPeer := r_macToPeer ?r\<rparr>]\<rparr> = s" by simp
  then show ?thesis
    using member len src tgt by (auto simp: forward_defs upd split: option.splits)
qed

end
