(* ===== verification/Relay_Conc.thy ===== *)
theory Relay_Conc
  imports Relay_Ops
begin

text \<open>
  The relay under concurrent connections. Every lock of the code protects one critical
  section, which is one definition of \<open>Relay\<close>; between two sections of a call any other
  goroutine may run. A call in progress is a \<^emph>\<open>job\<close>: the part of it that is still to be
  executed. The step relation \<open>relay_step\<close> starts calls and executes the next section of
  any job, so its reachable states are those of every interleaving.

  The premise \<open>fresh_draw\<close> of the joining steps confines the runs to those in which
  \<^verbatim>\<open>crypto/rand\<close> draws no id and no MAC that is in use in the room.
\<close>

section \<open>Jobs\<close>

datatype job =
    JGet string "JoinOptions list"             \<comment> \<open>\<^verbatim>\<open>Manager.Join\<close>, before \<^verbatim>\<open>getOrCreateRoom\<close>\<close>
  | JAdd string "JoinOptions list" roomref     \<comment> \<open>\<^verbatim>\<open>Manager.Join\<close>, before \<^verbatim>\<open>AddPeer\<close>\<close>
  | JClose peerref roomref bool                \<comment> \<open>\<^verbatim>\<open>RemovePeer\<close>, before \<^verbatim>\<open>closeFrames\<close>\<close>
  | JDelete roomref                            \<comment> \<open>\<^verbatim>\<open>RemovePeer\<close>, before \<^verbatim>\<open>deleteEmptyRoom\<close>\<close>
  | JSend "peerref list" bytes                 \<comment> \<open>the loop over the targets of \<^verbatim>\<open>Forward\<close>\<close>

record Sys =
  sys_store :: Store
  sys_jobs :: "job list"
  sys_panic :: bool

definition init_sys :: "Prefix \<Rightarrow> Sys" where
  "init_sys pool = \<lparr>sys_store = NewManager pool, sys_jobs = [], sys_panic = False\<rparr>"

definition set_peer :: "peerref \<Rightarrow> Peer \<Rightarrow> Store \<Rightarrow> Store" where
  "set_peer p q s = s\<lparr>peerHeap := (peerHeap s)[p := q]\<rparr>"

text \<open>The bookkeeping on a peer: the rate window, the counters and what is taken from or put into its queues.\<close>

inductive account :: "Peer \<Rightarrow> Peer \<Rightarrow> bool" where
  allow: "account p (fst (AllowFrame n now p))"
| rx: "account p (RecordRxFrame n p)"
| dropped: "account p (RecordDropFrame n p)"
| notify: "account p (fst (push_notify msg p))"
| drain: "chan_buf (p_Frames p) = f # fs \<Longrightarrow> account p (p\<lparr>p_Frames := (p_Frames p)\<lparr>chan_buf := fs\<rparr>\<rparr>)"
| drain_notify: "chan_buf (p_Notify p) = m # ms \<Longrightarrow> account p (p\<lparr>p_Notify := (p_Notify p)\<lparr>chan_buf := ms\<rparr>\<rparr>)"

inductive relay_step :: "Sys \<Rightarrow> Sys \<Rightarrow> bool" where
  join: "relay_step \<lparr>sys_store = s, sys_jobs = js, sys_panic = b\<rparr>
           \<lparr>sys_store = s, sys_jobs = JGet name opts # js, sys_panic = b\<rparr>"
| get: "getOrCreateRoom name now s = (s', Inr room) \<Longrightarrow>
     relay_step \<lparr>sys_store = s, sys_jobs = js @ JGet name opts # js', sys_panic = b\<rparr>
       \<lparr>sys_store = s', sys_jobs = js @ JAdd name opts room # js', sys_panic = b\<rparr>"
| get_error: "getOrCreateRoom name now s = (s', Inl e) \<Longrightarrow>
     relay_step \<lparr>sys_store = s, sys_jobs = js @ JGet name opts # js', sys_panic = b\<rparr>
       \<lparr>sys_store = s', sys_jobs = js @ js', sys_panic = b\<rparr>"
| add: "AddPeer room opts d s = (s', res) \<Longrightarrow> fresh_draw (roomHeap s ! room) (the_opt opts) d \<Longrightarrow>
     res \<noteq> Inl ErrRoomClosed \<Longrightarrow>
     relay_step \<lparr>sys_store = s, sys_jobs = js @ JAdd name opts room # js', sys_panic = b\<rparr>
       \<lparr>sys_store = s', sys_jobs = js @ js', sys_panic = b\<rparr>"
| add_retry: "AddPeer room opts d s = (s', Inl ErrRoomClosed) \<Longrightarrow> fresh_draw (roomHeap s ! room) (the_opt opts) d \<Longrightarrow>
     relay_step \<lparr>sys_store = s, sys_jobs = js @ JAdd name opts room # js', sys_panic = b\<rparr>
       \<lparr>sys_store = s', sys_jobs = js @ JGet name opts # js', sys_panic = b\<rparr>"
| remove: "p < length (peerHeap s) \<Longrightarrow> room = p_Room (peerHeap s ! p) \<Longrightarrow>
     removePeerLocked p room s = (s', Some emptied) \<Longrightarrow>
     relay_step \<lparr>sys_store = s, sys_jobs = js, sys_panic = b\<rparr>
       \<lparr>sys_store = s', sys_jobs = JClose p room emptied # js, sys_panic = b\<rparr>"
| close: "relay_step \<lparr>sys_store = s, sys_jobs = js @ JClose p room emptied # js', sys_panic = b\<rparr>
     \<lparr>sys_store = set_peer p (closeFrames (peerHeap s ! p)) s,
      sys_jobs = js @ (if emptied \<and> r_manager (roomHeap s ! room) then [JDelete room] else []) @ js',
      sys_panic = b\<rparr>"
| delete: "relay_step \<lparr>sys_store = s, sys_jobs = js @ JDelete room # js', sys_panic = b\<rparr>
     \<lparr>sys_store = deleteEmptyRoom room s, sys_jobs = js @ js', sys_panic = b\<rparr>"
| forward: "p < length (peerHeap s) \<Longrightarrow> room = p_Room (peerHeap s ! p) \<Longrightarrow>
     Forward room p frame s = Some (s', Inr targets) \<Longrightarrow>
     relay_step \<lparr>sys_store = s, sys_jobs = js, sys_panic = b\<rparr>
       \<lparr>sys_store = s', sys_jobs = JSend targets frame # js, sys_panic = b\<rparr>"
| forward_panic: "p < length (peerHeap s) \<Longrightarrow> room = p_Room (peerHeap s ! p) \<Longrightarrow>
     Forward room p frame s = None \<Longrightarrow>
     relay_step \<lparr>sys_store = s, sys_jobs = js, sys_panic = b\<rparr>
       \<lparr>sys_store = s, sys_jobs = js, sys_panic = True\<rparr>"
| send: "Enqueue frame (peerHeap s ! t) = Some (q, ok) \<Longrightarrow>
     relay_step \<lparr>sys_store = s, sys_jobs = js @ JSend (t # ts) frame # js', sys_panic = b\<rparr>
       \<lparr>sys_store = set_peer t q s, sys_jobs = js @ JSend ts frame # js', sys_panic = b\<rparr>"
| send_panic: "Enqueue frame (peerHeap s ! t) = None \<Longrightarrow>
     relay_step \<lparr>sys_store = s, sys_jobs = js @ JSend (t # ts) frame # js', sys_panic = b\<rparr>
       \<lparr>sys_store = s, sys_jobs = js @ js', sys_panic = True\<rparr>"
| sent: "relay_step \<lparr>sys_store = s, sys_jobs = js @ JSend [] frame # js', sys_panic = b\<rparr>
     \<lparr>sys_store = s, sys_jobs = js @ js', sys_panic = b\<rparr>"
| bookkeep: "p < length (peerHeap s) \<Longrightarrow> account (peerHeap s ! p) q \<Longrightarrow>
     relay_step \<lparr>sys_store = s, sys_jobs = js, sys_panic = b\<rparr>
       \<lparr>sys_store = set_peer p q s, sys_jobs = js, sys_panic = b\<rparr>"

inductive reachable :: "Prefix \<Rightarrow> Sys \<Rightarrow> bool" for pool where
  start: "reachable pool (init_sys pool)"
| step: "reachable pool a \<Longrightarrow> relay_step a b \<Longrightarrow> reachable pool b"

section \<open>The invariant of every interleaving\<close>

text \<open>
  The store keeps its invariant, a job only holds allocated rooms and peers, and a peer whose
  queue is about to be closed is in no table any more.
\<close>

fun job_ok :: "Store \<Rightarrow> job \<Rightarrow> bool" where
  "job_ok s (JGet name opts) = True"
| "job_ok s (JAdd name opts room) = (room < length (roomHeap s))"
| "job_ok s (JClose p room emptied) = (room < length (roomHeap s) \<and> p < length (peerHeap s) \<and> detached s p)"
| "job_ok s (JDelete room) = (room < length (roomHeap s))"
| "job_ok s (JSend ts frame) = (\<forall>t \<in> set ts. t < length (peerHeap s))"

definition peers_placed :: "Store \<Rightarrow> bool" where
  "peers_placed s \<longleftrightarrow> (\<forall>p < length (peerHeap s). p_Room (peerHeap s ! p) < length (roomHeap s))"

definition sys_inv :: "Sys \<Rightarrow> bool" where
  "sys_inv c \<longleftrightarrow> store_inv (sys_store c) \<and> peers_placed (sys_store c)
     \<and> (\<forall>j \<in> set (sys_jobs c). job_ok (sys_store c) j)"

text \<open>What no section of any call undoes: rooms and peers stay allocated, and a peer that left every table does not come back.\<close>

definition grows :: "Store \<Rightarrow> Store \<Rightarrow> bool" where
  "grows s s' \<longleftrightarrow> length (roomHeap s) \<le> length (roomHeap s') \<and> length (peerHeap s) \<le> length (peerHeap s')
     \<and> (\<forall>p < length (peerHeap s). detached s p \<longrightarrow> detached s' p)"

lemma job_ok_grows: "grows s s' \<Longrightarrow> job_ok s j \<Longrightarrow> job_ok s' j"
  by (cases j) (auto simp: grows_def)

lemma grows_refl [simp]: "grows s s"
  by (simp add: grows_def)

text \<open>The parts of a transition: the new store, and the jobs it replaces.\<close>

lemma sys_inv_replace:
  assumes inv: "sys_inv \<lparr>sys_store = s, sys_jobs = js @ j # js', sys_panic = b\<rparr>"
    and "store_inv s'" and "peers_placed s'" and "grows s s'" and "\<forall>k \<in> set new. job_ok s' k"
  shows "sys_inv \<lparr>sys_store = s', sys_jobs = js @ new @ js', sys_panic = b'\<rparr>"
  using assms by (auto simp: sys_inv_def intro: job_ok_grows)

lemma sys_inv_start:
  assumes inv: "sys_inv \<lparr>sys_store = s, sys_jobs = js, sys_panic = b\<rparr>"
    and "store_inv s'" and "peers_placed s'" and "grows s s'" and "\<forall>k \<in> set new. job_ok s' k"
  shows "sys_inv \<lparr>sys_store = s', sys_jobs = new @ js, sys_panic = b\<rparr>"
  using assms by (auto simp: sys_inv_def intro: job_ok_grows)

lemma sys_invD:
  assumes "sys_inv \<lparr>sys_store = s, sys_jobs = js, sys_panic = b\<rparr>"
  shows "store_inv s" and "peers_placed s" and "\<And>j. j \<in> set js \<Longrightarrow> job_ok s j"
    and "\<And>p. p < length (peerHeap s) \<Longrightarrow> p_Room (peerHeap s ! p) < length (roomHeap s)"
  using assms by (auto simp: sys_inv_def peers_placed_def)

section \<open>One section at a time\<close>

lemma getOrCreateRoom_grows:
  assumes inv: "store_inv s" and placed: "peers_placed s" and run: "getOrCreateRoom name now s = (s', res)"
  shows "grows s s'" and "peers_placed s'" and "\<And>room. res = Inr room \<Longrightarrow> room < length (roomHeap s')"
proof -
  have "grows s s' \<and> peers_placed s' \<and> (\<forall>room. res = Inr room \<longrightarrow> room < length (roomHeap s'))"
    using store_invD(1) [OF inv]
  proof (cases rule: getOrCreateRoom_cases [of s name now])
    case (known room)
    then have "room < length (roomHeap s)" using store_invD(8) [OF inv] by (blast dest: map_of_SomeD)
    then show ?thesis using known run placed by simp
  next
    case (created m1 idx)
    then have s': "s' = s\<lparr>mgr := m1\<lparr>m_rooms := m_rooms (mgr s) @ [(name, length (roomHeap s))]\<rparr>,
        roomHeap := roomHeap s @ [freshRoom name now (m_pool (mgr s)) idx]\<rparr>" "res = Inr (length (roomHeap s))"
      using run by simp_all
    have "live (freshRoom name now (m_pool (mgr s)) idx) = {}" by (simp add: live_def freshRoom_def)
    then show ?thesis
      using placed by (auto simp: s' grows_def detached_def nth_append peers_placed_def less_SucI)
  qed (use run placed in simp)
  then show "grows s s'" "peers_placed s'" "\<And>room. res = Inr room \<Longrightarrow> room < length (roomHeap s')" by simp_all
qed

lemma AddPeer_grows:
  assumes inv: "store_inv s" and placed: "peers_placed s" and room: "room < length (roomHeap s)"
    and fresh: "fresh_draw (roomHeap s ! room) (the_opt opts) d" and run: "AddPeer room opts d s = (s', res)"
  shows "grows s s'" and "peers_placed s'"
proof -
  have "grows s s' \<and> peers_placed s'"
    using inv room fresh
  proof (cases rule: AddPeer_cases)
    case (added i mac r1 h q)
    obtain n f where r1: "r1 = (roomHeap s ! room)\<lparr>r_nextHost := n, r_freeHosts := f\<rparr>"
      using allocateHost_frame [OF added(4)] by blast
    have live: "live (joined r1 i mac (length (peerHeap s))) = insert (length (peerHeap s)) (live (roomHeap s ! room))"
      by (simp add: live_def joined_def r1)
    have "p_Room q = room" by (simp add: added(6) newPeer_def)
    then show ?thesis
      using run added(7) placed room
      by (auto simp: grows_def detached_def nth_update_any live peers_placed_def nth_append less_Suc_eq split: if_splits)
  qed (use run placed in auto)
  then show "grows s s'" "peers_placed s'" by simp_all
qed

lemma removePeerLocked_grows:
  assumes inv: "store_inv s" and placed: "peers_placed s" and room: "room < length (roomHeap s)"
    and run: "removePeerLocked p room s = (s', res)"
  shows "grows s s'" and "peers_placed s'"
proof -
  note h = removePeerLocked_heaps [OF run]
  show "peers_placed s'" using placed h by (simp add: peers_placed_def)
  show "grows s s'"
    using inv room
  proof (cases rule: removePeerLocked_cases [of s room p])
    case (removed r')
    then have "s' = s\<lparr>roomHeap := (roomHeap s)[room := r']\<rparr>" using run by simp
    then show ?thesis using removed(7) by (auto simp: grows_def detached_def nth_update_any)
  qed (use run in simp)
qed

lemma deleteEmptyRoom_grows:
  assumes inv: "store_inv s" and placed: "peers_placed s" and room: "room < length (roomHeap s)"
  shows "grows s (deleteEmptyRoom room s)" and "peers_placed (deleteEmptyRoom room s)"
proof -
  have "grows s (deleteEmptyRoom room s) \<and> peers_placed (deleteEmptyRoom room s)"
    using inv room
  proof (cases rule: deleteEmptyRoom_cases)
    case deleted
    then show ?thesis
      using placed by (auto simp: grows_def detached_def nth_update_any live_closed peers_placed_def)
  qed (use placed in simp)
  then show "grows s (deleteEmptyRoom room s)" "peers_placed (deleteEmptyRoom room s)" by simp_all
qed

lemma set_peer_grows: "grows s (set_peer p q s)"
  by (simp add: grows_def detached_def set_peer_def)

lemma set_peer_placed: "peers_placed s \<Longrightarrow> p_Room (peerHeap s ! p) = p_Room q \<Longrightarrow> peers_placed (set_peer p q s)"
  by (auto simp: peers_placed_def set_peer_def nth_update_any)

lemma account_same: "account p q \<Longrightarrow> same_peer p q"
  by (induction rule: account.induct)
    (auto simp: same_peer_def AllowFrame_def Let_def RecordRxFrame_def RecordDropFrame_def push_notify_def
      try_send_def split: send_result.splits if_splits)

lemma Enqueue_same: "Enqueue frame p = Some (q, ok) \<Longrightarrow> same_peer p q"
  by (auto simp: Enqueue_def same_peer_def RecordTxFrame_def RecordDropFrame_def try_send_def
      split: send_result.splits if_splits)

lemma same_peer_set:
  "store_inv s \<Longrightarrow> peers_placed s \<Longrightarrow> same_peer (peerHeap s ! p) q \<Longrightarrow>
     store_inv (set_peer p q s) \<and> peers_placed (set_peer p q s)"
  using same_peer_update [of s p q] set_peer_placed [of s p q] by (simp add: set_peer_def same_peer_def)

lemma closeFrames_set:
  "store_inv s \<Longrightarrow> peers_placed s \<Longrightarrow> detached s p \<Longrightarrow>
     store_inv (set_peer p (closeFrames (peerHeap s ! p)) s) \<and> peers_placed (set_peer p (closeFrames (peerHeap s ! p)) s)"
  using detached_update [of s p] set_peer_placed [of s p "closeFrames (peerHeap s ! p)"]
  by (simp add: set_peer_def closeFrames_def)

lemma otherPeers_live: "set (otherPeersLocked r from) = live r - {from}"
  by (auto simp: otherPeersLocked_def live_def)

lemma Forward_targets:
  assumes inv: "store_inv s" and room: "room < length (roomHeap s)" and run: "Forward room from frame s = Some (s', Inr ts)"
  shows "s' = s" and "set ts \<subseteq> live (roomHeap s ! room) - {from}"
proof -
  have "s' = s \<and> set ts \<subseteq> live (roomHeap s ! room) - {from}"
  proof (cases "map_of (r_peers (roomHeap s ! room)) (p_ID (peerHeap s ! from)) = Some from")
    case False
    then show ?thesis using run by (auto simp: forward_defs split: if_splits)
  next
    case True
    have guards: "14 \<le> length frame" "take 6 (drop 6 frame) = p_MAC (peerHeap s ! from)"
      using run by (auto simp: forward_defs split: if_splits)
    show ?thesis
      using run Forward_registered [OF inv room True guards] mac_lookup [OF store_room_inv [OF inv room]]
      by (auto simp: Let_def otherPeers_live split: if_splits option.splits)
  qed
  then show "s' = s" "set ts \<subseteq> live (roomHeap s ! room) - {from}" by simp_all
qed

theorem relay_step_inv: "relay_step a b \<Longrightarrow> sys_inv a \<Longrightarrow> sys_inv b"
proof (induction rule: relay_step.induct)
  case (join s js b name opts)
  then show ?case by (simp add: sys_inv_def)
next
  case (get name now s s' room js opts js' b)
  note D = sys_invD [OF get(2)]
  show ?case
    using sys_inv_replace [OF get(2) getOrCreateRoom_inv [OF D(1) get(1)], of "[JAdd name opts room]" b]
      getOrCreateRoom_grows [OF D(1,2) get(1)] by simp
next
  case (get_error name now s s' e js opts js' b)
  note D = sys_invD [OF get_error(2)]
  show ?case
    using sys_inv_replace [OF get_error(2) getOrCreateRoom_inv [OF D(1) get_error(1)], of "[]" b]
      getOrCreateRoom_grows [OF D(1,2) get_error(1)] by simp
next
  case (add room opts d s s' res js name js' b)
  note D = sys_invD [OF add(4)]
  have room: "room < length (roomHeap s)" using D(3) [of "JAdd name opts room"] by simp
  show ?case
    using sys_inv_replace [OF add(4) AddPeer_inv [OF D(1) room add(2,1)], of "[]" b]
      AddPeer_grows [OF D(1,2) room add(2,1)] by simp
next
  case (add_retry room opts d s s' js name js' b)
  note D = sys_invD [OF add_retry(3)]
  have room: "room < length (roomHeap s)" using D(3) [of "JAdd name opts room"] by simp
  show ?case
    using sys_inv_replace [OF add_retry(3) AddPeer_inv [OF D(1) room add_retry(2,1)], of "[JGet name opts]" b]
      AddPeer_grows [OF D(1,2) room add_retry(2,1)] by simp
next
  case (remove p s room s' emptied js b)
  note D = sys_invD [OF remove(4)]
  have room: "room < length (roomHeap s)" using D(4) remove(1,2) by simp
  have "job_ok s' (JClose p room emptied)"
    using removePeerLocked_heaps [OF remove(3)] removed_detached [OF D(1) room remove(3)] room remove(1) by simp
  then show ?case
    using sys_inv_start [OF remove(4) removePeerLocked_inv [OF D(1) room remove(3)], of "[JClose p room emptied]"]
      removePeerLocked_grows [OF D(1,2) room remove(3)] by simp
next
  case (close s js p room emptied js' b)
  note D = sys_invD [OF close]
  have j: "room < length (roomHeap s)" "detached s p" using D(3) [of "JClose p room emptied"] by simp_all
  let ?s = "set_peer p (closeFrames (peerHeap s ! p)) s"
  have "room < length (roomHeap ?s)" using j by (simp add: set_peer_def)
  then show ?case
    using sys_inv_replace [OF close, of ?s _ b] closeFrames_set [OF D(1,2) j(2)] set_peer_grows by auto
next
  case (delete s js room js' b)
  note D = sys_invD [OF delete]
  have room: "room < length (roomHeap s)" using D(3) [of "JDelete room"] by simp
  show ?case
    using sys_inv_replace [OF delete deleteEmptyRoom_inv [OF D(1) room], of "[]" b]
      deleteEmptyRoom_grows [OF D(1,2) room] by simp
next
  case (forward p s room frame s' targets js b)
  note D = sys_invD [OF forward(4)]
  have room: "room < length (roomHeap s)" using D(4) forward(1,2) by simp
  have "s' = s" "\<forall>t \<in> set targets. t < length (peerHeap s)"
    using Forward_targets [OF D(1) room forward(3)] live_room [OF store_room_inv [OF D(1) room]] by auto
  then show ?case using forward(4) by (simp add: sys_inv_def)
next
  case (send frame s t q ok js ts js' b)
  note D = sys_invD [OF send(2)]
  have "job_ok (set_peer t q s) (JSend ts frame)"
    using D(3) [of "JSend (t # ts) frame"] by (simp add: set_peer_def)
  then show ?case
    using sys_inv_replace [OF send(2), of "set_peer t q s" "[JSend ts frame]" b]
      same_peer_set [OF D(1,2) Enqueue_same [OF send(1)]] set_peer_grows by simp
next
  case (bookkeep p s q js b)
  note D = sys_invD [OF bookkeep(3)]
  show ?case
    using sys_inv_start [OF bookkeep(3), of "set_peer p q s" "[]"]
      same_peer_set [OF D(1,2) account_same [OF bookkeep(2)]] set_peer_grows by simp
qed (auto simp: sys_inv_def)

lemma reachable_inv: "reachable pool c \<Longrightarrow> pool_ok pool \<Longrightarrow> sys_inv c"
proof (induction rule: reachable.induct)
  case start
  then show ?case
    by (simp add: sys_inv_def init_sys_def NewManager_inv) (simp add: peers_placed_def NewManager_def)
qed (auto intro: relay_step_inv)

text \<open>No step changes the pool.\<close>

lemma set_peer_mgr [simp]: "mgr (set_peer p q s) = mgr s"
  by (simp add: set_peer_def)

lemma relay_step_pool: "relay_step a b \<Longrightarrow> m_pool (mgr (sys_store b)) = m_pool (mgr (sys_store a))"
proof (induction rule: relay_step.induct)
  case (remove p s room s' emptied js b)
  then show ?case using removePeerLocked_heaps by simp
qed (auto simp: getOrCreateRoom_def AddPeer_def forward_defs deleteEmptyRoom_def releaseRoomIndex_def
    split: option.splits sum.splits prod.splits if_splits dest: allocateRoomIndex_frame)

lemma reachable_pool: "reachable pool c \<Longrightarrow> m_pool (mgr (sys_store c)) = pool"
  by (induction rule: reachable.induct) (auto simp: init_sys_def NewManager_def relay_step_pool)

end
