(* ===== verification/Relay_Demo.thy ===== *)
theory Relay_Demo
  imports Relay_Conc
begin

text \<open>
  A small server on which the properties of the relay are evaluated: two peers in the room
  \<^verbatim>\<open>lobby\<close> of the pool 10.66.0.0/16, reached by two complete joins.
\<close>

definition demo_pool :: Prefix where
  "demo_pool = PrefixFrom (Addr4 0x0A420000) 16"

definition demo_draw :: "byte \<Rightarrow> Draw" where
  "demo_draw k = \<lparr>d_now = 5 + uint k, d_id = Some [1, 2, 3, 4, 5, 6, 7, k], d_mac = Some [0, 1, 2, 3, 4, k]\<rparr>"

definition demo0 :: Store where
  "demo0 = fst (getOrCreateRoom ''lobby'' 1 (NewManager demo_pool))"

definition demo1 :: Store where
  "demo1 = fst (AddPeer 0 [] (demo_draw 1) demo0)"

definition demo2 :: Store where
  "demo2 = fst (AddPeer 0 [] (demo_draw 2) demo1)"

definition demo_sys :: "Store \<Rightarrow> job list \<Rightarrow> Sys" where
  "demo_sys s js = \<lparr>sys_store = s, sys_jobs = js, sys_panic = False\<rparr>"

definition demo_frame :: bytes where
  "demo_frame = [2, 1, 2, 3, 4, 2] @ [2, 1, 2, 3, 4, 1] @ [8, 0, 69]"

lemma demo_pool_ok: "pool_ok demo_pool"
  by code_simp

lemma demo_step0: "getOrCreateRoom ''lobby'' 1 (NewManager demo_pool) = (demo0, Inr 0)"
proof -
  have "snd (getOrCreateRoom ''lobby'' 1 (NewManager demo_pool)) = Inr 0" by code_simp
  then show ?thesis by (simp add: demo0_def prod_eq_iff)
qed

lemma demo_step1: "AddPeer 0 [] (demo_draw 1) demo0 = (demo1, Inr 0)"
proof -
  have "snd (AddPeer 0 [] (demo_draw 1) demo0) = Inr 0" by code_simp
  then show ?thesis by (simp add: demo1_def prod_eq_iff)
qed

lemma demo_step2: "AddPeer 0 [] (demo_draw 2) demo1 = (demo2, Inr 1)"
proof -
  have "snd (AddPeer 0 [] (demo_draw 2) demo1) = Inr 1" by code_simp
  then show ?thesis by (simp add: demo2_def prod_eq_iff)
qed

text \<open>The two stores evaluated, as code equations, so that later evaluations start from them.\<close>

definition demo_room :: "(string \<times> peerref) list \<Rightarrow> (bytes \<times> peerref) list \<Rightarrow> byte \<Rightarrow> Room" where
  "demo_room ps ms n =
     \<lparr>r_manager = True, r_index = 0, r_name = ''lobby'', r_prefix = PrefixFrom (Addr4 0x0A420000) 24,
      r_createdAt = 1, r_peers = ps, r_macToPeer = ms, r_nextHost = n, r_freeHosts = [], r_closed = False\<rparr>"

definition demo_mgr :: Manager where
  "demo_mgr = \<lparr>m_pool = demo_pool, m_rooms = [(''lobby'', 0)], m_nextRoom = 1, m_freeRoom = []\<rparr>"

definition demo_peer1 :: Peer where
  "demo_peer1 = newPeer ''0102030405060701'' zero_opt 0 (Addr4 0x0A420002) [2, 1, 2, 3, 4, 1] 6"

definition demo_peer2 :: Peer where
  "demo_peer2 = newPeer ''0102030405060702'' zero_opt 0 (Addr4 0x0A420003) [2, 1, 2, 3, 4, 2] 7"

lemma demo1_eval [code]:
  "demo1 = \<lparr>mgr = demo_mgr,
     roomHeap = [demo_room [(''0102030405060701'', 0)] [([2, 1, 2, 3, 4, 1], 0)] 3], peerHeap = [demo_peer1]\<rparr>"
  by code_simp

lemma demo2_eval [code]:
  "demo2 = \<lparr>mgr = demo_mgr,
     roomHeap = [demo_room [(''0102030405060701'', 0), (''0102030405060702'', 1)]
                   [([2, 1, 2, 3, 4, 1], 0), ([2, 1, 2, 3, 4, 2], 1)] 4],
     peerHeap = [demo_peer1, demo_peer2]\<rparr>"
  by code_simp

lemma demo_fresh1: "fresh_draw (roomHeap demo0 ! 0) (the_opt []) (demo_draw 1)" by code_simp
lemma demo_fresh2: "fresh_draw (roomHeap demo1 ! 0) (the_opt []) (demo_draw 2)" by code_simp

lemma join_steps:
  assumes "reachable pool (demo_sys s [])" and "getOrCreateRoom name now s = (s0, Inr room)"
    and "AddPeer room opts d s0 = (s', Inr p)" and "fresh_draw (roomHeap s0 ! room) (the_opt opts) d"
  shows "reachable pool (demo_sys s' [])"
proof -
  have "reachable pool (demo_sys s [JGet name opts])"
    using assms(1) relay_step.join by (auto intro: reachable.step simp: demo_sys_def)
  then have "reachable pool (demo_sys s0 [JAdd name opts room])"
    using relay_step.get [OF assms(2), of "[]" opts "[]" False] by (auto intro: reachable.step simp: demo_sys_def)
  then show ?thesis
    using relay_step.add [OF assms(3,4), of "[]" name "[]" False] by (auto intro: reachable.step simp: demo_sys_def)
qed

lemma known_room: "map_of (m_rooms (mgr s)) name = Some room \<Longrightarrow> getOrCreateRoom name now s = (s, Inr room)"
  by (simp add: getOrCreateRoom_def)

lemma demo_reachable1: "reachable demo_pool (demo_sys demo1 [])"
  using join_steps [OF _ demo_step0 demo_step1 demo_fresh1] reachable.start [of demo_pool]
  by (simp add: init_sys_def demo_sys_def)

lemma demo_reachable2: "reachable demo_pool (demo_sys demo2 [])"
proof -
  have "map_of (m_rooms (mgr demo1)) ''lobby'' = Some 0" by code_simp
  then show ?thesis using join_steps [OF demo_reachable1 known_room demo_step2 demo_fresh2] by blast
qed

lemma demo_inv: "store_inv demo2"
  using reachable_inv [OF demo_reachable2 demo_pool_ok] by (simp add: sys_inv_def demo_sys_def)

lemma demo_members: "live (roomHeap demo2 ! 0) = {0, 1}" "length (roomHeap demo2) = 1" "live_rooms demo2 = {0}"
  by code_simp+

end
