(* ===== verification/Relay_Snapshot.thy ===== *)
theory Relay_Snapshot
  imports Relay_Ops "HOL-Library.Multiset"
begin

text \<open>
  The read-only views of the relay that the status page serves, \<^verbatim>\<open>Snapshot\<close> of a peer, a
  room and the manager in \<^verbatim>\<open>src/internal/relay/room.go\<close>. The maps are iterated in an
  unspecified order, so the code sorts by age with the id or the name as a tiebreak; the
  pair is the type \<open>age\<close>, whose order is that of the comparison functions.
\<close>

section \<open>The order of the lists\<close>

datatype age = Age (age_time: time) (age_name: string)

instantiation age :: linorder
begin

definition less_eq_age :: "age \<Rightarrow> age \<Rightarrow> bool" where
  "less_eq_age a b \<longleftrightarrow> age_time a < age_time b \<or> age_time a = age_time b \<and> age_name a \<le> age_name b"

definition less_age :: "age \<Rightarrow> age \<Rightarrow> bool" where
  "less_age a b \<longleftrightarrow> (if age_time a = age_time b then age_name a < age_name b else age_time a < age_time b)"

instance
  by standard (auto simp: less_eq_age_def less_age_def age.expand)

end

section \<open>Snapshots\<close>

record PeerSnapshot =
  ps_ID :: string
  ps_DisplayName :: string
  ps_Features :: "string list"
  ps_IP :: string
  ps_MAC :: string
  ps_ConnectedAt :: time
  ps_RxBytes :: u64
  ps_RxFrames :: u64
  ps_TxBytes :: u64
  ps_TxFrames :: u64
  ps_DropBytes :: u64
  ps_DropFrames :: u64

record RoomSnapshot =
  rs_Name :: string
  rs_Prefix :: string
  rs_CreatedAt :: time
  rs_Peers :: "PeerSnapshot list"

record ManagerSnapshot =
  ms_GeneratedAt :: time
  ms_Pool :: string
  ms_Rooms :: "RoomSnapshot list"

definition Peer_Snapshot :: "Peer \<Rightarrow> PeerSnapshot" where
  "Peer_Snapshot p =
     \<lparr>ps_ID = p_ID p, ps_DisplayName = p_DisplayName p, ps_Features = p_Features p,
      ps_IP = Addr_String (p_IP p), ps_MAC = HardwareAddr_String (p_MAC p),
      ps_ConnectedAt = p_ConnectedAt p,
      ps_RxBytes = p_rxBytes p, ps_RxFrames = p_rxFrames p,
      ps_TxBytes = p_txBytes p, ps_TxFrames = p_txFrames p,
      ps_DropBytes = p_dropBytes p, ps_DropFrames = p_dropFrames p\<rparr>"

definition peer_age :: "Peer \<Rightarrow> age" where
  "peer_age p = Age (p_ConnectedAt p) (p_ID p)"

definition room_age :: "Room \<Rightarrow> age" where
  "room_age r = Age (r_createdAt r) (r_name r)"

definition Room_Snapshot :: "Store \<Rightarrow> Room \<Rightarrow> RoomSnapshot" where
  "Room_Snapshot s r =
     (let peers = sort_key (\<lambda>p. peer_age (peerHeap s ! p)) (map snd (r_peers r))
      in \<lparr>rs_Name = r_name r, rs_Prefix = Prefix_String (r_prefix r), rs_CreatedAt = r_createdAt r,
          rs_Peers = map (\<lambda>p. Peer_Snapshot (peerHeap s ! p)) peers\<rparr>)"

definition Manager_Snapshot :: "time \<Rightarrow> Store \<Rightarrow> ManagerSnapshot" where
  "Manager_Snapshot now s =
     (let rooms = sort_key (\<lambda>k. room_age (roomHeap s ! k)) (map snd (m_rooms (mgr s)))
      in \<lparr>ms_GeneratedAt = now, ms_Pool = Prefix_String (m_pool (mgr s)),
          ms_Rooms = map (\<lambda>k. Room_Snapshot s (roomHeap s ! k)) rooms\<rparr>)"

section \<open>Sorting does not see the order of the map\<close>

lemma sort_key_perm:
  assumes "mset xs = mset ys" and "inj_on f (set xs)"
  shows "sort_key f xs = sort_key f ys"
  using assms by (intro sort_key_inj_key_eq) simp_all

lemma insort_key_agree: "f x = g x \<Longrightarrow> \<forall>y \<in> set ys. f y = g y \<Longrightarrow> insort_key f x ys = insort_key g x ys"
  by (induction ys) auto

lemma sort_key_agree: "\<forall>x \<in> set xs. f x = g x \<Longrightarrow> sort_key f xs = sort_key g xs"
  by (induction xs) (auto intro!: insort_key_agree)

lemma live_lookup: "room_inv ph room r \<Longrightarrow> p \<in> live r \<Longrightarrow> map_of (r_peers r) (p_ID (ph ! p)) = Some p"
  by (simp add: room_inv_def peer_ok_def)

lemma live_id_inj: "room_inv ph room r \<Longrightarrow> inj_on (\<lambda>p. p_ID (ph ! p)) (live r)"
  by (rule inj_onI) (metis live_lookup option.inject)

lemma peer_age_inj: "room_inv ph room r \<Longrightarrow> inj_on (\<lambda>p. peer_age (ph ! p)) (live r)"
  using live_id_inj [of ph room r] by (auto simp: inj_on_def peer_age_def)

lemma room_age_inj: "store_inv s \<Longrightarrow> inj_on (\<lambda>k. room_age (roomHeap s ! k)) (live_rooms s)"
proof (rule inj_onI)
  fix j k assume inv: "store_inv s" and jk: "j \<in> live_rooms s" "k \<in> live_rooms s"
    and "room_age (roomHeap s ! j) = room_age (roomHeap s ! k)"
  then have "r_name (roomHeap s ! j) = r_name (roomHeap s ! k)" by (simp add: room_age_def)
  then show "j = k" using store_invD(4) [OF inv] jk unfolding registered_def by (metis option.inject)
qed

end
