(* ===== verification/Relay_Props.thy ===== *)
theory Relay_Props
  imports Relay_Demo Relay_Snapshot
begin

text \<open>
  What the relay promises: the properties of joining, leaving, addressing, forwarding,
  queueing and rate limiting, over every reachable state of \<open>Relay_Conc\<close> where the promise
  is about the running server and over every store with the invariant where it is about one
  call. The witnesses evaluate them on the small server of \<open>Relay_Demo\<close>.
\<close>

section \<open>Addresses\<close>

definition prefix_contains :: "Prefix \<Rightarrow> Addr \<Rightarrow> bool" where
  "prefix_contains pfx a \<longleftrightarrow> Is4 a \<and> Is4 (pfx_addr pfx)
     \<and> drop_bit (32 - nat (pfx_bits pfx)) (Uint32 (As4 a)) = drop_bit (32 - nat (pfx_bits pfx)) (Uint32 (As4 (pfx_addr pfx)))"

lemma member_address:
  assumes "store_inv s" and "room < length (roomHeap s)" and "p \<in> live (roomHeap s ! room)"
  shows "p_IP (peerHeap s ! p) = Addr4 (room_address (m_pool (mgr s)) (r_index (roomHeap s ! room)) + ucast (peer_host (peerHeap s ! p)))"
    and "peer_host (peerHeap s ! p) \<in> {firstUsableHost .. lastUsableHost}"
proof -
  note rinv = store_room_inv [OF assms(1,2)]
  show "p_IP (peerHeap s ! p) = Addr4 (room_address (m_pool (mgr s)) (r_index (roomHeap s ! room)) + ucast (peer_host (peerHeap s ! p)))"
    using rinv assms(3) room_prefix(3) [OF assms(1,2)] by (auto simp: room_inv_def peer_ok_def)
  have "peer_host (peerHeap s ! p) \<in> host_owned (roomHeap s ! room)"
    using rinv assms(3) by (auto simp: room_inv_def host_ok_def)
  then show "peer_host (peerHeap s ! p) \<in> {firstUsableHost .. lastUsableHost}"
    using host.owned_ids [of "roomHeap s ! room"] rinv by (auto simp: room_inv_def host_ok_def host_ids_def)
qed

lemma member_index:
  assumes "store_inv s" and "room < length (roomHeap s)" and "p \<in> live (roomHeap s ! room)"
  shows "room \<in> live_rooms s" and "r_index (roomHeap s ! room) < maxRooms (mgr s)"
proof -
  show live: "room \<in> live_rooms s"
    using member_open [OF assms] store_invD(5) [OF assms(1,2)] live_rooms_iff [OF assms(1)] assms(2)
    by (simp add: room_ok_def Let_def)
  then have "r_index (roomHeap s ! room) \<in> room_owned (mgr s)" using store_invD(7) [OF assms(1)] by auto
  then show "r_index (roomHeap s ! room) < maxRooms (mgr s)"
    using room_index.owned_ids [OF store_invD(2) [OF assms(1)]] by (auto simp: room_ids_def)
qed

lemma room_address_inj:
  assumes "pool_ok (m_pool m)" and "i < maxRooms m" and "j < maxRooms m"
    and eq: "room_address (m_pool m) i + ucast (h :: byte) = room_address (m_pool m) j + ucast (g :: byte)"
  shows "i = j" and "h = g"
proof -
  show "h = g"
    using ucast_aligned [OF room_address_aligned [OF assms(1)], of i h]
      ucast_aligned [OF room_address_aligned [OF assms(1)], of j g] eq by simp
  then have "push_bit 8 i = push_bit 8 j" using eq by (simp add: room_address_def)
  then show "i = j" using push_bit_inj idx_bound assms(1-3) by blast
qed

lemma member_ip_inj:
  assumes "store_inv s" and "j < length (roomHeap s)" and "p \<in> live (roomHeap s ! j)"
    and "k < length (roomHeap s)" and "q \<in> live (roomHeap s ! k)" and "p_IP (peerHeap s ! p) = p_IP (peerHeap s ! q)"
  shows "p = q"
proof -
  note a = member_address [OF assms(1-3)] member_address [OF assms(1,4,5)]
  note i = member_index [OF assms(1-3)] member_index [OF assms(1,4,5)]
  have "room_address (m_pool (mgr s)) (r_index (roomHeap s ! j)) + ucast (peer_host (peerHeap s ! p))
      = room_address (m_pool (mgr s)) (r_index (roomHeap s ! k)) + ucast (peer_host (peerHeap s ! q))"
    using a(1,3) assms(6) by simp
  note same = room_address_inj [OF store_invD(1) [OF assms(1)] i(2,4) this]
  then have "j = k" using store_invD(6) [OF assms(1)] i(1,3) by (auto dest: inj_onD)
  then show ?thesis
    using same(2) store_room_inv [OF assms(1,2)] assms(3,5) by (auto simp: room_inv_def host_ok_def dest: inj_onD)
qed

text \<open>C1. In every state that any interleaving of joins, leaves and forwards can reach, two
  different peers that are registered in a room, be it the same room or two different ones,
  have different IP addresses.\<close>

theorem addresses_unique:
  assumes "reachable pool c" and "pool_ok pool"
    and "j < length (roomHeap (sys_store c))" and "p \<in> live (roomHeap (sys_store c) ! j)"
    and "k < length (roomHeap (sys_store c))" and "q \<in> live (roomHeap (sys_store c) ! k)"
    and "p_IP (peerHeap (sys_store c) ! p) = p_IP (peerHeap (sys_store c) ! q)"
  shows "p = q"
proof (rule member_ip_inj [OF _ assms(3-7)])
  show "store_inv (sys_store c)" using reachable_inv [OF assms(1,2)] by (simp add: sys_inv_def)
qed

theorem addresses_unique_witness:
  "p_IP (peerHeap (sys_store (demo_sys demo2 [])) ! 0) \<noteq> p_IP (peerHeap (sys_store (demo_sys demo2 [])) ! 1)"
  using addresses_unique [OF demo_reachable2 demo_pool_ok, of 0 0 0 1] demo_members by (auto simp: demo_sys_def)

lemma unat_prefix_add:
  fixes b x :: u32
  assumes "n \<le> 32" and "take_bit n b = 0" and "unat x < 2 ^ n"
  shows "drop_bit n (b + x) = drop_bit n b"
proof -
  have "unat b mod 2 ^ n = 0"
    using assms(2) by (metis take_bit_eq_mod unat_0 unsigned_take_bit_eq)
  then obtain q where q: "unat b = 2 ^ n * q" by (auto simp: mod_eq_0_iff_dvd)
  have "unat b < 2 ^ 32" using unsigned_less [of b] by simp
  then have "q < 2 ^ (32 - n)"
    using assms(1) q by (metis (no_types) le_add_diff_inverse nat_mult_less_cancel_disj power_add)
  then have "Suc q * 2 ^ n \<le> 2 ^ (32 - n) * 2 ^ n" by (intro mult_le_mono1) simp
  also have "\<dots> = 2 ^ 32" using assms(1) by (simp flip: power_add)
  finally have "unat b + unat x < 2 ^ 32" using q assms(3) by (simp add: mult.commute)
  then have "unat (b + x) = unat b + unat x" by (simp add: unat_word_ariths)
  then have "unat (b + x) div 2 ^ n = unat b div 2 ^ n" using q assms(3) by simp
  then have "unat (drop_bit n (b + x)) = unat (drop_bit n b)"
    by (simp only: unat_drop_bit_eq) (simp add: drop_bit_eq_div)
  then show ?thesis by (simp only: word_unat_eq_iff)
qed

lemma unat_byte_u32: "unat (ucast (h :: byte) :: u32) = unat h"
proof -
  have "unat h < 2 ^ 8" using unsigned_less [of h] by simp
  then show ?thesis by (simp add: unsigned_ucast_eq take_bit_nat_eq_self)
qed

lemma member_in_pool:
  assumes inv: "store_inv s" and "room < length (roomHeap s)" and "p \<in> live (roomHeap s ! room)"
  shows "prefix_contains (m_pool (mgr s)) (p_IP (peerHeap s ! p))"
proof -
  let ?pool = "m_pool (mgr s)" and ?i = "r_index (roomHeap s ! room)" and ?h = "peer_host (peerHeap s ! p)"
  note pool = store_invD(1) [OF inv]
  obtain b where b: "pfx_bits ?pool = int b" "b \<le> 24" using pool_bits [OF pool] .
  have "unat ?i < 2 ^ (24 - b)"
    using member_index(2) [OF assms] maxRooms_pool [OF pool] b by (simp add: word_less_nat_alt)
  then have "unat ?i * 256 + 256 \<le> 2 ^ (24 - b) * 2 ^ 8" by simp
  also have "\<dots> = 2 ^ (32 - b)" using b(2) by (subst power_add [symmetric]) simp
  finally have fit: "unat ?i * 256 + 256 \<le> 2 ^ (32 - b)" .
  have "(2 :: nat) ^ (32 - b) \<le> 2 ^ 32" by (rule power_increasing) simp_all
  moreover have "unat ?h < 256" using unsigned_less [of ?h] by simp
  ultimately have "unat (push_bit 8 ?i + ucast ?h) = unat ?i * 256 + unat ?h"
    using fit by (simp add: push_bit_eq_mult unat_word_ariths unat_byte_u32)
  then have "unat (push_bit 8 ?i + ucast ?h) < 2 ^ (32 - b)" using fit \<open>unat ?h < 256\<close> by linarith
  then have "drop_bit (32 - b) (Uint32 (As4 (pfx_addr ?pool)) + (push_bit 8 ?i + ucast ?h))
      = drop_bit (32 - b) (Uint32 (As4 (pfx_addr ?pool)))"
    using pool b by (intro unat_prefix_add) (simp_all add: pool_ok_def)
  then show ?thesis
    using member_address(1) [OF assms] pool b
    by (simp add: prefix_contains_def room_address_def pool_ok_def add.assoc)
qed

lemma member_in_room:
  assumes inv: "store_inv s" and "room < length (roomHeap s)" and "p \<in> live (roomHeap s ! room)"
  shows "prefix_contains (r_prefix (roomHeap s ! room)) (p_IP (peerHeap s ! p))"
proof -
  let ?b = "room_base (roomHeap s ! room)" and ?h = "peer_host (peerHeap s ! p)"
  have "unat (ucast ?h :: u32) < 2 ^ 8" using unsigned_less [of ?h] by (simp add: unat_byte_u32)
  then have "drop_bit 8 (?b + ucast ?h) = drop_bit 8 ?b"
    using room_prefix(2) [OF assms(1,2)] by (intro unat_prefix_add) simp_all
  moreover have "pfx_bits (r_prefix (roomHeap s ! room)) = 24"
    using store_invD(5) [OF assms(1,2)] by (simp add: room_ok_def Let_def PrefixFrom_def BitLen_def)
  moreover have "p_IP (peerHeap s ! p) = Addr4 (?b + ucast ?h)"
    using store_room_inv [OF assms(1,2)] assms(3) by (auto simp: room_inv_def peer_ok_def)
  ultimately show ?thesis
    using room_prefix(1) [OF assms(1,2)] by (simp add: prefix_contains_def)
qed

text \<open>C13. Every peer registered in a room of a running server has an IPv4 address inside the
  /24 of its room and inside the server's pool, with a last byte from 2 to 254: never the
  network address, the first address or the broadcast address of the room.\<close>

theorem addresses_in_pool:
  assumes "reachable pool c" and "pool_ok pool"
    and "k < length (roomHeap (sys_store c))" and "p \<in> live (roomHeap (sys_store c) ! k)"
  shows "prefix_contains pool (p_IP (peerHeap (sys_store c) ! p))
    \<and> prefix_contains (r_prefix (roomHeap (sys_store c) ! k)) (p_IP (peerHeap (sys_store c) ! p))
    \<and> As4 (p_IP (peerHeap (sys_store c) ! p)) ! 3 \<in> {2 .. 254}"
proof (intro conjI)
  have inv: "store_inv (sys_store c)" using reachable_inv [OF assms(1,2)] by (simp add: sys_inv_def)
  show "prefix_contains pool (p_IP (peerHeap (sys_store c) ! p))"
    using member_in_pool [OF inv assms(3,4)] reachable_pool [OF assms(1)] by simp
  show "prefix_contains (r_prefix (roomHeap (sys_store c) ! k)) (p_IP (peerHeap (sys_store c) ! p))"
    by (rule member_in_room [OF inv assms(3,4)])
  show "As4 (p_IP (peerHeap (sys_store c) ! p)) ! 3 \<in> {2 .. 254}"
    using member_address(2) [OF inv assms(3,4)] by (simp add: peer_host_def host_consts)
qed

theorem addresses_in_pool_witness: "prefix_contains demo_pool (p_IP (peerHeap demo2 ! 1))"
  using addresses_in_pool [OF demo_reachable2 demo_pool_ok, of 0 1] demo_members by (simp add: demo_sys_def)

section \<open>Forwarding\<close>

lemma live_list:
  assumes "room_inv ph room r"
  shows "set (map snd (r_peers r)) = live r" and "distinct (map snd (r_peers r))"
proof -
  have "map fst (r_peers r) = map (\<lambda>p. p_ID (ph ! p)) (map snd (r_peers r))"
    using assms by (auto simp: room_inv_def)
  moreover have "distinct (map fst (r_peers r))" using assms by (simp add: room_inv_def)
  ultimately show "distinct (map snd (r_peers r))" by (metis distinct_map)
qed (simp add: live_def)

lemma distinct_others: "room_inv ph room r \<Longrightarrow> distinct (otherPeersLocked r from)"
  using live_list(2) by (simp add: otherPeersLocked_def)

lemma mac_owner_unique:
  assumes "room_inv ph room r" and "p \<in> live r" and "q \<in> live r" and "p_MAC (ph ! p) = p_MAC (ph ! q)"
  shows "p = q"
  using mac_lookup [OF assms(1)] assms(2-4) by (metis option.inject)

lemma Forward_delivery:
  assumes inv: "store_inv s" and "k < length (roomHeap s)" and "p \<in> live (roomHeap s ! k)"
    and "14 \<le> length frame" and "take 6 (drop 6 frame) = p_MAC (peerHeap s ! p)"
  shows "\<exists>ts. Forward k p frame s = Some (s, Inr ts) \<and> distinct ts
    \<and> set ts =
        (let others = live (roomHeap s ! k) - {p};
             owners = {q \<in> others. p_MAC (peerHeap s ! q) = take 6 frame}
         in if isBroadcast (take 6 frame) \<or> isMulticast (take 6 frame) \<or> owners = {} then others else owners)"
proof -
  let ?r = "roomHeap s ! k" and ?dst = "take 6 frame"
  note rinv = store_room_inv [OF inv assms(2)]
  note fwd = Forward_registered [OF inv assms(2) live_lookup [OF rinv assms(3)] assms(4,5)]
  show ?thesis
  proof (cases "\<exists>q \<in> live ?r - {p}. p_MAC (peerHeap s ! q) = ?dst")
    case True
    then obtain q where q: "q \<in> live ?r" "q \<noteq> p" "p_MAC (peerHeap s ! q) = ?dst" by auto
    then have "map_of (r_macToPeer ?r) ?dst = Some q" using mac_lookup [OF rinv] by simp
    moreover have "{q' \<in> live ?r - {p}. p_MAC (peerHeap s ! q') = ?dst} = {q}"
      using q mac_owner_unique [OF rinv] by auto
    ultimately show ?thesis
      using fwd q distinct_others [OF rinv, of p] otherPeers_live [of ?r p] by (auto simp: Let_def)
  next
    case False
    then have "map_of (r_macToPeer ?r) ?dst \<in> {None, Some p}"
      using mac_lookup [OF rinv] by (cases "map_of (r_macToPeer ?r) ?dst") auto
    moreover have none: "{q \<in> live ?r - {p}. p_MAC (peerHeap s ! q) = ?dst} = {}" using False by auto
    ultimately have "Forward k p frame s = Some (s, Inr (otherPeersLocked ?r p))"
      using fwd by (auto simp: Let_def)
    then show ?thesis
      using distinct_others [OF rinv, of p] otherPeers_live [of ?r p] unfolding none Let_def by auto
  qed
qed

text \<open>C2. A frame that a registered peer sends under its own MAC reaches, once each, exactly the
  peers it should: the owner of the destination MAC when another peer of the room has it,
  and otherwise (broadcast, multicast, unknown destination) every other peer of the room.
  Nobody outside the room and never the sender gets it, and forwarding leaves the tables as
  they are.\<close>

theorem forward_delivers:
  assumes "reachable pool c" and "pool_ok pool" and "s = sys_store c"
    and "k < length (roomHeap s)" and "p \<in> live (roomHeap s ! k)"
    and "14 \<le> length frame" and "take 6 (drop 6 frame) = p_MAC (peerHeap s ! p)"
  shows "\<exists>ts. Forward k p frame s = Some (s, Inr ts) \<and> distinct ts
    \<and> set ts =
        (let others = live (roomHeap s ! k) - {p};
             owners = {q \<in> others. p_MAC (peerHeap s ! q) = take 6 frame}
         in if isBroadcast (take 6 frame) \<or> isMulticast (take 6 frame) \<or> owners = {} then others else owners)"
proof -
  have "store_inv s" using reachable_inv [OF assms(1,2)] assms(3) by (simp add: sys_inv_def)
  then show ?thesis using Forward_delivery assms(4-7) by blast
qed

theorem forward_delivers_witness: "\<exists>ts. Forward 0 0 demo_frame demo2 = Some (demo2, Inr ts) \<and> set ts = {1}"
proof -
  have "isMulticast (take 6 demo_frame) = False" "isBroadcast (take 6 demo_frame) = False"
    "p_MAC (peerHeap demo2 ! 1) = take 6 demo_frame" "take 6 (drop 6 demo_frame) = p_MAC (peerHeap demo2 ! 0)"
    by code_simp+
  moreover have "14 \<le> length demo_frame" by code_simp
  ultimately show ?thesis
    using forward_delivers [OF demo_reachable2 demo_pool_ok, of demo2 0 0 demo_frame] demo_members
    by (auto simp: demo_sys_def Let_def)
qed

text \<open>What the relay refuses to forward, in any store: a frame shorter than an Ethernet
  header, a frame whose source is not the sender's MAC (an error even if the MAC belongs to
  another peer), and any frame of a peer that is no longer registered, which goes to nobody.
  In all three cases nothing is learnt from the frame.\<close>

lemma forward_refuses:
  "(length frame < 14 \<longrightarrow> Forward k p frame s = Some (s, Inl ErrInvalidFrame))
   \<and> (14 \<le> length frame \<and> take 6 (drop 6 frame) \<noteq> p_MAC (peerHeap s ! p) \<longrightarrow>
        Forward k p frame s = Some (s, Inl ErrSourceMACInvalid))
   \<and> (14 \<le> length frame \<and> take 6 (drop 6 frame) = p_MAC (peerHeap s ! p) \<and> p \<notin> live (roomHeap s ! k) \<longrightarrow>
        Forward k p frame s = Some (s, Inr []))"
  using lookup_live [of "roomHeap s ! k" "p_ID (peerHeap s ! p)" p] by (auto simp: forward_defs)


section \<open>Joining\<close>

lemma card_hosts: "card (host_ids r) = 253"
proof -
  have "host_ids r = of_nat ` {2 .. 254}"
  proof (rule set_eqI)
    fix x :: byte
    show "x \<in> host_ids r \<longleftrightarrow> x \<in> of_nat ` {2 .. 254}"
      by (auto simp: host_ids_def host_consts word_le_nat_alt image_iff unat_of_nat take_bit_nat_def
          intro!: bexI [of _ "unat x"])
  qed
  moreover have "inj_on (of_nat :: nat \<Rightarrow> byte) {2 .. 254}"
    by (rule inj_onI) (simp add: word_unat_eq_iff unat_of_nat take_bit_nat_def)
  ultimately show ?thesis by (simp add: card_image)
qed

lemma live_card: "room_inv ph room r \<Longrightarrow> card (live r) = card (host_owned r)"
  unfolding room_inv_def host_ok_def by (metis card_image)

text \<open>A room takes a peer unless 253 are in it: when the id and the MAC of the new peer are
  settled, \<^verbatim>\<open>AddPeer\<close> on an open room answers that the room is full exactly if it has 253
  peers, and then changes nothing; in every other case the peer is added.\<close>

lemma room_capacity:
  assumes "store_inv s" and "k < length (roomHeap s)" and "\<not> r_closed (roomHeap s ! k)"
    and "fresh_draw (roomHeap s ! k) (the_opt opts) d" and "d_id d = Some b"
    and "chooseMAC (the_opt opts) d (roomHeap s ! k) = Inr mac"
  shows "(PeerCount k s = 253 \<longrightarrow> AddPeer k opts d s = (s, Inl ErrRoomFull))
    \<and> (PeerCount k s \<noteq> 253 \<longrightarrow> PeerCount k s < 253 \<and> (\<exists>s'. AddPeer k opts d s = (s', Inr (length (peerHeap s)))
          \<and> PeerCount k s' = PeerCount k s + 1))"
proof -
  let ?r = "roomHeap s ! k"
  note rinv = store_room_inv [OF assms(1,2)]
  have hinv: "host_inv ?r" using rinv by (simp add: room_inv_def host_ok_def)
  have "PeerCount k s = card (live ?r)"
    using distinct_card [OF live_list(2) [OF rinv]] live_list(1) [OF rinv] by (simp add: PeerCount_def)
  then have count: "PeerCount k s = card (host_owned ?r)" using live_card [OF rinv] by simp
  have le: "card (host_owned ?r) \<le> 253"
    using card_mono [OF host.finite_ids host.owned_ids [OF hinv]] card_hosts by simp
  note fails = host.alloc_fails_iff [OF hinv, unfolded card_hosts]
  from assms(1,2,4) show ?thesis
  proof (cases rule: AddPeer_cases)
    case (full m)
    then show ?thesis using fails count by auto
  next
    case (added i m r1 h q)
    obtain n f where "r1 = ?r\<lparr>r_nextHost := n, r_freeHosts := f\<rparr>"
      using allocateHost_frame [OF added(4)] by blast
    then have "PeerCount k (fst (AddPeer k opts d s)) = PeerCount k s + 1"
      using added(7) assms(2) by (simp add: PeerCount_def joined_def)
    moreover have "card (host_owned ?r) \<noteq> 253" using fails added(4) by auto
    ultimately show ?thesis using added(7) count le by simp
  qed (use assms in simp_all)
qed


end
