(* ===== verification/Relay_Life.thy ===== *)
theory Relay_Life
  imports Relay_Props
begin

text \<open>
  The life of a peer and of a room: what a join assigns, what a leave releases, when rooms
  appear and disappear, and two behaviours of the code that its clients have to live with.
\<close>

section \<open>Joining\<close>

lemma join_added:
  assumes "store_inv s" and "k < length (roomHeap s)" and "fresh_draw (roomHeap s ! k) (the_opt opts) d"
    and "AddPeer k opts d s = (s', Inr p)"
  shows "p = length (peerHeap s)" and "live (roomHeap s' ! k) = insert p (live (roomHeap s ! k))"
    and "\<exists>i mac h r1. chooseMAC (the_opt opts) d (roomHeap s ! k) = Inr mac
      \<and> allocateHostLocked (roomHeap s ! k) = Inr (r1, h)
      \<and> s' = s\<lparr>roomHeap := (roomHeap s)[k := joined r1 i mac p],
              peerHeap := peerHeap s @ [newPeer i (the_opt opts) k (Addr4 (room_base (roomHeap s ! k) + ucast h)) mac (d_now d)]\<rparr>"
proof -
  have "p = length (peerHeap s) \<and> live (roomHeap s' ! k) = insert p (live (roomHeap s ! k))
    \<and> (\<exists>i mac h r1. chooseMAC (the_opt opts) d (roomHeap s ! k) = Inr mac
      \<and> allocateHostLocked (roomHeap s ! k) = Inr (r1, h)
      \<and> s' = s\<lparr>roomHeap := (roomHeap s)[k := joined r1 i mac p],
              peerHeap := peerHeap s @ [newPeer i (the_opt opts) k (Addr4 (room_base (roomHeap s ! k) + ucast h)) mac (d_now d)]\<rparr>)"
    using assms(1-3)
  proof (cases rule: AddPeer_cases)
    case (added i mac r1 h q)
    obtain n f where r1: "r1 = (roomHeap s ! k)\<lparr>r_nextHost := n, r_freeHosts := f\<rparr>"
      using allocateHost_frame [OF added(4)] by blast
    have "live (joined r1 i mac p) = insert p (live (roomHeap s ! k))" by (simp add: live_def joined_def r1)
    then show ?thesis using added(3,4,6,7) assms(2,4) by auto
  qed (use assms(4) in simp_all)
  then show "p = length (peerHeap s)" and "live (roomHeap s' ! k) = insert p (live (roomHeap s ! k))"
    and "\<exists>i mac h r1. chooseMAC (the_opt opts) d (roomHeap s ! k) = Inr mac
      \<and> allocateHostLocked (roomHeap s ! k) = Inr (r1, h)
      \<and> s' = s\<lparr>roomHeap := (roomHeap s)[k := joined r1 i mac p],
              peerHeap := peerHeap s @ [newPeer i (the_opt opts) k (Addr4 (room_base (roomHeap s ! k) + ucast h)) mac (d_now d)]\<rparr>"
    by blast+
qed

text \<open>C14. What a successful join assigns: a new peer with the name and features it asked for,
  the MAC it requested (or a drawn one, if it requested none) and the lowest host number that
  no peer of the room has. No other room and no other peer changes.\<close>

theorem join_assigns:
  assumes "store_inv s" and "k < length (roomHeap s)" and "fresh_draw (roomHeap s ! k) (the_opt opts) d"
    and "AddPeer k opts d s = (s', Inr p)"
  shows "p = length (peerHeap s) \<and> live (roomHeap s' ! k) = insert p (live (roomHeap s ! k))
    \<and> p_DisplayName (peerHeap s' ! p) = opt_DisplayName (the_opt opts)
    \<and> p_Features (peerHeap s' ! p) = opt_Features (the_opt opts)
    \<and> (case cloneMAC (opt_RequestedMAC (the_opt opts)) of
         Some mac \<Rightarrow> p_MAC (peerHeap s' ! p) = mac | None \<Rightarrow> randomMAC (d_mac d) = Inr (p_MAC (peerHeap s' ! p)))
    \<and> peer_host (peerHeap s' ! p) = Min ({2 .. 254} - (\<lambda>q. peer_host (peerHeap s ! q)) ` live (roomHeap s ! k))
    \<and> (\<forall>j. j \<noteq> k \<longrightarrow> roomHeap s' ! j = roomHeap s ! j) \<and> take p (peerHeap s') = peerHeap s"
proof -
  let ?r = "roomHeap s ! k"
  note new = join_added [OF assms]
  obtain i mac h r1 where mac: "chooseMAC (the_opt opts) d ?r = Inr mac" and alloc: "allocateHostLocked ?r = Inr (r1, h)"
    and s': "s' = s\<lparr>roomHeap := (roomHeap s)[k := joined r1 i mac p],
        peerHeap := peerHeap s @ [newPeer i (the_opt opts) k (Addr4 (room_base ?r + ucast h)) mac (d_now d)]\<rparr>"
    using new(3) by blast
  have hinv: "host_inv ?r" and img: "(\<lambda>q. peer_host (peerHeap s ! q)) ` live ?r = host_owned ?r"
    using store_room_inv [OF assms(1,2)] by (simp_all add: room_inv_def host_ok_def)
  have "peer_host (peerHeap s' ! p) = h"
    using ucast_aligned [OF room_prefix(2) [OF assms(1,2)], of h]
    by (simp add: s' new(1) newPeer_def peer_host_def low_byte)
  moreover have "h = Min ({2 .. 254} - host_owned ?r)"
    using host.alloc_Inr(3) [OF hinv alloc] by (simp add: host_ids_def host_consts)
  moreover have "case cloneMAC (opt_RequestedMAC (the_opt opts)) of Some m \<Rightarrow> mac = m | None \<Rightarrow> randomMAC (d_mac d) = Inr mac"
    using mac by (auto simp: chooseMAC_def split: option.splits if_splits)
  ultimately show ?thesis
    unfolding img using new(1,2) by (auto simp: s' newPeer_def split: option.splits)
qed

theorem join_assigns_witness: "peer_host (peerHeap (fst (AddPeer 0 [] (demo_draw 2) demo1)) ! 1) = Min ({2 .. 254} - {2})"
proof -
  have inv: "store_inv demo1"
    using reachable_inv [OF demo_reachable1 demo_pool_ok] by (simp add: sys_inv_def demo_sys_def)
  have "live (roomHeap demo1 ! 0) = {0}" "peer_host (peerHeap demo1 ! 0) = 2" "0 < length (roomHeap demo1)"
    by code_simp+
  then have "peer_host (peerHeap demo2 ! 1) = Min ({2 .. 254} - {2})"
    using join_assigns [OF inv _ demo_fresh2 demo_step2] by (simp only: image_insert image_empty simp_thms)
  then show ?thesis by (simp add: demo_step2)
qed

text \<open>The room that \<^verbatim>\<open>getOrCreateRoom\<close> returns is registered under the name, hence open.\<close>

lemma getOrCreateRoom_open:
  assumes inv: "store_inv s" and run: "getOrCreateRoom name now s = (s1, Inr room)"
  shows "room < length (roomHeap s1)" and "map_of (m_rooms (mgr s1)) name = Some room"
    and "\<not> r_closed (roomHeap s1 ! room)" and "peerHeap s1 = peerHeap s"
proof -
  have "map_of (m_rooms (mgr s1)) name = Some room \<and> peerHeap s1 = peerHeap s"
    using store_invD(1) [OF inv]
  proof (cases rule: getOrCreateRoom_cases [of s name now])
    case (created m1 idx)
    then show ?thesis using run by (auto simp: map_of_eq_None_iff map_of_snoc simp del: map_of_append)
  qed (use run in simp_all)
  then show named: "map_of (m_rooms (mgr s1)) name = Some room" and "peerHeap s1 = peerHeap s" by simp_all
  note D = store_invD [OF getOrCreateRoom_inv [OF inv run]]
  have "room < length (roomHeap s1) \<and> r_name (roomHeap s1 ! room) = name" using D(8) named by (blast dest: map_of_SomeD)
  then show "room < length (roomHeap s1)" "\<not> r_closed (roomHeap s1 ! room)"
    using D(5) [of room] named by (simp_all add: room_ok_def Let_def registered_def)
qed

lemma AddPeer_open: "\<not> r_closed (roomHeap s ! k) \<Longrightarrow> AddPeer k opts d s \<noteq> (s', Inl ErrRoomClosed)"
  by (auto simp: AddPeer_def randomHex_def chooseMAC_def randomMAC_def ipv4ToUint32_def Let_def
      split: option.splits sum.splits prod.splits if_splits dest: allocateHost_error)

lemma getOrCreateRoom_error: "store_inv s \<Longrightarrow> getOrCreateRoom name now s = (s', Inl e) \<Longrightarrow> s' = s \<and> e = ErrPoolFull"
  by (rule getOrCreateRoom_cases [OF store_invD(1), of s name now]) auto

lemma AddPeer_room:
  assumes "store_inv s" and "k < length (roomHeap s)" and "fresh_draw (roomHeap s ! k) (the_opt opts) d"
    and "AddPeer k opts d s = (s', Inr p)"
  shows "p_Room (peerHeap s' ! p) = k" and "mgr s' = mgr s" and "length (roomHeap s') = length (roomHeap s)"
  using assms(1-3) by (cases rule: AddPeer_cases; use assms(4) in \<open>auto simp: newPeer_def\<close>)+

lemma AddPeer_failed:
  assumes "store_inv s" and "k < length (roomHeap s)" and "fresh_draw (roomHeap s ! k) (the_opt opts) d"
    and "AddPeer k opts d s = (s', Inl e)"
  shows "s' = s"
  using assms(1-3) by (cases rule: AddPeer_cases; use assms(4) in simp)

lemma AddPeer_identity:
  assumes "store_inv s" and "k < length (roomHeap s)" and "fresh_draw (roomHeap s ! k) (the_opt opts) d"
    and "AddPeer k opts d s = (s', Inr p)"
  shows "p_DisplayName (peerHeap s' ! p) = opt_DisplayName (the_opt opts)"
    and "p_Features (peerHeap s' ! p) = opt_Features (the_opt opts)"
    and "cloneMAC (opt_RequestedMAC (the_opt opts)) = Some mac \<Longrightarrow> p_MAC (peerHeap s' ! p) = mac"
proof -
  obtain i m and h :: byte and r1 where m: "chooseMAC (the_opt opts) d (roomHeap s ! k) = Inr m"
    and s': "s' = s\<lparr>roomHeap := (roomHeap s)[k := joined r1 i m p],
      peerHeap := peerHeap s @ [newPeer i (the_opt opts) k (Addr4 (room_base (roomHeap s ! k) + ucast h)) m (d_now d)]\<rparr>"
    using join_added(3) [OF assms] by blast
  have q: "peerHeap s' ! p = newPeer i (the_opt opts) k (Addr4 (room_base (roomHeap s ! k) + ucast h)) m (d_now d)"
    using join_added(1) [OF assms] by (simp add: s')
  show "p_DisplayName (peerHeap s' ! p) = opt_DisplayName (the_opt opts)"
    "p_Features (peerHeap s' ! p) = opt_Features (the_opt opts)" by (simp_all add: q newPeer_def)
  show "cloneMAC (opt_RequestedMAC (the_opt opts)) = Some mac \<Longrightarrow> p_MAC (peerHeap s' ! p) = mac"
    using m by (auto simp: q newPeer_def chooseMAC_def split: if_splits)
qed

text \<open>The draws are fresh for the room that the name leads to.\<close>

definition fresh_join :: "string \<Rightarrow> JoinOptions list \<Rightarrow> Draw \<Rightarrow> Store \<Rightarrow> bool" where
  "fresh_join name opts d s \<longleftrightarrow>
     (case getOrCreateRoom name (d_now d) s of
        (s1, Inl e) \<Rightarrow> True
      | (s1, Inr room) \<Rightarrow> fresh_draw (roomHeap s1 ! room) (the_opt opts) d)"

text \<open>Enough for every name and every option: what is drawn is in use in no room.\<close>

definition unused_draw :: "Draw \<Rightarrow> Store \<Rightarrow> bool" where
  "unused_draw d s \<longleftrightarrow> (case d_mac d of None \<Rightarrow> True | Some b \<Rightarrow> length b = 6)
     \<and> (\<forall>r \<in> set (roomHeap s).
          (case randomHex (d_id d) of Inl e \<Rightarrow> True | Inr i \<Rightarrow> i \<notin> fst ` set (r_peers r))
          \<and> (case randomMAC (d_mac d) of Inl e \<Rightarrow> True | Inr m \<Rightarrow> m \<notin> fst ` set (r_macToPeer r)))"

lemma unused_fresh:
  assumes "store_inv s" and "unused_draw d s"
  shows "fresh_join name opts d s"
  using store_invD(1) [OF assms(1)]
proof (cases rule: getOrCreateRoom_cases [of s name "d_now d"])
  case (known room)
  then have "room < length (roomHeap s)" using store_invD(8) [OF assms(1)] by (blast dest: map_of_SomeD)
  then have "roomHeap s ! room \<in> set (roomHeap s)" by simp
  then show ?thesis using known assms(2) by (simp add: fresh_join_def fresh_draw_def unused_draw_def)
next
  case (created m1 idx)
  then show ?thesis
    using assms(2) by (auto simp: fresh_join_def fresh_draw_def unused_draw_def freshRoom_def split: sum.splits)
qed (simp add: fresh_join_def)

text \<open>A join is one attempt: the room, then the peer.\<close>

lemma Manager_Join_attempt:
  assumes "store_inv s" and "fresh_join name opts d s"
  obtains (full) "Manager_Join name opts (d # ds) s = (s, Some (Inl ErrPoolFull))"
  | (tried) s1 room s2 res where "getOrCreateRoom name (d_now d) s = (s1, Inr room)" and "store_inv s1"
      and "room < length (roomHeap s1)" and "map_of (m_rooms (mgr s1)) name = Some room" and "peerHeap s1 = peerHeap s"
      and "fresh_draw (roomHeap s1 ! room) (the_opt [the_opt opts]) d"
      and "AddPeer room [the_opt opts] d s1 = (s2, res)" and "res \<noteq> Inl ErrRoomClosed"
      and "Manager_Join name opts (d # ds) s = (s2, Some res)"
proof -
  obtain s1 res1 where get: "getOrCreateRoom name (d_now d) s = (s1, res1)" by fastforce
  show thesis
  proof (cases res1)
    case (Inl e)
    then show thesis using get full getOrCreateRoom_error [OF assms(1)] by auto
  next
    case (Inr room)
    note op = getOrCreateRoom_open [OF assms(1) get [unfolded Inr]]
    obtain s2 res where add: "AddPeer room [the_opt opts] d s1 = (s2, res)" by fastforce
    have nc: "res \<noteq> Inl ErrRoomClosed" using AddPeer_open [OF op(3)] add by blast
    then have "Manager_Join name opts (d # ds) s = (s2, Some res)"
      using get Inr add by (auto simp: Let_def split: sum.splits relay_error.splits)
    then show thesis
      using tried get Inr getOrCreateRoom_inv [OF assms(1) get] op add nc assms(2) by (simp add: fresh_join_def)
  qed
qed

lemma getOrCreateRoom_old:
  "store_inv s \<Longrightarrow> getOrCreateRoom name now s = (s1, res) \<Longrightarrow> k < length (roomHeap s) \<Longrightarrow> roomHeap s1 ! k = roomHeap s ! k"
  by (rule getOrCreateRoom_cases [OF store_invD(1), of s name now]) (auto simp: nth_append)

lemma Manager_Join_failed:
  assumes "store_inv s" and "fresh_join name opts d s" and "Manager_Join name opts (d # ds) s = (s', Some (Inl e))"
  shows "store_inv s'" and "peerHeap s' = peerHeap s" and "k < length (roomHeap s) \<Longrightarrow> roomHeap s' ! k = roomHeap s ! k"
proof -
  have "store_inv s' \<and> peerHeap s' = peerHeap s \<and> (k < length (roomHeap s) \<longrightarrow> roomHeap s' ! k = roomHeap s ! k)"
    using assms(1,2)
  proof (cases rule: Manager_Join_attempt [of s name opts d ds])
    case (tried s1 room s2 res)
    then have "s' = s1" using assms(3) AddPeer_failed [OF tried(2,3,6), of s'] by simp
    then show ?thesis using tried getOrCreateRoom_old [OF assms(1) tried(1)] by simp
  qed (use assms in simp)
  then show "store_inv s'" "peerHeap s' = peerHeap s" "k < length (roomHeap s) \<Longrightarrow> roomHeap s' ! k = roomHeap s ! k" by simp_all
qed

lemma Manager_Join_joined:
  assumes "store_inv s" and "fresh_join name opts d s" and "Manager_Join name opts (d # ds) s = (s', Some (Inr p))"
  shows "store_inv s'" and "p = length (peerHeap s)" and "Manager_Room name s' = Some (p_Room (peerHeap s' ! p))"
    and "p_Room (peerHeap s' ! p) < length (roomHeap s')" and "p \<in> live (roomHeap s' ! p_Room (peerHeap s' ! p))"
    and "p_DisplayName (peerHeap s' ! p) = opt_DisplayName (the_opt opts)"
    and "p_Features (peerHeap s' ! p) = opt_Features (the_opt opts)"
    and "cloneMAC (opt_RequestedMAC (the_opt opts)) = Some mac \<Longrightarrow> p_MAC (peerHeap s' ! p) = mac"
proof -
  obtain s1 room where at: "store_inv s1" "room < length (roomHeap s1)" "map_of (m_rooms (mgr s1)) name = Some room"
    "peerHeap s1 = peerHeap s" "fresh_draw (roomHeap s1 ! room) (the_opt [the_opt opts]) d"
    "AddPeer room [the_opt opts] d s1 = (s', Inr p)"
    using assms(1,2) by (cases rule: Manager_Join_attempt [of s name opts d ds]) (use assms(3) in auto)
  note new = join_added [OF at(1,2,5,6)] AddPeer_room [OF at(1,2,5,6)] AddPeer_identity [OF at(1,2,5,6)]
  show "store_inv s'" using AddPeer_inv [OF at(1,2,5,6)] .
  show "p = length (peerHeap s)" using new(1) at(4) by simp
  show "Manager_Room name s' = Some (p_Room (peerHeap s' ! p))" using new(4,5) at(3) by (simp add: Manager_Room_def)
  show "p \<in> live (roomHeap s' ! p_Room (peerHeap s' ! p))" using new(2,4) by simp
  show "p_Room (peerHeap s' ! p) < length (roomHeap s')" using new(4,6) at(2) by simp
  show "p_DisplayName (peerHeap s' ! p) = opt_DisplayName (the_opt opts)"
    "p_Features (peerHeap s' ! p) = opt_Features (the_opt opts)"
    "cloneMAC (opt_RequestedMAC (the_opt opts)) = Some mac \<Longrightarrow> p_MAC (peerHeap s' ! p) = mac"
    using new(7-9) by simp_all
qed

text \<open>C16. Run without interference, \<^verbatim>\<open>Manager.Join\<close> ends at its first attempt: it never sees a
  closed room, and a peer it returns is registered in the room of the requested name.\<close>

theorem join_settles:
  assumes "store_inv s" and "fresh_join name opts d s"
  shows "\<exists>s' res. Manager_Join name opts (d # ds) s = (s', Some res) \<and> store_inv s' \<and> res \<noteq> Inl ErrRoomClosed
    \<and> (\<forall>p. res = Inr p \<longrightarrow> p = length (peerHeap s) \<and> Manager_Room name s' = Some (p_Room (peerHeap s' ! p))
          \<and> p \<in> live (roomHeap s' ! p_Room (peerHeap s' ! p)))"
  using assms
proof (cases rule: Manager_Join_attempt [of s name opts d ds])
  case full
  then show ?thesis using assms(1) by auto
next
  case (tried s1 room s2 res)
  then show ?thesis
    using Manager_Join_joined [OF assms, of ds s2] AddPeer_inv [OF tried(2,3,6,7)] by (cases res) auto
qed

theorem join_settles_witness: "\<exists>s' res. Manager_Join ''lobby'' [] [demo_draw 3] demo2 = (s', Some res) \<and> res \<noteq> Inl ErrRoomClosed"
proof -
  have "getOrCreateRoom ''lobby'' (d_now (demo_draw 3)) demo2 = (demo2, Inr 0)"
    by (rule known_room) code_simp
  moreover have "fresh_draw (roomHeap demo2 ! 0) (the_opt []) (demo_draw 3)" by code_simp
  ultimately have "fresh_join ''lobby'' [] (demo_draw 3) demo2" by (simp add: fresh_join_def)
  then show ?thesis using join_settles [OF demo_inv, of "''lobby''" "[]" "demo_draw 3" "[]"] by auto
qed

section \<open>Leaving\<close>

text \<open>The whole call on a registered peer.\<close>

lemma RemovePeer_registered:
  assumes inv: "store_inv s" and k: "k < length (roomHeap s)" and p: "p \<in> live (roomHeap s ! k)"
  obtains r' s1 where "room_inv (peerHeap s) k r'" and "live r' = live (roomHeap s ! k) - {p}"
    and "same_room (roomHeap s ! k) r'"
    and "s1 = s\<lparr>roomHeap := (roomHeap s)[k := r'], peerHeap := (peerHeap s)[p := closeFrames (peerHeap s ! p)]\<rparr>"
    and "RemovePeer p k s = (if live r' = {} then deleteEmptyRoom k s1 else s1)"
  using inv k
proof (cases rule: removePeerLocked_cases [of s k p])
  case absent
  then show thesis using live_lookup [OF store_room_inv [OF inv k] p] by simp
next
  case (removed r')
  let ?s1 = "s\<lparr>roomHeap := (roomHeap s)[k := r'], peerHeap := (peerHeap s)[p := closeFrames (peerHeap s ! p)]\<rparr>"
  have "r_manager (roomHeap s ! k)" using store_invD(5) [OF inv k] by (simp add: room_ok_def Let_def)
  then have m: "r_manager r'" using removed(5) by (simp add: same_room_def)
  then have "RemovePeer p k s = (if live r' = {} then deleteEmptyRoom k ?s1 else ?s1)"
    using removed(3) k by (simp add: RemovePeer_def Let_def live_def)
  then show thesis using that removed(4,7,5) by blast
qed

lemma room_closed_self: "\<exists>b. r = r\<lparr>r_closed := b\<rparr>"
  by (rule exI [of _ "r_closed r"]) simp

lemma RemovePeer_room:
  assumes "store_inv s" and "k < length (roomHeap s)" and "p \<in> live (roomHeap s ! k)"
  obtains r' b where "room_inv (peerHeap s) k r'" and "live r' = live (roomHeap s ! k) - {p}"
    and "roomHeap (RemovePeer p k s) ! k = r'\<lparr>r_closed := b\<rparr>"
    and "peerHeap (RemovePeer p k s) = (peerHeap s)[p := closeFrames (peerHeap s ! p)]"
proof -
  obtain r' s1 where r': "room_inv (peerHeap s) k r'" "live r' = live (roomHeap s ! k) - {p}"
    and s1: "s1 = s\<lparr>roomHeap := (roomHeap s)[k := r'], peerHeap := (peerHeap s)[p := closeFrames (peerHeap s ! p)]\<rparr>"
    and rem: "RemovePeer p k s = (if live r' = {} then deleteEmptyRoom k s1 else s1)"
    using RemovePeer_registered [OF assms] .
  have "\<exists>b. roomHeap (RemovePeer p k s) ! k = r'\<lparr>r_closed := b\<rparr>"
    unfolding rem s1 deleteEmptyRoom_def Let_def using assms(2) room_closed_self [of r'] by auto
  moreover have "peerHeap (RemovePeer p k s) = (peerHeap s)[p := closeFrames (peerHeap s ! p)]"
    unfolding rem s1 deleteEmptyRoom_def Let_def by simp
  ultimately show thesis using that r' by blast
qed

text \<open>The room goes with its last peer.\<close>

lemma RemovePeer_registration:
  assumes "store_inv s" and "k < length (roomHeap s)" and "p \<in> live (roomHeap s ! k)"
  shows "Manager_Room (r_name (roomHeap s ! k)) (RemovePeer p k s) = (if live (roomHeap s ! k) = {p} then None else Some k)"
proof -
  let ?r = "roomHeap s ! k"
  obtain r' s1 where r': "live r' = live ?r - {p}" "same_room ?r r'"
    and s1: "s1 = s\<lparr>roomHeap := (roomHeap s)[k := r'], peerHeap := (peerHeap s)[p := closeFrames (peerHeap s ! p)]\<rparr>"
    and rem: "RemovePeer p k s = (if live r' = {} then deleteEmptyRoom k s1 else s1)"
    using RemovePeer_registered [OF assms] .
  have room1: "roomHeap s1 ! k = r'" "r_name r' = r_name ?r" using assms(2) r'(2) by (simp_all add: s1 same_room_def)
  have reg: "map_of (m_rooms (mgr s1)) (r_name ?r) = Some k"
    using member_open [OF assms] store_invD(5) [OF assms(1,2)] by (simp add: room_ok_def Let_def registered_def s1)
  have single: "live r' = {} \<longleftrightarrow> live ?r = {p}" using r'(1) assms(3) by auto
  show ?thesis
  proof (cases "live r' = {}")
    case True
    then have "r_peers (roomHeap s1 ! k) = []" using room1 by (simp add: live_def)
    then show ?thesis
      using True single rem reg room1
      by (simp add: Manager_Room_def deleteEmptyRoom_def Let_def releaseRoomIndex_def AList.delete_conv')
  next
    case False
    then show ?thesis using rem reg single by (simp add: Manager_Room_def)
  qed
qed

text \<open>C3. A peer that leaves gives back everything it held: it is in no table of its room, its
  MAC has no owner, its host number is free again and its frame queue is closed with what it
  still held. All other peers are untouched. The room disappears from the manager exactly
  if it was the last peer, and leaving a second time does nothing.\<close>

theorem leave_releases:
  assumes "store_inv s" and "k < length (roomHeap s)" and "p \<in> live (roomHeap s ! k)" and "s' = RemovePeer p k s"
  shows "store_inv s' \<and> live (roomHeap s' ! k) = live (roomHeap s ! k) - {p}
    \<and> map_of (r_macToPeer (roomHeap s' ! k)) (p_MAC (peerHeap s ! p)) = None
    \<and> host_owned (roomHeap s' ! k) = host_owned (roomHeap s ! k) - {peer_host (peerHeap s ! p)}
    \<and> peerHeap s' = (peerHeap s)[p := closeFrames (peerHeap s ! p)] \<and> chan_closed (p_Frames (peerHeap s' ! p))
    \<and> (Manager_Room (r_name (roomHeap s ! k)) s' = None \<longleftrightarrow> live (roomHeap s ! k) = {p})
    \<and> RemovePeer p k s' = s'"
proof -
  let ?r = "roomHeap s ! k"
  obtain r' b where r': "room_inv (peerHeap s) k r'" "live r' = live ?r - {p}"
    and heap: "roomHeap s' ! k = r'\<lparr>r_closed := b\<rparr>"
    and ph: "peerHeap s' = (peerHeap s)[p := closeFrames (peerHeap s ! p)]"
    using RemovePeer_room [OF assms(1-3)] unfolding assms(4) by metis
  note rinv = store_room_inv [OF assms(1,2)]
  have pl: "p < length (peerHeap s)" "\<not> p_closing (peerHeap s ! p)"
    using rinv assms(3) by (auto simp: room_inv_def peer_ok_def)
  have "map_of (r_macToPeer r') (p_MAC (peerHeap s ! p)) \<noteq> Some q" for q
    using mac_lookup [OF r'(1)] r'(2) mac_owner_unique [OF rinv _ assms(3)] by auto
  then have "map_of (r_macToPeer r') (p_MAC (peerHeap s ! p)) = None" by (metis not_None_eq)
  then have mac: "map_of (r_macToPeer (roomHeap s' ! k)) (p_MAC (peerHeap s ! p)) = None" by (simp add: heap)
  have own: "host_owned r' = (\<lambda>q. peer_host (peerHeap s ! q)) ` (live ?r - {p})"
    "host_owned ?r = (\<lambda>q. peer_host (peerHeap s ! q)) ` live ?r" "inj_on (\<lambda>q. peer_host (peerHeap s ! q)) (live ?r)"
    using r' rinv by (simp_all add: room_inv_def host_ok_def)
  have hosts: "host_owned (roomHeap s' ! k) = host_owned ?r - {peer_host (peerHeap s ! p)}"
    using own inj_on_image_set_diff [OF own(3), of "live ?r" "{p}"] assms(3) by (simp add: heap host_owned_def)
  have "p_ID (peerHeap s' ! p) = p_ID (peerHeap s ! p)" using ph pl by (simp add: closeFrames_def)
  moreover have live': "live (roomHeap s' ! k) = live ?r - {p}" using r'(2) heap live_closed by simp
  then have "map_of (r_peers (roomHeap s' ! k)) i \<noteq> Some p" for i using lookup_live by fastforce
  ultimately have "RemovePeer p k s' = s'" by (simp add: RemovePeer_def removePeerLocked_def Let_def)
  then show ?thesis
    using live' mac hosts ph pl RemovePeer_registration [OF assms(1-3)] RemovePeer_inv [OF assms(1,2), of p] assms(4)
    by (simp add: closeFrames_def close_chan_def)
qed

theorem leave_releases_witness: "live (roomHeap (RemovePeer 0 0 demo2) ! 0) = {1} \<and> Manager_Room ''lobby'' (RemovePeer 0 0 demo2) \<noteq> None"
proof -
  have "r_name (roomHeap demo2 ! 0) = ''lobby''" by code_simp
  then show ?thesis using leave_releases [OF demo_inv _ _ refl, of 0 0] demo_members by auto
qed

section \<open>Rooms and the pool\<close>

lemma live_rooms_card: "store_inv s \<Longrightarrow> card (live_rooms s) = card (room_owned (mgr s))"
  using store_invD(6,7) [of s] by (metis card_image)

lemma card_room_ids:
  assumes "pool_ok (m_pool m)"
  shows "card (room_ids m) = 2 ^ (24 - nat (pfx_bits (m_pool m)))"
proof -
  have big: "x < unat (maxRooms m) \<Longrightarrow> unat (of_nat x :: u32) = x" for x
    using unsigned_less [of "maxRooms m", where 'a = nat] by (intro unat_of_nat_u32) simp
  have "{0 ..< maxRooms m} = of_nat ` {0 ..< unat (maxRooms m)}"
    by (rule set_eqI) (auto simp: word_less_nat_alt image_iff big intro!: bexI [of _ "unat _"])
  moreover have "inj_on (of_nat :: nat \<Rightarrow> u32) {0 ..< unat (maxRooms m)}"
    by (rule inj_onI) (metis big atLeastLessThan_iff)
  ultimately show ?thesis unfolding room_ids_def using maxRooms_pool [OF assms] by (simp add: card_image)
qed

text \<open>C15. A room name that is not in use gets a room of its own unless the pool is used up: the
  answer is that the pool is full exactly if as many rooms are registered as the pool has
  /24 networks, and otherwise a room is created that is empty, open and registered under the
  name.\<close>

theorem pool_capacity:
  assumes "store_inv s" and "Manager_Room name s = None"
  shows "(card (live_rooms s) = 2 ^ (24 - nat (pfx_bits (m_pool (mgr s)))) \<longrightarrow>
            getOrCreateRoom name now s = (s, Inl ErrPoolFull))
    \<and> (card (live_rooms s) \<noteq> 2 ^ (24 - nat (pfx_bits (m_pool (mgr s)))) \<longrightarrow>
         (\<exists>s'. getOrCreateRoom name now s = (s', Inr (length (roomHeap s))) \<and> store_inv s'
            \<and> live_rooms s' = insert (length (roomHeap s)) (live_rooms s)
            \<and> r_peers (roomHeap s' ! length (roomHeap s)) = [] \<and> Manager_Room name s' = Some (length (roomHeap s))))"
proof -
  note D = store_invD [OF assms(1)]
  note fails = room_index.alloc_fails_iff [OF D(2), unfolded card_room_ids [OF D(1)], folded live_rooms_card [OF assms(1)]]
  show ?thesis using D(1)
  proof (cases rule: getOrCreateRoom_cases [of s name now])
    case (known room)
    then show ?thesis using assms(2) by (simp add: Manager_Room_def)
  next
    case exhausted
    then show ?thesis using fails by auto
  next
    case (created m1 idx)
    have "card (live_rooms s) \<noteq> 2 ^ (24 - nat (pfx_bits (m_pool (mgr s))))" using fails created(2) by auto
    then show ?thesis
      using created(3) getOrCreateRoom_inv [OF assms(1) created(3)] getOrCreateRoom_open(2) [OF assms(1) created(3)]
      by (auto simp: Manager_Room_def live_rooms_def freshRoom_def)
  qed
qed

theorem pool_capacity_witness: "\<exists>s'. getOrCreateRoom ''den'' 9 demo2 = (s', Inr 1) \<and> live_rooms s' = {1, 0}"
proof -
  have "Manager_Room ''den'' demo2 = None" "nat (pfx_bits (m_pool (mgr demo2))) = 16" by code_simp+
  then show ?thesis using pool_capacity [OF demo_inv, of "''den''" 9] demo_members by auto
qed

text \<open>C21. A room whose creation was not followed by a successful join stays: a join of an unused
  room name with a requested MAC that the relay refuses fails, but it leaves an empty room
  registered under the name, which holds a /24 of the pool. Only a peer that joins the room
  and leaves it again gives the network back.\<close>

theorem refused_join_keeps_room:
  assumes "store_inv s" and "Manager_Room name s = None"
    and "card (live_rooms s) \<noteq> 2 ^ (24 - nat (pfx_bits (m_pool (mgr s))))"
    and "cloneMAC (opt_RequestedMAC opt) = Some mac" and "\<not> validPeerMAC mac" and "d_id d = Some b"
  shows "\<exists>s' room. Manager_Join name [opt] (d # ds) s = (s', Some (Inl ErrMACInvalid))
    \<and> Manager_Room name s' = Some room \<and> PeerCount room s' = 0 \<and> card (live_rooms s') = card (live_rooms s) + 1"
proof -
  note D = store_invD [OF assms(1)]
  note fails = room_index.alloc_fails_iff [OF D(2), unfolded card_room_ids [OF D(1)], folded live_rooms_card [OF assms(1)]]
  show ?thesis using D(1)
  proof (cases rule: getOrCreateRoom_cases [of s name "d_now d"])
    case (created m1 idx)
    let ?n = "length (roomHeap s)"
    obtain s' where s': "getOrCreateRoom name (d_now d) s = (s', Inr ?n)"
      "live_rooms s' = insert ?n (live_rooms s)" "r_peers (roomHeap s' ! ?n) = []"
      using created(3) by (auto simp: live_rooms_def freshRoom_def)
    note op = getOrCreateRoom_open [OF assms(1) s'(1)]
    have "AddPeer ?n [opt] d s' = (s', Inl ErrMACInvalid)"
      using op(3) assms(4-6) by (simp add: AddPeer_def randomHex_def chooseMAC_def)
    moreover have "finite (live_rooms s)" "?n \<notin> live_rooms s" using D(4) by (auto simp: live_rooms_def)
    ultimately show ?thesis using s' op(2) by (auto simp: Let_def Manager_Room_def PeerCount_def)
  qed (use assms(2,3) fails in \<open>auto simp: Manager_Room_def\<close>)
qed

theorem refused_join_keeps_room_witness:
  "\<exists>s' room. Manager_Join ''den'' [\<lparr>opt_DisplayName = ''x'', opt_RequestedMAC = Some [1, 0, 0, 0, 0, 0], opt_Features = []\<rparr>] [demo_draw 3] demo2
     = (s', Some (Inl ErrMACInvalid)) \<and> Manager_Room ''den'' s' = Some room \<and> PeerCount room s' = 0"
proof -
  have "Manager_Room ''den'' demo2 = None" "nat (pfx_bits (m_pool (mgr demo2))) = 16"
    "cloneMAC (Some [1, 0, 0, 0, 0, 0]) = Some [1, 0, 0, 0, 0, 0]" "\<not> validPeerMAC [1, 0, 0, 0, 0, 0]" by code_simp+
  then show ?thesis
    using refused_join_keeps_room [OF demo_inv, of "''den''" "\<lparr>opt_DisplayName = ''x'', opt_RequestedMAC = Some [1, 0, 0, 0, 0, 0], opt_Features = []\<rparr>"
        "[1, 0, 0, 0, 0, 0]" "demo_draw 3" "[1, 2, 3, 4, 5, 6, 7, 3]" "[]"] demo_members
    by (auto simp: demo_draw_def)
qed

end
