(* ===== verification/Relay_Flow.thy ===== *)
theory Relay_Flow
  imports Relay_Life
begin

text \<open>
  Traffic through the relay: the queue of each peer, the race between forwarding and leaving,
  the rate limit, the notifications of the control stream and the status snapshots.
\<close>

section \<open>Queues\<close>

text \<open>A peer handed a list of frames one after the other, with the answers of \<^verbatim>\<open>Enqueue\<close>.\<close>

fun enqueue_all :: "bytes list \<Rightarrow> Peer \<Rightarrow> (Peer \<times> bool list) option" where
  "enqueue_all [] p = Some (p, [])"
| "enqueue_all (f # fs) p =
     (case Enqueue f p of
        None \<Rightarrow> None
      | Some (p1, ok) \<Rightarrow>
          (case enqueue_all fs p1 of None \<Rightarrow> None | Some (p2, oks) \<Rightarrow> Some (p2, ok # oks)))"

lemma enqueue_all_full:
  "\<not> chan_closed (p_Frames p) \<Longrightarrow> chan_cap (p_Frames p) \<le> length (chan_buf (p_Frames p)) \<Longrightarrow>
     enqueue_all fs p = Some (p\<lparr>p_dropFrames := p_dropFrames p + of_nat (length fs),
       p_dropBytes := p_dropBytes p + of_nat (sum_list (map length fs))\<rparr>, replicate (length fs) False)"
  by (induction fs arbitrary: p) (simp_all add: Enqueue_def try_send_def RecordDropFrame_def add.assoc)

lemma enqueue_all_room:
  "\<not> chan_closed (p_Frames p) \<Longrightarrow> length (chan_buf (p_Frames p)) + length fs \<le> chan_cap (p_Frames p) \<Longrightarrow>
     enqueue_all fs p = Some (p\<lparr>p_Frames := (p_Frames p)\<lparr>chan_buf := chan_buf (p_Frames p) @ fs\<rparr>,
       p_txFrames := p_txFrames p + of_nat (length fs),
       p_txBytes := p_txBytes p + of_nat (sum_list (map length fs))\<rparr>, replicate (length fs) True)"
  by (induction fs arbitrary: p) (simp_all add: Enqueue_def try_send_def RecordTxFrame_def add.assoc)

lemma enqueue_all_append:
  "enqueue_all (fs @ gs) p =
     (case enqueue_all fs p of
        None \<Rightarrow> None
      | Some (p1, oks) \<Rightarrow>
          (case enqueue_all gs p1 of None \<Rightarrow> None | Some (p2, oks2) \<Rightarrow> Some (p2, oks @ oks2)))"
  by (induction fs arbitrary: p) (auto split: option.splits)

text \<open>A peer's queue is first-in first-out with tail drop: of the frames it is handed, the
  first ones that fit are queued in order behind what is already there and counted as sent,
  all later ones are refused and counted as dropped, and no frame is lost without being
  counted. A peer with an open queue never makes the relay panic.\<close>

lemma queue_tail_drop:
  assumes "\<not> chan_closed (p_Frames p)"
    and "n = min (length fs) (chan_cap (p_Frames p) - length (chan_buf (p_Frames p)))"
  shows "enqueue_all fs p = Some
    (p\<lparr>p_Frames := (p_Frames p)\<lparr>chan_buf := chan_buf (p_Frames p) @ take n fs\<rparr>,
       p_txFrames := p_txFrames p + of_nat n,
       p_txBytes := p_txBytes p + of_nat (sum_list (map length (take n fs))),
       p_dropFrames := p_dropFrames p + of_nat (length fs - n),
       p_dropBytes := p_dropBytes p + of_nat (sum_list (map length (drop n fs)))\<rparr>,
     replicate n True @ replicate (length fs - n) False)"
proof (cases "n = length fs")
  case True
  then have "fs = [] \<or> length (chan_buf (p_Frames p)) + length fs \<le> chan_cap (p_Frames p)"
    using assms(2) by (cases fs) auto
  then show ?thesis using True enqueue_all_room [OF assms(1), of fs] by auto
next
  case False
  have fits: "length (chan_buf (p_Frames p)) + length (take n fs) \<le> chan_cap (p_Frames p) \<or> n = 0"
    using assms(2) by auto
  show ?thesis
  proof (cases "n = 0")
    case True
    then have "chan_cap (p_Frames p) \<le> length (chan_buf (p_Frames p))" using False assms(2) by auto
    then show ?thesis using enqueue_all_full [OF assms(1)] True by simp
  next
    case n0: False
    then have room: "length (chan_buf (p_Frames p)) + length (take n fs) \<le> chan_cap (p_Frames p)" using fits by simp
    have "chan_cap (p_Frames p) \<le> length (chan_buf (p_Frames p)) + n" "n \<le> length fs" using False assms(2) by auto
    then show ?thesis
      using enqueue_all_append [of "take n fs" "drop n fs" p] enqueue_all_room [OF assms(1) room]
      by (simp add: enqueue_all_full assms(1) min_def)
  qed
qed

text \<open>As long as a peer is registered in its room its queue is open, in every reachable
  state: handing it a frame succeeds or drops the frame, it does not panic.\<close>

lemma registered_queue_open:
  assumes "reachable pool c" and "pool_ok pool"
    and "k < length (roomHeap (sys_store c))" and "p \<in> live (roomHeap (sys_store c) ! k)"
  shows "Enqueue frame (peerHeap (sys_store c) ! p) \<noteq> None"
proof -
  have "store_inv (sys_store c)" using reachable_inv [OF assms(1,2)] by (simp add: sys_inv_def)
  then have "\<not> chan_closed (p_Frames (peerHeap (sys_store c) ! p))"
    using store_room_inv [OF _ assms(3)] assms(4) by (auto simp: room_inv_def peer_ok_def)
  then show ?thesis by (auto simp: Enqueue_def try_send_def split: send_result.splits if_splits)
qed

section \<open>Forwarding against leaving\<close>

text \<open>C17. The targets of a frame are collected under the room's lock and their queues are used
  after it is released. From every reachable state with two peers \<open>p\<close> and \<open>q\<close> in a room
  there is therefore an interleaving in which \<open>q\<close> leaves and its queue is closed in between,
  so that the forwarding of a frame from \<open>p\<close> to \<open>q\<close> ends in a send on a closed channel, a panic.\<close>

theorem forward_leave_race:
  assumes "reachable pool c" and "pool_ok pool"
    and k: "k < length (roomHeap (sys_store c))"
    and p: "p \<in> live (roomHeap (sys_store c) ! k)" and q: "q \<in> live (roomHeap (sys_store c) ! k)" and "p \<noteq> q"
  shows "\<exists>c'. reachable pool c' \<and> sys_panic c'"
proof -
  let ?s = "sys_store c" and ?js = "sys_jobs c" and ?b = "sys_panic c"
  have inv: "store_inv ?s" using reachable_inv [OF assms(1,2)] by (simp add: sys_inv_def)
  note rinv = store_room_inv [OF inv k]
  have mac: "validPeerMAC (p_MAC (peerHeap ?s ! p))" "validPeerMAC (p_MAC (peerHeap ?s ! q))"
    and room: "p_Room (peerHeap ?s ! p) = k" "p_Room (peerHeap ?s ! q) = k"
    and alloc: "p < length (peerHeap ?s)" "q < length (peerHeap ?s)"
    using rinv p q by (auto simp: room_inv_def peer_ok_def)
  have len: "length (p_MAC (peerHeap ?s ! p)) = 6" "length (p_MAC (peerHeap ?s ! q)) = 6"
    and uni: "\<not> isBroadcast (p_MAC (peerHeap ?s ! q))" "\<not> isMulticast (p_MAC (peerHeap ?s ! q))"
    using mac by (auto simp: validPeerMAC_def)
  define frame where "frame = p_MAC (peerHeap ?s ! q) @ p_MAC (peerHeap ?s ! p) @ [8, 0]"
  have "map_of (r_macToPeer (roomHeap ?s ! k)) (p_MAC (peerHeap ?s ! q)) = Some q"
    using mac_lookup [OF rinv] q by blast
  then have fwd: "Forward k p frame ?s = Some (?s, Inr [q])"
    using Forward_registered [OF inv k live_lookup [OF rinv p], of frame] len uni \<open>p \<noteq> q\<close>
    by (simp add: frame_def Let_def)
  have "relay_step c \<lparr>sys_store = ?s, sys_jobs = JSend [q] frame # ?js, sys_panic = ?b\<rparr>"
    using relay_step.forward [OF alloc(1) room(1) [symmetric] fwd, of ?js ?b] by (cases c) simp
  then have r1: "reachable pool \<lparr>sys_store = ?s, sys_jobs = JSend [q] frame # ?js, sys_panic = ?b\<rparr>"
    using assms(1) by (blast intro: reachable.step)
  obtain s1 e where rem: "removePeerLocked q k ?s = (s1, Some e)"
    using live_lookup [OF rinv q] by (simp add: removePeerLocked_def Let_def)
  note r2 = reachable.step [OF r1 relay_step.remove [OF alloc(2) room(2) [symmetric] rem]]
  let ?s2 = "set_peer q (closeFrames (peerHeap s1 ! q)) s1"
  note r3 = reachable.step [OF r2 relay_step.close [of s1 "[]" q k e, unfolded append_Nil]]
  have "chan_closed (p_Frames (peerHeap ?s2 ! q))"
    using removePeerLocked_heaps [OF rem] alloc(2) rinv q
    by (auto simp: set_peer_def closeFrames_def close_chan_def room_inv_def peer_ok_def)
  then have "Enqueue frame (peerHeap ?s2 ! q) = None" by (simp add: Enqueue_def try_send_def)
  then have "relay_step \<lparr>sys_store = ?s2, sys_jobs = rest @ JSend [q] frame # ?js, sys_panic = ?b\<rparr>
      \<lparr>sys_store = ?s2, sys_jobs = rest @ ?js, sys_panic = True\<rparr>" for rest
    by (rule relay_step.send_panic)
  note r4 = reachable.step [OF r3 this]
  show ?thesis by (rule exI, rule conjI, rule r4) simp
qed

theorem forward_leave_race_witness: "\<exists>c'. reachable demo_pool c' \<and> sys_panic c'"
  using forward_leave_race [OF demo_reachable2 demo_pool_ok, of 0 0 1] demo_members by (simp add: demo_sys_def)

section \<open>Rate limit\<close>

text \<open>
  A sequence of calls of \<^verbatim>\<open>AllowFrame\<close> with the log of the accepted frames: the instant each
  was accepted at, and its size; and the sizes of the frames accepted in the second of real
  time that begins at an instant.
\<close>

definition allow_step :: "Peer \<times> (time \<times> nat) list \<Rightarrow> time \<times> nat \<Rightarrow> Peer \<times> (time \<times> nat) list" where
  "allow_step = (\<lambda>(p, log) (now, sz).
     case AllowFrame sz now p of (p1, ok) \<Rightarrow> (p1, if ok then log @ [(now, sz)] else log))"

definition accepted_in :: "time \<Rightarrow> (time \<times> nat) list \<Rightarrow> nat list" where
  "accepted_in t log = map snd (filter (\<lambda>e. t \<le> fst e \<and> fst e < t + 1000000000) log)"

lemma accepted_in_snoc:
  "accepted_in t (log @ [(now, sz)]) = accepted_in t log @ (if t \<le> now \<and> now < t + 1000000000 then [sz] else [])"
  by (simp add: accepted_in_def)

lemma accepted_in_over: "\<forall>e \<in> set log. fst e < t \<Longrightarrow> accepted_in t log = []"
  by (auto simp: accepted_in_def filter_empty_conv)

text \<open>Windows: their starts are at least a second apart, in the order they were opened.\<close>

definition windows_apart :: "time list \<Rightarrow> bool" where
  "windows_apart ws = sorted_wrt (\<lambda>v w. v + 1000000000 \<le> w) ws"

lemma windows_apart_pair:
  "windows_apart ws \<Longrightarrow> v \<in> set ws \<Longrightarrow> w \<in> set ws \<Longrightarrow> v < w \<Longrightarrow> v + 1000000000 \<le> w"
  unfolding windows_apart_def by (induction ws) fastforce+

definition rate_inv :: "time list \<Rightarrow> Peer \<times> (time \<times> nat) list \<Rightarrow> bool" where
  "rate_inv ws = (\<lambda>(p, log).
     windows_apart ws
     \<and> (\<forall>e \<in> set log. \<exists>w \<in> set ws. w \<le> fst e \<and> fst e < w + 1000000000)
     \<and> (\<forall>w \<in> set ws. w \<le> p_windowStart p \<and> int (length (accepted_in w log)) \<le> maxPeerFrames
          \<and> int (sum_list (accepted_in w log)) \<le> maxPeerBytes)
     \<and> (if p_windowStart p = 0 then ws = []
        else p_windowStart p \<in> set ws
          \<and> p_windowFrames p = int (length (accepted_in (p_windowStart p) log))
          \<and> p_windowBytes p = int (sum_list (accepted_in (p_windowStart p) log))))"

lemma window_opens:
  "frameRateWindow \<le> time_Sub now w \<longleftrightarrow> w + 1000000000 \<le> now"
  by (auto simp: time_Sub_def frameRateWindow_def second_def)

text \<open>The refresh of the window keeps the bookkeeping, whether it opens a new window or not.\<close>

definition refreshed :: "time \<Rightarrow> Peer \<Rightarrow> Peer" where
  "refreshed now p =
     (if p_windowStart p = 0 \<or> p_windowStart p + 1000000000 \<le> now
      then p\<lparr>p_windowStart := now, p_windowFrames := 0, p_windowBytes := 0\<rparr> else p)"

lemma AllowFrame_refreshed:
  "AllowFrame sz now p =
     (let p1 = refreshed now p
      in if 5000 < p_windowFrames p1 + 1 \<or> 20 * 1024 * 1024 < p_windowBytes p1 + int sz then (p1, False)
         else (p1\<lparr>p_windowFrames := p_windowFrames p1 + 1, p_windowBytes := p_windowBytes p1 + int sz\<rparr>, True))"
  by (simp add: AllowFrame_def refreshed_def window_opens maxPeerFrames_def maxPeerBytes_def)

lemma refreshed_inv:
  assumes inv: "rate_inv ws (p, log)" and now: "0 < now" "p_windowStart p \<le> now"
  obtains ws1 where "rate_inv ws1 (refreshed now p, log)"
proof (cases "p_windowStart p = 0 \<or> p_windowStart p + 1000000000 \<le> now")
  case fresh: True
  have before: "w + 1000000000 \<le> now" if "w \<in> set ws" for w
    using that inv fresh by (auto simp: rate_inv_def split: if_splits)
  then have over: "accepted_in now log = []"
    using inv by (intro accepted_in_over) (force simp: rate_inv_def)
  have "windows_apart (ws @ [now])"
    using inv before by (auto simp: rate_inv_def windows_apart_def sorted_wrt_append)
  moreover have "w \<le> now" if "w \<in> set ws" for w using before [OF that] by simp
  ultimately have "rate_inv (ws @ [now]) (refreshed now p, log)"
    using inv now(1) fresh over by (auto simp: rate_inv_def refreshed_def maxPeerFrames_def maxPeerBytes_def)
  then show thesis by (rule that)
next
  case False
  then show thesis using that [of ws] inv by (simp add: refreshed_def)
qed

lemma accepted_inv:
  assumes inv: "rate_inv ws (p, log)" and now: "p_windowStart p \<noteq> 0" "p_windowStart p \<le> now" "now < p_windowStart p + 1000000000"
    and fits: "p_windowFrames p + 1 \<le> maxPeerFrames" "p_windowBytes p + int sz \<le> maxPeerBytes"
  shows "rate_inv ws (p\<lparr>p_windowFrames := p_windowFrames p + 1, p_windowBytes := p_windowBytes p + int sz\<rparr>, log @ [(now, sz)])"
proof -
  have cur: "p_windowStart p \<in> set ws" using inv now(1) by (simp add: rate_inv_def)
  have "\<not> now < w + 1000000000" if "w \<in> set ws" "w \<noteq> p_windowStart p" for w
    using windows_apart_pair [of ws w "p_windowStart p"] inv that cur now(2) by (auto simp: rate_inv_def)
  then show ?thesis
    using inv now fits cur by (auto simp: rate_inv_def accepted_in_snoc)
qed

lemma AllowFrame_rate_inv:
  assumes inv: "rate_inv ws (p, log)" and now: "0 < now" "p_windowStart p \<le> now" and run: "AllowFrame sz now p = (p1, ok)"
  obtains ws1 where "rate_inv ws1 (p1, if ok then log @ [(now, sz)] else log)" and "p_windowStart p1 \<le> now"
proof -
  let ?p = "refreshed now p"
  obtain ws1 where ws1: "rate_inv ws1 (?p, log)" using refreshed_inv [OF inv now] .
  have w: "p_windowStart ?p \<noteq> 0" "p_windowStart ?p \<le> now" "now < p_windowStart ?p + 1000000000"
    using now by (auto simp: refreshed_def)
  note acc = accepted_inv [OF ws1 w, of sz]
  show thesis
    using run that [of ws1] ws1 acc w(2)
    by (auto simp: AllowFrame_refreshed Let_def maxPeerFrames_def maxPeerBytes_def split: if_splits)
qed

lemma allow_run_inv:
  assumes "rate_inv ws st" and "sorted (map fst calls)" and "\<forall>c \<in> set calls. 0 < fst c \<and> p_windowStart (fst st) \<le> fst c"
  shows "\<exists>ws'. rate_inv ws' (foldl allow_step st calls)"
  using assms
proof (induction calls arbitrary: ws st)
  case (Cons c calls)
  obtain p log now sz where st: "st = (p, log)" "c = (now, sz)" by (metis surj_pair)
  obtain p1 ok where run: "AllowFrame sz now p = (p1, ok)" by fastforce
  have "0 < now" "p_windowStart p \<le> now" using Cons.prems(3) st by auto
  from AllowFrame_rate_inv [OF Cons.prems(1) [unfolded st(1)] this run]
  obtain ws1 where ws1: "rate_inv ws1 (p1, if ok then log @ [(now, sz)] else log)" "p_windowStart p1 \<le> now" .
  have later: "now \<le> fst c'" if "c' \<in> set calls" for c' using Cons.prems(2) that st by auto
  have "\<exists>ws'. rate_inv ws' (foldl allow_step (p1, if ok then log @ [(now, sz)] else log) calls)"
  proof (rule Cons.IH [OF ws1(1)])
    show "sorted (map fst calls)" using Cons.prems(2) by simp
    show "\<forall>c \<in> set calls. 0 < fst c \<and> p_windowStart (fst (p1, if ok then log @ [(now, sz)] else log)) \<le> fst c"
      using Cons.prems(3) later ws1(2) by fastforce
  qed
  then show ?case using st run by (simp add: allow_step_def)
qed auto

text \<open>A second of real time meets at most two windows.\<close>

lemma filter_two:
  assumes "\<forall>e \<in> set log. P e \<longrightarrow> Q e \<or> R e"
  shows "length (filter P log) \<le> length (filter Q log) + length (filter R log)"
    and "sum_list (map f (filter P log)) \<le> sum_list (map f (filter Q log)) + (sum_list (map f (filter R log)) :: nat)"
  using assms by (induction log) auto

lemma two_windows:
  assumes apart: "windows_apart ws" and cover: "\<forall>e \<in> set log. \<exists>w \<in> set ws. w \<le> fst e \<and> fst e < w + 1000000000"
  obtains "accepted_in t log = []"
  | u v where "u \<in> set ws" and "v \<in> set ws" and "length (accepted_in t log) \<le> length (accepted_in u log) + length (accepted_in v log)"
      and "sum_list (accepted_in t log) \<le> sum_list (accepted_in u log) + sum_list (accepted_in v log)"
proof -
  define near where "near w \<longleftrightarrow> w \<in> set ws \<and> t < w + 1000000000 \<and> w < t + 1000000000" for w
  have one: "v = w" if "near v" "near w" "v \<le> t \<longleftrightarrow> w \<le> t" for v w
    using windows_apart_pair [OF apart, of v w] windows_apart_pair [OF apart, of w v] that
    by (cases v w rule: linorder_cases) (auto simp: near_def)
  have hit: "\<exists>w. near w \<and> w \<le> fst e \<and> fst e < w + 1000000000"
    if "e \<in> set log" "t \<le> fst e" "fst e < t + 1000000000" for e
    using bspec [OF cover that(1)] that(2,3) by (auto simp: near_def)
  show thesis
  proof (cases "\<exists>w. near w")
    case False
    then have "accepted_in t log = []" using hit by (fastforce simp: accepted_in_def filter_empty_conv)
    then show thesis by (rule that(1))
  next
    case True
    then obtain w where w: "near w" by blast
    obtain u v where uv: "near u" "near v" "\<And>x. near x \<Longrightarrow> x = u \<or> x = v"
    proof (cases "\<exists>x. near x \<and> (x \<le> t) \<noteq> (w \<le> t)")
      case True
      then show thesis using w that one by metis
    next
      case False
      then show thesis using w that [of w w] one by metis
    qed
    have "\<forall>e \<in> set log. t \<le> fst e \<and> fst e < t + 1000000000 \<longrightarrow>
        (u \<le> fst e \<and> fst e < u + 1000000000) \<or> (v \<le> fst e \<and> fst e < v + 1000000000)"
      using hit uv(3) by metis
    note two = filter_two [OF this]
    have "u \<in> set ws" "v \<in> set ws" using uv(1,2) by (simp_all add: near_def)
    then show thesis using that(2) two(1) two(2) [of snd] by (simp add: accepted_in_def)
  qed
qed

text \<open>A frame is refused only by the limit: within the limits of the current window, and
  always when a new window opens (the first frame, or a second after the window started) and
  the frame is not larger than 20 MiB, it is accepted.\<close>

lemma rate_admits:
  assumes "sz \<le> 20 * 1024 * 1024"
    and "p_windowStart p = 0 \<or> second \<le> time_Sub now (p_windowStart p)
         \<or> (p_windowFrames p < 5000 \<and> p_windowBytes p + int sz \<le> 20 * 1024 * 1024)"
  shows "snd (AllowFrame sz now p)"
  using assms by (auto simp: AllowFrame_def Let_def frameRateWindow_def maxPeerFrames_def maxPeerBytes_def)

text \<open>After a second without an accepted frame the counters no longer stand in the way.\<close>

lemma rate_recovers:
  assumes inv: "rate_inv ws (p, log)" and quiet: "\<forall>e \<in> set log. fst e + 1000000000 \<le> now"
    and sz: "sz \<le> 20 * 1024 * 1024"
  shows "snd (AllowFrame sz now p)"
proof (cases "p_windowStart p = 0 \<or> p_windowStart p + 1000000000 \<le> now")
  case True
  then show ?thesis using sz by (simp add: AllowFrame_refreshed refreshed_def)
next
  case False
  then have "accepted_in (p_windowStart p) log = []" using quiet by (intro accepted_in_over) force
  then show ?thesis
    using inv False sz by (simp add: AllowFrame_refreshed refreshed_def rate_inv_def)
qed

text \<open>C12. The rate limit, in real time, for any frames of a new peer: the accepted frames fall
  into windows of a second that begin at least a second apart, and in each of them at most
  5000 frames with at most 20 MiB in all are accepted. So no second whatever sees more than
  twice that. And the limit is no more than that: a frame of at most 20 MiB that comes
  when none was accepted for a second is accepted.\<close>

theorem rate_limited:
  assumes "p_windowStart p = 0" and "p_windowFrames p = 0" and "p_windowBytes p = 0"
    and "sorted (map fst calls)" and "\<forall>c \<in> set calls. 0 < fst c" and "foldl allow_step (p, []) calls = (p', log)"
  shows "(\<exists>ws. sorted_wrt (\<lambda>v w. v + 1000000000 \<le> w) ws
      \<and> (\<forall>e \<in> set log. \<exists>w \<in> set ws. w \<le> fst e \<and> fst e < w + 1000000000)
      \<and> (\<forall>w \<in> set ws. length (accepted_in w log) \<le> 5000 \<and> sum_list (accepted_in w log) \<le> 20 * 1024 * 1024))
    \<and> (\<forall>t. length (accepted_in t log) \<le> 2 * 5000 \<and> sum_list (accepted_in t log) \<le> 2 * (20 * 1024 * 1024))
    \<and> (\<forall>now sz. (\<forall>e \<in> set log. fst e + 1000000000 \<le> now) \<and> sz \<le> 20 * 1024 * 1024 \<longrightarrow> snd (AllowFrame sz now p'))"
proof -
  have "rate_inv [] (p, [])" using assms(1) by (simp add: rate_inv_def windows_apart_def)
  then obtain ws where inv: "rate_inv ws (p', log)"
    using allow_run_inv [of "[]" "(p, [])" calls] assms by (auto intro: less_imp_le)
  then have ws: "windows_apart ws" "\<forall>e \<in> set log. \<exists>w \<in> set ws. w \<le> fst e \<and> fst e < w + 1000000000"
    by (simp_all add: rate_inv_def)
  have lim: "length (accepted_in w log) \<le> 5000" "sum_list (accepted_in w log) \<le> 20 * 1024 * 1024" if "w \<in> set ws" for w
    using inv that by (auto simp: rate_inv_def maxPeerFrames_def maxPeerBytes_def)
  have "length (accepted_in t log) \<le> 2 * 5000 \<and> sum_list (accepted_in t log) \<le> 2 * (20 * 1024 * 1024)" for t
    using ws
  proof (cases rule: two_windows [where t = t])
    case (2 u v)
    then show ?thesis using lim [of u] lim [of v] by linarith
  qed simp
  moreover have "snd (AllowFrame sz now p')" if "\<forall>e \<in> set log. fst e + 1000000000 \<le> now" "sz \<le> 20 * 1024 * 1024" for now sz
    using rate_recovers [OF inv that] .
  ultimately show ?thesis using ws lim unfolding windows_apart_def by blast
qed

text \<open>In the witness the second frame fills the window, the third is refused, and a second
  after the first the window is new.\<close>

theorem rate_limited_witness:
  "foldl allow_step (demo_peer1, []) [(5, 20971519), (6, 1), (7, 1), (1000000005, 9)]
     = (demo_peer1\<lparr>p_windowStart := 1000000005, p_windowFrames := 1, p_windowBytes := 9\<rparr>, [(5, 20971519), (6, 1), (1000000005, 9)])
   \<and> length (accepted_in 5 [(5, 20971519), (6, 1), (1000000005, 9)]) \<le> 2 * 5000"
proof -
  have run: "foldl allow_step (demo_peer1, []) [(5, 20971519), (6, 1), (7, 1), (1000000005, 9)]
     = (demo_peer1\<lparr>p_windowStart := 1000000005, p_windowFrames := 1, p_windowBytes := 9\<rparr>, [(5, 20971519), (6, 1), (1000000005, 9)])"
    by (simp add: allow_step_def AllowFrame_refreshed refreshed_def demo_peer1_def newPeer_def)
  show ?thesis
    using rate_limited [OF _ _ _ _ _ run] run by (simp add: demo_peer1_def newPeer_def)
qed

section \<open>Notifications\<close>

lemma foldl_update_each:
  assumes "distinct ps"
  shows "foldl (\<lambda>xs p. xs[p := f (xs ! p)]) xs ps ! q = (if q \<in> set ps \<and> q < length xs then f (xs ! q) else xs ! q)"
    and "length (foldl (\<lambda>xs p. xs[p := f (xs ! p)]) xs ps) = length xs"
  using assms by (induction ps arbitrary: xs) (auto simp: nth_update_any)

lemma push_notify_eq:
  "\<not> chan_closed (p_Notify p) \<Longrightarrow> push_notify msg p =
     (if length (chan_buf (p_Notify p)) < chan_cap (p_Notify p)
      then (p\<lparr>p_Notify := (p_Notify p)\<lparr>chan_buf := chan_buf (p_Notify p) @ [msg]\<rparr>\<rparr>, True) else (p, False))"
  by (simp add: push_notify_def try_send_def)

text \<open>A broadcast on a room puts the message at the end of the notification queue of every
  registered peer except the excluded one, once each; a peer whose queue is full misses it.
  No other peer of the server is touched, and no room changes.\<close>

lemma broadcast_reaches:
  assumes "store_inv s" and "k < length (roomHeap s)" and "s' = BroadcastNotify k msg exclude s"
  shows "roomHeap s' = roomHeap s \<and> mgr s' = mgr s \<and> length (peerHeap s') = length (peerHeap s)
    \<and> (\<forall>q. peerHeap s' ! q =
          (if q \<in> live (roomHeap s ! k) \<and> Some q \<noteq> exclude then fst (push_notify msg (peerHeap s ! q)) else peerHeap s ! q))"
proof -
  note rinv = store_room_inv [OF assms(1,2)]
  let ?ps = "filter (\<lambda>p. Some p \<noteq> exclude) (map snd (r_peers (roomHeap s ! k)))"
  have d: "distinct ?ps" using live_list(2) [OF rinv] by simp
  have m: "set ?ps = {q \<in> live (roomHeap s ! k). Some q \<noteq> exclude}" using live_list(1) [OF rinv] by auto
  have "q < length (peerHeap s)" if "q \<in> live (roomHeap s ! k)" for q using live_room [OF rinv that] by simp
  then show ?thesis
    using foldl_update_each [OF d, where f = "\<lambda>p. fst (push_notify msg p)" and xs = "peerHeap s"] m
    by (auto simp: assms(3) BroadcastNotify_def Let_def)
qed

section \<open>Snapshots\<close>

lemma mset_map_snd: "mset al = mset bl \<Longrightarrow> mset (map snd al) = mset (map snd bl)"
  by simp

text \<open>The status snapshot does not depend on the order in which Go iterates over its maps:
  two stores that differ only in the order of the entries of the manager's room table and of
  the peer tables of the rooms give the same snapshot, with rooms and peers listed oldest
  first and by name or id among those of the same age.\<close>

lemma snapshot_canonical:
  assumes "store_inv s" and "peerHeap t = peerHeap s" and "m_pool (mgr t) = m_pool (mgr s)"
    and "mset (m_rooms (mgr t)) = mset (m_rooms (mgr s))" and "length (roomHeap t) = length (roomHeap s)"
    and "\<And>k. k < length (roomHeap s) \<Longrightarrow>
           \<exists>ps ms. roomHeap t ! k = (roomHeap s ! k)\<lparr>r_peers := ps, r_macToPeer := ms\<rparr> \<and> mset ps = mset (r_peers (roomHeap s ! k))"
  shows "Manager_Snapshot now t = Manager_Snapshot now s"
proof -
  have rooms: "k < length (roomHeap s)" if "k \<in> set (map snd (m_rooms (mgr s)))" for k
    using that store_invD(4) [OF assms(1)] by (auto simp: live_rooms_def)
  have snaps: "Room_Snapshot t (roomHeap t ! k) = Room_Snapshot s (roomHeap s ! k)" if k: "k < length (roomHeap s)" for k
  proof -
    obtain ps ms where r: "roomHeap t ! k = (roomHeap s ! k)\<lparr>r_peers := ps, r_macToPeer := ms\<rparr>"
      and ps: "mset ps = mset (r_peers (roomHeap s ! k))" using assms(6) [OF k] by blast
    have "set ps = set (r_peers (roomHeap s ! k))" using ps by (metis set_mset_mset)
    then have "sort_key (\<lambda>p. peer_age (peerHeap s ! p)) (map snd ps)
        = sort_key (\<lambda>p. peer_age (peerHeap s ! p)) (map snd (r_peers (roomHeap s ! k)))"
      using peer_age_inj [OF store_room_inv [OF assms(1) k]] mset_map_snd [OF ps]
      by (intro sort_key_perm) (simp_all add: live_def)
    then show ?thesis by (simp add: Room_Snapshot_def r assms(2))
  qed
  have same: "set (m_rooms (mgr t)) = set (m_rooms (mgr s))" using assms(4) by (metis set_mset_mset)
  have age: "room_age (roomHeap t ! k) = room_age (roomHeap s ! k)" if "k \<in> set (map snd (m_rooms (mgr s)))" for k
    using assms(6) [OF rooms [OF that]] by (auto simp: room_age_def)
  have "sort_key (\<lambda>k. room_age (roomHeap t ! k)) (map snd (m_rooms (mgr t)))
      = sort_key (\<lambda>k. room_age (roomHeap s ! k)) (map snd (m_rooms (mgr t)))"
    by (rule sort_key_agree) (use age same in auto)
  also have "\<dots> = sort_key (\<lambda>k. room_age (roomHeap s ! k)) (map snd (m_rooms (mgr s)))"
    using room_age_inj [OF assms(1)] mset_map_snd [OF assms(4)] same
    by (intro sort_key_perm) (simp_all add: live_rooms_def)
  finally show ?thesis
    using snaps rooms by (simp add: Manager_Snapshot_def Let_def assms(3))
qed


end
