(* ===== verification/Ring.thy ===== *)
theory Ring
  imports Prelude
begin

text \<open>
  Recorders that keep the last entries only. The packet capture and the in-memory log both
  stamp an entry with a counter, append it, and shift the oldest one out when the limit is
  reached. Their common contract is the locale \<open>ring_recorder\<close>; the interpretations are in
  \<open>Capture\<close> and \<open>Logmem\<close>.
\<close>

definition last_n :: "nat \<Rightarrow> 'a list \<Rightarrow> 'a list" where
  "last_n n xs = drop (length xs - n) xs"

lemma length_last_n [simp]: "length (last_n n xs) = min n (length xs)"
  by (simp add: last_n_def)

lemma last_n_all: "length xs \<le> n \<Longrightarrow> last_n n xs = xs"
  by (simp add: last_n_def)

lemma last_n_snoc: "last_n n (last_n n xs @ ys) = last_n n (xs @ ys)"
  by (cases "length xs \<le> n") (simp_all add: last_n_def add.commute)

lemma last_n_shift: "length xs = n \<Longrightarrow> 0 < n \<Longrightarrow> last_n n (xs @ [y]) = drop 1 xs @ [y]"
  by (auto simp: last_n_def)

lemma map_last_n: "map f (last_n n xs) = last_n n (map f xs)"
  by (simp add: last_n_def drop_map)

text \<open>
  \<open>push\<close> records one input, \<open>mk\<close> is the entry it makes in a state, \<open>items\<close> the entries kept,
  \<open>cap\<close> the limit; \<open>stamp\<close> reads the number of an entry and \<open>seq\<close> the counter.
\<close>

locale ring_recorder =
  fixes push :: "'x \<Rightarrow> 's \<Rightarrow> 's"
    and mk :: "'x \<Rightarrow> 's \<Rightarrow> 'e"
    and items :: "'s \<Rightarrow> 'e list"
    and cap :: "'s \<Rightarrow> nat"
    and seq :: "'s \<Rightarrow> u64"
    and stamp :: "'e \<Rightarrow> u64"
  assumes items_push: "0 < cap s \<Longrightarrow> length (items s) \<le> cap s \<Longrightarrow> items (push x s) = last_n (cap s) (items s @ [mk x s])"
    and cap_push: "cap (push x s) = cap s"
    and seq_push: "seq (push x s) = seq s + 1"
    and stamp_mk: "stamp (mk x s) = seq s + 1"
begin

primrec made :: "'x list \<Rightarrow> 's \<Rightarrow> 'e list" where
  "made [] s = []"
| "made (x # xs) s = mk x s # made xs (push x s)"

lemma length_made [simp]: "length (made xs s) = length xs"
  by (induction xs arbitrary: s) auto

lemma cap_run: "cap (foldl (\<lambda>s x. push x s) s xs) = cap s"
  by (induction xs arbitrary: s) (auto simp: cap_push)

lemma items_run:
  "0 < cap s \<Longrightarrow> length (items s) \<le> cap s \<Longrightarrow>
     items (foldl (\<lambda>s x. push x s) s xs) = last_n (cap s) (items s @ made xs s)"
proof (induction xs arbitrary: s)
  case Nil
  then show ?case by (simp add: last_n_all)
next
  case (Cons x xs)
  note p = items_push [OF Cons.prems, of x]
  have "items (foldl (\<lambda>s x. push x s) (push x s) xs) = last_n (cap s) (items (push x s) @ made xs (push x s))"
    using Cons.prems p by (subst Cons.IH) (simp_all add: cap_push)
  then show ?case by (simp add: p last_n_snoc)
qed

lemma bounded: "0 < cap s \<Longrightarrow> length (items s) \<le> cap s \<Longrightarrow> length (items (foldl (\<lambda>s x. push x s) s xs)) \<le> cap s"
  by (simp add: items_run)

lemma map_made: "(\<And>x s. f (mk x s) = g x) \<Longrightarrow> map f (made xs s) = map g xs"
  by (induction xs arbitrary: s) auto

lemma stamps_made: "map stamp (made xs s) = map (\<lambda>i. seq s + 1 + of_nat i) [0 ..< length xs]"
proof (induction xs arbitrary: s)
  case (Cons x xs)
  have "[0 ..< Suc (length xs)] = 0 # map Suc [0 ..< length xs]" by (simp add: map_Suc_upt upt_conv_Cons del: upt_Suc)
  then show ?case by (simp add: Cons stamp_mk seq_push add.assoc add.commute del: upt_Suc)
qed simp

end

end
