(* ===== verification/Capture.thy ===== *)
theory Capture
  imports Ring Netaddr
begin

text \<open>
  The packet capture, \<^verbatim>\<open>src/internal/capture/recorder.go\<close>: the parser that turns an Ethernet
  frame into an event for display, and the recorder that keeps the last events. Every slice
  and index expression of the parser is checked, so that \<^term>\<open>None\<close> is the panic of an
  access out of range. A \<^verbatim>\<open>*Recorder\<close> that may be nil is an option.
\<close>

section \<open>Events\<close>

definition capture_DefaultLimit :: int where "capture_DefaultLimit = 100"

record Event =
  ev_Seq :: u64
  ev_Time :: time
  ev_Direction :: string
  ev_Room :: string
  ev_PeerID :: string
  ev_PeerName :: string
  ev_Size :: nat
  ev_Valid :: bool
  ev_EtherType :: string
  ev_TypeName :: string
  ev_Summary :: string
  ev_SrcMAC :: string
  ev_DstMAC :: string
  ev_SrcIP :: string
  ev_DstIP :: string
  ev_IPProto :: string
  ev_SrcPort :: nat
  ev_DstPort :: nat
  ev_VLAN :: bool
  ev_Reason :: string

record Metadata =
  md_Direction :: string
  md_Room :: string
  md_PeerID :: string
  md_PeerName :: string

definition zero_event :: Event where
  "zero_event =
     \<lparr>ev_Seq = 0, ev_Time = 0, ev_Direction = [], ev_Room = [], ev_PeerID = [], ev_PeerName = [],
      ev_Size = 0, ev_Valid = False, ev_EtherType = [], ev_TypeName = [], ev_Summary = [],
      ev_SrcMAC = [], ev_DstMAC = [], ev_SrcIP = [], ev_DstIP = [], ev_IPProto = [],
      ev_SrcPort = 0, ev_DstPort = 0, ev_VLAN = False, ev_Reason = []\<rparr>"

section \<open>Names\<close>

definition ipProtocolName :: "byte \<Rightarrow> string" where
  "ipProtocolName proto =
     (if proto = 1 then ''ICMP'' else if proto = 6 then ''TCP'' else if proto = 17 then ''UDP''
      else if proto = 58 then ''ICMPv6'' else dec_string (unat proto))"

definition ether_types :: "(u16 \<times> string) list" where
  "ether_types =
     [(0x0800, ''IPv4''), (0x0806, ''ARP''), (0x0842, ''Wake-on-LAN''), (0x22f0, ''AVTP''),
      (0x6003, ''DECnet''), (0x8035, ''RARP''), (0x809b, ''AppleTalk''), (0x80f3, ''AARP''),
      (0x8100, ''VLAN''), (0x86dd, ''IPv6''), (0x8808, ''Ethernet Flow Control''),
      (0x8819, ''CobraNet''), (0x8847, ''MPLS unicast''), (0x8848, ''MPLS multicast''),
      (0x8863, ''PPPoE discovery''), (0x8864, ''PPPoE session''), (0x8870, ''Jumbo Frames''),
      (0x888e, ''EAPOL''), (0x88a8, ''Provider Bridge VLAN''), (0x88cc, ''LLDP''),
      (0x88e5, ''MACsec''), (0x88f7, ''PTP'')]"

definition etherTypeName :: "u16 \<Rightarrow> string" where
  "etherTypeName etherType = (case map_of ether_types etherType of Some n \<Rightarrow> n | None \<Rightarrow> ''Unknown'')"

definition hex_ether :: "u16 \<Rightarrow> string" where
  "hex_ether t = ''0x'' @ hex_bytes (PutUint16 t)"

definition arrow :: "Event \<Rightarrow> string" where
  "arrow e = ev_SrcIP e @ '' -> '' @ ev_DstIP e"

section \<open>Transport headers\<close>

definition parsePorts :: "Event \<Rightarrow> bytes \<Rightarrow> string \<Rightarrow> Event option" where
  "parsePorts e payload pre =
     (if length payload < 4 then Some (e\<lparr>ev_Summary := pre @ '' truncated '' @ arrow e\<rparr>)
      else do {
        s \<leftarrow> slice 0 2 payload;
        d \<leftarrow> slice 2 4 payload;
        let sp = unat (Uint16 s);
        let dp = unat (Uint16 d);
        Some (e\<lparr>ev_SrcPort := sp, ev_DstPort := dp,
          ev_Summary := pre @ '' '' @ ev_SrcIP e @ '':'' @ dec_string sp @ '' -> ''
            @ ev_DstIP e @ '':'' @ dec_string dp\<rparr>)
      })"

definition parseICMPv4 :: "Event \<Rightarrow> bytes \<Rightarrow> Event option" where
  "parseICMPv4 e payload =
     (if length payload < 2 then Some (e\<lparr>ev_Summary := ''IPv4 ICMP truncated '' @ arrow e\<rparr>)
      else do {
        t \<leftarrow> index payload 0;
        c \<leftarrow> index payload 1;
        Some (e\<lparr>ev_Summary :=
          (if t = 0 then ''IPv4 ICMP echo reply (ping) '' @ arrow e
           else if t = 8 then ''IPv4 ICMP echo request (ping) '' @ arrow e
           else ''IPv4 ICMP type '' @ dec_string (unat t) @ '' code '' @ dec_string (unat c) @ '' '' @ arrow e)\<rparr>)
      })"

definition parseICMPv6 :: "Event \<Rightarrow> bytes \<Rightarrow> Event option" where
  "parseICMPv6 e payload =
     (if length payload < 2 then Some (e\<lparr>ev_Summary := ''IPv6 ICMPv6 truncated '' @ arrow e\<rparr>)
      else do {
        t \<leftarrow> index payload 0;
        c \<leftarrow> index payload 1;
        Some (e\<lparr>ev_Summary :=
          (if t = 128 then ''IPv6 ICMPv6 echo request (ping) '' @ arrow e
           else if t = 129 then ''IPv6 ICMPv6 echo reply (ping) '' @ arrow e
           else if t = 135 then ''IPv6 ICMPv6 neighbor solicitation '' @ arrow e
           else if t = 136 then ''IPv6 ICMPv6 neighbor advertisement '' @ arrow e
           else ''IPv6 ICMPv6 type '' @ dec_string (unat t) @ '' code '' @ dec_string (unat c) @ '' '' @ arrow e)\<rparr>)
      })"

section \<open>Network headers\<close>

definition parseIPv4 :: "Event \<Rightarrow> bytes \<Rightarrow> Event option" where
  "parseIPv4 e payload =
     (if length payload < 20 then Some (e\<lparr>ev_Summary := ''IPv4 truncated''\<rparr>)
      else do {
        b0 \<leftarrow> index payload 0;
        let ihl = unat (b0 AND 0x0f) * 4;
        if drop_bit 4 b0 \<noteq> 4 \<or> ihl < 20 \<or> length payload < ihl
        then Some (e\<lparr>ev_Summary := ''IPv4 invalid header''\<rparr>)
        else do {
          proto \<leftarrow> index payload 9;
          src \<leftarrow> slice 12 16 payload;
          dst \<leftarrow> slice 16 20 payload;
          let e1 = e\<lparr>ev_SrcIP := IP_String src, ev_DstIP := IP_String dst, ev_IPProto := ipProtocolName proto\<rparr>;
          transport \<leftarrow> slice_from ihl payload;
          if proto = 1 then parseICMPv4 e1 transport
          else if proto = 6 then parsePorts e1 transport ''IPv4 TCP''
          else if proto = 17 then parsePorts e1 transport ''IPv4 UDP''
          else Some (e1\<lparr>ev_Summary := ''IPv4 protocol '' @ dec_string (unat proto) @ '' '' @ arrow e1\<rparr>)
        }
      })"

definition parseIPv6 :: "Event \<Rightarrow> bytes \<Rightarrow> Event option" where
  "parseIPv6 e payload =
     (if length payload < 40 then Some (e\<lparr>ev_Summary := ''IPv6 truncated''\<rparr>)
      else do {
        b0 \<leftarrow> index payload 0;
        if drop_bit 4 b0 \<noteq> 6 then Some (e\<lparr>ev_Summary := ''IPv6 invalid header''\<rparr>)
        else do {
          nextHeader \<leftarrow> index payload 6;
          src \<leftarrow> slice 8 24 payload;
          dst \<leftarrow> slice 24 40 payload;
          let e1 = e\<lparr>ev_SrcIP := IP_String src, ev_DstIP := IP_String dst, ev_IPProto := ipProtocolName nextHeader\<rparr>;
          transport \<leftarrow> slice_from 40 payload;
          if nextHeader = 58 then parseICMPv6 e1 transport
          else if nextHeader = 6 then parsePorts e1 transport ''IPv6 TCP''
          else if nextHeader = 17 then parsePorts e1 transport ''IPv6 UDP''
          else Some (e1\<lparr>ev_Summary := ''IPv6 next-header '' @ dec_string (unat nextHeader) @ '' '' @ arrow e1\<rparr>)
        }
      })"

definition parseARP :: "Event \<Rightarrow> bytes \<Rightarrow> Event option" where
  "parseARP e payload =
     (if length payload < 28 then Some (e\<lparr>ev_Summary := ''ARP truncated''\<rparr>)
      else do {
        ht \<leftarrow> slice 0 2 payload;
        pt \<leftarrow> slice 2 4 payload;
        hs \<leftarrow> index payload 4;
        ps \<leftarrow> index payload 5;
        oc \<leftarrow> slice 6 8 payload;
        let opcode = Uint16 oc;
        if Uint16 ht \<noteq> 1 \<or> Uint16 pt \<noteq> 0x0800 \<or> hs \<noteq> 6 \<or> ps \<noteq> 4
        then Some (e\<lparr>ev_Summary := ''ARP opcode '' @ dec_string (unat opcode)\<rparr>)
        else do {
          sm \<leftarrow> slice 8 14 payload;
          si \<leftarrow> slice 14 18 payload;
          ti \<leftarrow> slice 24 28 payload;
          let senderMAC = HardwareAddr_String sm;
          let senderIP = IP_String si;
          let targetIP = IP_String ti;
          Some (e\<lparr>ev_SrcIP := senderIP, ev_DstIP := targetIP,
            ev_Summary :=
              (if opcode = 1 then ''ARP request who-has '' @ targetIP @ '' tell '' @ senderIP
               else if opcode = 2 then ''ARP reply '' @ senderIP @ '' is-at '' @ senderMAC
               else ''ARP opcode '' @ dec_string (unat opcode))\<rparr>)
        }
      })"

definition parsePayload :: "Event \<Rightarrow> u16 \<Rightarrow> bytes \<Rightarrow> Event option" where
  "parsePayload e etherType payload =
     (if etherType = 0x0800 then parseIPv4 e payload
      else if etherType = 0x0806 then parseARP e payload
      else if etherType = 0x86dd then parseIPv6 e payload
      else Some e)"

section \<open>The frame\<close>

text \<open>The part of \<^verbatim>\<open>parseFrame\<close> after the EtherType is known.\<close>

definition parseTyped :: "Event \<Rightarrow> u16 \<Rightarrow> bytes \<Rightarrow> Event option" where
  "parseTyped e etherType frame = do {
     let e1 = e\<lparr>ev_EtherType := hex_ether etherType, ev_TypeName := etherTypeName etherType,
                ev_Summary := etherTypeName etherType\<rparr>;
     let e2 = (if ev_TypeName e1 = ''Unknown''
               then e1\<lparr>ev_Summary := ''Unknown EtherType '' @ ev_EtherType e1\<rparr> else e1);
     payload \<leftarrow> slice_from (if ev_VLAN e2 then 18 else 14) frame;
     parsePayload e2 etherType payload
   }"

definition parseFrame :: "bytes \<Rightarrow> Event option" where
  "parseFrame frame =
     (let e = zero_event\<lparr>ev_Size := length frame, ev_EtherType := ''unknown'', ev_TypeName := ''Unknown'',
                         ev_Summary := ''Invalid frame''\<rparr>
      in if length frame < 14 then Some (e\<lparr>ev_Reason := ''frame too short''\<rparr>)
         else do {
           dst \<leftarrow> slice 0 6 frame;
           src \<leftarrow> slice 6 12 frame;
           et \<leftarrow> slice 12 14 frame;
           let e1 = e\<lparr>ev_Valid := True, ev_DstMAC := HardwareAddr_String dst, ev_SrcMAC := HardwareAddr_String src\<rparr>;
           let etherType = Uint16 et;
           if etherType = 0x8100 \<or> etherType = 0x88a8
           then if length frame < 18
                then Some (e1\<lparr>ev_VLAN := True, ev_Valid := False, ev_Reason := ''vlan frame too short''\<rparr>)
                else do { et2 \<leftarrow> slice 16 18 frame; parseTyped (e1\<lparr>ev_VLAN := True\<rparr>) (Uint16 et2) frame }
           else parseTyped e1 etherType frame
         })"

section \<open>The recorder\<close>

record CaptureRecorder =
  cr_enabled :: bool
  cr_limit :: nat
  cr_nextSeq :: u64
  cr_events :: "Event list"

record CaptureSnapshot =
  cs_GeneratedAt :: time
  cs_Enabled :: bool
  cs_Limit :: int
  cs_Count :: nat
  cs_Events :: "Event list"

definition NewRecorder :: "int \<Rightarrow> CaptureRecorder" where
  "NewRecorder limit =
     \<lparr>cr_enabled = False, cr_limit = nat (if limit \<le> 0 then capture_DefaultLimit else limit),
      cr_nextSeq = 0, cr_events = []\<rparr>"

definition nil_snapshot :: "time \<Rightarrow> CaptureSnapshot" where
  "nil_snapshot now =
     \<lparr>cs_GeneratedAt = now, cs_Enabled = False, cs_Limit = capture_DefaultLimit, cs_Count = 0, cs_Events = []\<rparr>"

definition Recorder_Snapshot :: "time \<Rightarrow> CaptureRecorder option \<Rightarrow> CaptureSnapshot" where
  "Recorder_Snapshot now rec =
     (case rec of
        None \<Rightarrow> nil_snapshot now
      | Some r \<Rightarrow> \<lparr>cs_GeneratedAt = now, cs_Enabled = cr_enabled r, cs_Limit = int (cr_limit r),
                   cs_Count = length (cr_events r), cs_Events = cr_events r\<rparr>)"

definition Enable :: "time \<Rightarrow> CaptureRecorder option \<Rightarrow> CaptureRecorder option \<times> CaptureSnapshot" where
  "Enable now rec =
     (case rec of
        None \<Rightarrow> (None, nil_snapshot now)
      | Some r \<Rightarrow> (let r1 = r\<lparr>cr_enabled := True\<rparr> in (Some r1, Recorder_Snapshot now (Some r1))))"

definition Disable :: "time \<Rightarrow> CaptureRecorder option \<Rightarrow> CaptureRecorder option \<times> CaptureSnapshot" where
  "Disable now rec =
     (case rec of
        None \<Rightarrow> (None, nil_snapshot now)
      | Some r \<Rightarrow> (let r1 = r\<lparr>cr_enabled := False\<rparr> in (Some r1, Recorder_Snapshot now (Some r1))))"

definition Enabled :: "CaptureRecorder option \<Rightarrow> bool" where
  "Enabled rec \<longleftrightarrow> (case rec of None \<Rightarrow> False | Some r \<Rightarrow> cr_enabled r)"

text \<open>
  The section under the lock. \<^verbatim>\<open>NewRecorder\<close> makes the limit positive, so a full list has
  an oldest event to shift out.
\<close>

definition stamped :: "Event \<Rightarrow> CaptureRecorder \<Rightarrow> Event" where
  "stamped e r = e\<lparr>ev_Seq := cr_nextSeq r + 1\<rparr>"

definition storeEvent :: "Event \<Rightarrow> CaptureRecorder \<Rightarrow> CaptureRecorder" where
  "storeEvent e r =
     (let r1 = r\<lparr>cr_nextSeq := cr_nextSeq r + 1\<rparr>; e1 = e\<lparr>ev_Seq := cr_nextSeq r1\<rparr>
      in if cr_limit r1 \<le> length (cr_events r1) then r1\<lparr>cr_events := drop 1 (cr_events r1) @ [e1]\<rparr>
         else r1\<lparr>cr_events := cr_events r1 @ [e1]\<rparr>)"

definition Record :: "time \<Rightarrow> Metadata \<Rightarrow> bytes \<Rightarrow> CaptureRecorder option \<Rightarrow> CaptureRecorder option option" where
  "Record now meta frame rec =
     (case rec of
        None \<Rightarrow> Some None
      | Some r \<Rightarrow>
          if \<not> cr_enabled r then Some (Some r)
          else do {
            e \<leftarrow> parseFrame frame;
            let e1 = e\<lparr>ev_Time := now, ev_Direction := md_Direction meta, ev_Room := md_Room meta,
                       ev_PeerID := md_PeerID meta, ev_PeerName := md_PeerName meta\<rparr>;
            Some (Some (storeEvent e1 r))
          })"

interpretation capture_ring: ring_recorder storeEvent stamped cr_events cr_limit cr_nextSeq ev_Seq
proof
  fix e :: Event and r :: CaptureRecorder
  show "cr_events (storeEvent e r) = last_n (cr_limit r) (cr_events r @ [stamped e r])"
    if "0 < cr_limit r" "length (cr_events r) \<le> cr_limit r"
    using that by (auto simp: storeEvent_def stamped_def Let_def last_n_all last_n_shift)
qed (simp_all add: storeEvent_def stamped_def Let_def)

end
