(* ===== verification/Capture_Props.thy ===== *)
theory Capture_Props
  imports Capture
begin

text \<open>
  The packet capture is safe on every input and shows what is in the frame; the recorder
  keeps exactly the last events.
\<close>

section \<open>The parser\<close>

lemma slice_in: "i \<le> j \<Longrightarrow> j \<le> length xs \<Longrightarrow> slice i j xs = Some (drop i (take j xs))"
  by (simp add: slice_def)

lemma slice_from_in: "i \<le> length xs \<Longrightarrow> slice_from i xs = Some (drop i xs)"
  by (simp add: slice_from_def)

lemma index_in: "i < length xs \<Longrightarrow> index xs i = Some (xs ! i)"
  by (simp add: index_def)

lemmas in_range = slice_in slice_from_in index_in

text \<open>The parsers of the payload keep what the link header gave.\<close>

definition same_link :: "Event \<Rightarrow> Event \<Rightarrow> bool" where
  "same_link a b \<longleftrightarrow> ev_Size a = ev_Size b \<and> ev_Valid a = ev_Valid b \<and> ev_VLAN a = ev_VLAN b
     \<and> ev_SrcMAC a = ev_SrcMAC b \<and> ev_DstMAC a = ev_DstMAC b \<and> ev_EtherType a = ev_EtherType b
     \<and> ev_TypeName a = ev_TypeName b \<and> ev_Reason a = ev_Reason b"

lemma index_ge: "\<not> length xs < n \<Longrightarrow> i < n \<Longrightarrow> index xs i = Some (xs ! i)"
  by (simp add: index_def)

lemma parsePorts_total: "\<exists>b. parsePorts e p pre = Some b \<and> same_link e b"
  by (simp add: parsePorts_def in_range same_link_def Let_def)

lemma parseICMPv4_total: "\<exists>b. parseICMPv4 e p = Some b \<and> same_link e b"
  by (cases "length p < 2") (simp_all add: parseICMPv4_def index_ge same_link_def)

lemma parseICMPv6_total: "\<exists>b. parseICMPv6 e p = Some b \<and> same_link e b"
  by (cases "length p < 2") (simp_all add: parseICMPv6_def index_ge same_link_def)

text \<open>The two IP parsers on a long enough payload, without the checks that cannot fail.\<close>

definition with_ips :: "Event \<Rightarrow> bytes \<Rightarrow> bytes \<Rightarrow> byte \<Rightarrow> Event" where
  "with_ips e src dst proto = e\<lparr>ev_SrcIP := IP_String src, ev_DstIP := IP_String dst, ev_IPProto := ipProtocolName proto\<rparr>"

lemma parseIPv4_eq:
  assumes "\<not> length p < 20"
  shows "parseIPv4 e p =
    (let ihl = unat (p ! 0 AND 0x0f) * 4; e1 = with_ips e (take 4 (drop 12 p)) (take 4 (drop 16 p)) (p ! 9)
     in if drop_bit 4 (p ! 0) \<noteq> 4 \<or> ihl < 20 \<or> length p < ihl then Some (e\<lparr>ev_Summary := ''IPv4 invalid header''\<rparr>)
        else if p ! 9 = 1 then parseICMPv4 e1 (drop ihl p)
        else if p ! 9 = 6 then parsePorts e1 (drop ihl p) ''IPv4 TCP''
        else if p ! 9 = 17 then parsePorts e1 (drop ihl p) ''IPv4 UDP''
        else Some (e1\<lparr>ev_Summary := ''IPv4 protocol '' @ dec_string (unat (p ! 9)) @ '' '' @ arrow e1\<rparr>))"
  using assms by (simp add: parseIPv4_def index_ge [OF assms] in_range Let_def with_ips_def drop_take)

lemma parseIPv6_eq:
  assumes "\<not> length p < 40"
  shows "parseIPv6 e p =
    (let e1 = with_ips e (take 16 (drop 8 p)) (take 16 (drop 24 p)) (p ! 6)
     in if drop_bit 4 (p ! 0) \<noteq> 6 then Some (e\<lparr>ev_Summary := ''IPv6 invalid header''\<rparr>)
        else if p ! 6 = 58 then parseICMPv6 e1 (drop 40 p)
        else if p ! 6 = 6 then parsePorts e1 (drop 40 p) ''IPv6 TCP''
        else if p ! 6 = 17 then parsePorts e1 (drop 40 p) ''IPv6 UDP''
        else Some (e1\<lparr>ev_Summary := ''IPv6 next-header '' @ dec_string (unat (p ! 6)) @ '' '' @ arrow e1\<rparr>))"
  using assms by (simp add: parseIPv6_def index_ge [OF assms] in_range Let_def with_ips_def drop_take)

lemma same_link_simps [simp]:
  "same_link (with_ips e a b c) f = same_link e f" "same_link e (f\<lparr>ev_Summary := s\<rparr>) = same_link e f"
  "same_link e (with_ips f a b c) = same_link e f" "same_link e e"
  by (simp_all add: same_link_def with_ips_def)

lemma parseIPv4_total: "\<exists>b. parseIPv4 e p = Some b \<and> same_link e b"
proof (cases "length p < 20")
  case False
  then show ?thesis
    using parsePorts_total [of "with_ips e a b c" for a b c] parseICMPv4_total [of "with_ips e a b c" for a b c]
    by (simp add: parseIPv4_eq Let_def)
qed (simp add: parseIPv4_def)

lemma parseIPv6_total: "\<exists>b. parseIPv6 e p = Some b \<and> same_link e b"
proof (cases "length p < 40")
  case False
  then show ?thesis
    using parsePorts_total [of "with_ips e a b c" for a b c] parseICMPv6_total [of "with_ips e a b c" for a b c]
    by (simp add: parseIPv6_eq Let_def)
qed (simp add: parseIPv6_def)

lemma parseARP_total: "\<exists>b. parseARP e p = Some b \<and> same_link e b"
proof (cases "length p < 28")
  case False
  then show ?thesis by (simp add: parseARP_def index_ge [OF False] in_range Let_def) (simp add: same_link_def)
qed (simp add: parseARP_def)

lemma parsePayload_total: "\<exists>b. parsePayload e t p = Some b \<and> same_link e b"
  using parseIPv4_total parseIPv6_total parseARP_total by (simp add: parsePayload_def same_link_def)

lemma parseTyped_total:
  assumes "(if ev_VLAN e then 18 else 14) \<le> length frame"
  shows "\<exists>b. parseTyped e t frame = Some b \<and> ev_Size b = ev_Size e \<and> ev_Valid b = ev_Valid e \<and> ev_VLAN b = ev_VLAN e
    \<and> ev_SrcMAC b = ev_SrcMAC e \<and> ev_DstMAC b = ev_DstMAC e \<and> ev_EtherType b = hex_ether t \<and> ev_TypeName b = etherTypeName t"
proof -
  define e2 where "e2 = (let e1 = e\<lparr>ev_EtherType := hex_ether t, ev_TypeName := etherTypeName t, ev_Summary := etherTypeName t\<rparr>
    in if ev_TypeName e1 = ''Unknown'' then e1\<lparr>ev_Summary := ''Unknown EtherType '' @ ev_EtherType e1\<rparr> else e1)"
  have v: "ev_VLAN e2 = ev_VLAN e" by (simp add: e2_def Let_def)
  have "parseTyped e t frame = parsePayload e2 t (drop (if ev_VLAN e then 18 else 14) frame)"
    using assms v unfolding parseTyped_def by (simp add: Let_def e2_def in_range)
  moreover obtain b where "parsePayload e2 t (drop (if ev_VLAN e then 18 else 14) frame) = Some b" "same_link e2 b"
    using parsePayload_total by blast
  moreover have "ev_Size e2 = ev_Size e" "ev_Valid e2 = ev_Valid e" "ev_SrcMAC e2 = ev_SrcMAC e" "ev_DstMAC e2 = ev_DstMAC e"
    "ev_EtherType e2 = hex_ether t" "ev_TypeName e2 = etherTypeName t"
    by (simp_all add: e2_def Let_def)
  ultimately show ?thesis using v by (auto simp: same_link_def)
qed

text \<open>The EtherType that counts: the inner one behind a VLAN tag.\<close>

definition tagged :: "bytes \<Rightarrow> bool" where
  "tagged frame \<longleftrightarrow> Uint16 (take 2 (drop 12 frame)) \<in> {0x8100, 0x88a8}"

definition link_event :: "bytes \<Rightarrow> Event" where
  "link_event frame = zero_event\<lparr>ev_Size := length frame, ev_EtherType := ''unknown'', ev_TypeName := ''Unknown'',
     ev_Summary := ''Invalid frame'', ev_Valid := True, ev_DstMAC := HardwareAddr_String (take 6 frame),
     ev_SrcMAC := HardwareAddr_String (take 6 (drop 6 frame))\<rparr>"

lemma link_event_simps [simp]:
  "ev_VLAN (link_event frame) = False" "ev_Size (link_event frame) = length frame" "ev_Valid (link_event frame)"
  "ev_DstMAC (link_event frame) = HardwareAddr_String (take 6 frame)"
  "ev_SrcMAC (link_event frame) = HardwareAddr_String (take 6 (drop 6 frame))"
  by (simp_all add: link_event_def zero_event_def)

lemma parseFrame_eq:
  assumes "\<not> length frame < 14"
  shows "parseFrame frame =
    (if tagged frame
     then if length frame < 18
          then Some ((link_event frame)\<lparr>ev_VLAN := True, ev_Valid := False, ev_Reason := ''vlan frame too short''\<rparr>)
          else parseTyped ((link_event frame)\<lparr>ev_VLAN := True\<rparr>) (Uint16 (take 2 (drop 16 frame))) frame
     else parseTyped (link_event frame) (Uint16 (take 2 (drop 12 frame))) frame)"
  using assms by (simp add: parseFrame_def in_range Let_def tagged_def drop_take link_event_def)

lemma parse_total: "\<exists>e. parseFrame frame = Some e \<and> ev_Size e = length frame"
proof (cases "length frame < 14")
  case True
  then show ?thesis by (simp add: parseFrame_def zero_event_def)
next
  case False
  then show ?thesis
    using parseTyped_total [of "(link_event frame)\<lparr>ev_VLAN := True\<rparr>" frame "Uint16 (take 2 (drop 16 frame))"]
      parseTyped_total [of "link_event frame" frame "Uint16 (take 2 (drop 12 frame))"]
    unfolding parseFrame_eq [OF False] by (auto simp: not_less)
qed

text \<open>C39. The capture never panics: on every byte string, however short or malformed, the
  parser returns an event. The event has the size of the frame, is marked valid exactly if
  the frame holds a complete link header (14 bytes, or 18 with a VLAN tag), and then shows
  the frame's MAC addresses and EtherType.\<close>

theorem parse_never_panics:
  "\<exists>e. parseFrame frame = Some e \<and> ev_Size e = length frame
     \<and> (ev_Valid e \<longleftrightarrow> (if 14 \<le> length frame \<and> tagged frame then 18 else 14) \<le> length frame)
     \<and> (14 \<le> length frame \<longrightarrow>
          ev_DstMAC e = HardwareAddr_String (take 6 frame) \<and> ev_SrcMAC e = HardwareAddr_String (take 6 (drop 6 frame)))
     \<and> (ev_Valid e \<longrightarrow> ev_EtherType e = hex_ether (Uint16 (take 2 (drop (if tagged frame then 16 else 12) frame))))"
proof (cases "length frame < 14")
  case True
  then show ?thesis by (simp add: parseFrame_def zero_event_def)
next
  case False
  then show ?thesis
    using parseTyped_total [of "(link_event frame)\<lparr>ev_VLAN := True\<rparr>" frame "Uint16 (take 2 (drop 16 frame))"]
      parseTyped_total [of "link_event frame" frame "Uint16 (take 2 (drop 12 frame))"]
    unfolding parseFrame_eq [OF False] by (auto simp: not_less)
qed

theorem parse_never_panics_witness: "\<exists>e. parseFrame [1, 2, 3] = Some e \<and> \<not> ev_Valid e"
  using parse_never_panics [of "[1, 2, 3]"] by auto

text \<open>An IPv4 packet with a UDP or TCP header, inside an untagged Ethernet frame.\<close>

definition ip_frame :: "bytes \<Rightarrow> bytes \<Rightarrow> byte \<Rightarrow> bytes \<Rightarrow> byte \<Rightarrow> bytes \<Rightarrow> u32 \<Rightarrow> u32 \<Rightarrow> bytes \<Rightarrow> u16 \<Rightarrow> u16 \<Rightarrow> bytes \<Rightarrow> bytes" where
  "ip_frame dmac smac b0 mid proto chk sip dip opts sport dport rest =
     dmac @ smac @ [0x08, 0x00] @ (b0 # mid @ [proto] @ chk @ PutUint32 sip @ PutUint32 dip @ opts
       @ PutUint16 sport @ PutUint16 dport @ rest)"

lemma IP_String_4: "IP_String (PutUint32 w) = string4 w"
  by (simp add: IP_String_def) (simp add: PutUint32_def)

lemma ports_of_payload:
  assumes "length mid = 8" and "length chk = 2" and "drop_bit 4 b0 = 4" and "20 + length opts = unat (b0 AND 0x0f) * 4"
    and "proto \<in> {6, 17}"
    and "p = b0 # mid @ [proto] @ chk @ PutUint32 sip @ PutUint32 dip @ opts @ PutUint16 sport @ PutUint16 dport @ rest"
  shows "parseIPv4 e p = parsePorts (with_ips e (PutUint32 sip) (PutUint32 dip) proto) (PutUint16 sport @ PutUint16 dport @ rest)
    (if proto = 6 then ''IPv4 TCP'' else ''IPv4 UDP'')"
proof -
  have len: "length p = unat (b0 AND 0x0f) * 4 + 4 + length rest" using assms by simp
  have hdr: "p ! 0 = b0" "p ! 9 = proto" "take 4 (drop 12 p) = PutUint32 sip" "take 4 (drop 16 p) = PutUint32 dip"
    using assms(1,2) by (simp_all add: assms(6) nth_append nth_Cons')
  have "p = (b0 # mid @ [proto] @ chk @ PutUint32 sip @ PutUint32 dip @ opts) @ PutUint16 sport @ PutUint16 dport @ rest"
    (is "p = ?pre @ ?tail") using assms(6) by simp
  moreover have "length ?pre = unat (b0 AND 0x0f) * 4" using assms(1,2,4) by simp
  ultimately have "drop (unat (b0 AND 0x0f) * 4) p = PutUint16 sport @ PutUint16 dport @ rest"
    by (metis append_eq_conv_conj)
  moreover have "\<not> length p < 20" "\<not> length p < unat (b0 AND 0x0f) * 4" "\<not> unat (b0 AND 0x0f) * 4 < 20"
    using len assms(4) by linarith+
  ultimately show ?thesis using hdr assms(3,5) by (auto simp: parseIPv4_eq Let_def)
qed

text \<open>On a UDP or TCP packet over IPv4, whatever its options and payload, the event shows
  the packet: its MAC and IP addresses, its protocol and its port numbers.\<close>

lemma capture_shows_ports:
  assumes "length dmac = 6" and "length smac = 6" and "length mid = 8" and "length chk = 2"
    and "drop_bit 4 b0 = 4" and "20 + length opts = unat (b0 AND 0x0f) * 4" and "proto \<in> {6, 17}"
  shows "\<exists>e. parseFrame (ip_frame dmac smac b0 mid proto chk sip dip opts sport dport rest) = Some e
    \<and> ev_Valid e \<and> ev_TypeName e = ''IPv4'' \<and> ev_DstMAC e = HardwareAddr_String dmac \<and> ev_SrcMAC e = HardwareAddr_String smac
    \<and> ev_SrcIP e = string4 sip \<and> ev_DstIP e = string4 dip \<and> ev_IPProto e = (if proto = 6 then ''TCP'' else ''UDP'')
    \<and> ev_SrcPort e = unat sport \<and> ev_DstPort e = unat dport"
proof -
  let ?f = "ip_frame dmac smac b0 mid proto chk sip dip opts sport dport rest"
  let ?p = "b0 # mid @ [proto] @ chk @ PutUint32 sip @ PutUint32 dip @ opts @ PutUint16 sport @ PutUint16 dport @ rest"
  have f: "\<not> length ?f < 14" "take 2 (drop 12 ?f) = [8, 0]" "drop 14 ?f = ?p" "take 6 ?f = dmac" "take 6 (drop 6 ?f) = smac"
    using assms(1,2) by (simp_all add: ip_frame_def)
  have u: "Uint16 [8, 0] = 0x0800" by code_simp
  have n: "etherTypeName 0x0800 = ''IPv4''" by (simp add: etherTypeName_def ether_types_def)
  define e0 where "e0 = (link_event ?f)\<lparr>ev_EtherType := hex_ether 0x0800, ev_TypeName := ''IPv4'', ev_Summary := ''IPv4''\<rparr>"
  have "parseFrame ?f = parseIPv4 e0 ?p"
    using f by (simp add: parseFrame_eq tagged_def u parseTyped_def Let_def n in_range parsePayload_def e0_def)
  also have "\<dots> = parsePorts (with_ips e0 (PutUint32 sip) (PutUint32 dip) proto) (PutUint16 sport @ PutUint16 dport @ rest)
      (if proto = 6 then ''IPv4 TCP'' else ''IPv4 UDP'')"
    by (rule ports_of_payload [OF assms(3-7) refl])
  finally show ?thesis
    using assms(7) f(4,5) by (auto simp: parsePorts_def in_range with_ips_def IP_String_4 ipProtocolName_def e0_def Let_def)
qed


section \<open>The recorder\<close>

lemma Record_total: "\<exists>cap'. Record now m frame cap = Some cap'"
proof -
  obtain e where "parseFrame frame = Some e" using parse_total by blast
  then show ?thesis by (cases cap) (simp_all add: Record_def Let_def)
qed

definition demo_meta :: Metadata where
  "demo_meta = \<lparr>md_Direction = ''ingress'', md_Room = ''lobby'', md_PeerID = ''01'', md_PeerName = ''ann''\<rparr>"

type_synonym capture_input = "time \<times> Metadata \<times> bytes"

fun record_all :: "capture_input list \<Rightarrow> CaptureRecorder option \<Rightarrow> CaptureRecorder option option" where
  "record_all [] rec = Some rec"
| "record_all ((now, meta, frame) # xs) rec = (case Record now meta frame rec of None \<Rightarrow> None | Some rec1 \<Rightarrow> record_all xs rec1)"

definition input_event :: "capture_input \<Rightarrow> Event" where
  "input_event = (\<lambda>(now, meta, frame). (the (parseFrame frame))\<lparr>ev_Time := now, ev_Direction := md_Direction meta,
     ev_Room := md_Room meta, ev_PeerID := md_PeerID meta, ev_PeerName := md_PeerName meta\<rparr>)"

lemma storeEvent_enabled [simp]: "cr_enabled (storeEvent e r) = cr_enabled r"
  by (simp add: storeEvent_def Let_def)

lemma record_all_enabled:
  "cr_enabled r \<Longrightarrow> record_all xs (Some r) = Some (Some (foldl (\<lambda>r e. storeEvent e r) r (map input_event xs)))"
proof (induction xs arbitrary: r)
  case (Cons x xs)
  obtain now meta frame where x: "x = (now, meta, frame)" by (cases x) auto
  obtain e where "parseFrame frame = Some e" using parse_total by blast
  then have "Record now meta frame (Some r) = Some (Some (storeEvent (input_event x) r))"
    using Cons.prems by (simp add: Record_def Let_def input_event_def x)
  then show ?case using Cons by (simp add: x)
qed simp

lemma made_inputs: "map ev_Size (capture_ring.made (map input_event xs) r) = map (\<lambda>(now, meta, frame). length frame) xs"
proof -
  have "ev_Size (input_event x) = length (snd (snd x))" for x
    using parse_total [of "snd (snd x)"] by (auto simp: input_event_def split: prod.splits)
  moreover have "map ev_Size (capture_ring.made (map input_event xs) r) = map ev_Size (map input_event xs)"
    by (rule capture_ring.map_made) (simp add: stamped_def)
  ultimately show ?thesis by (simp add: split_beta)
qed

text \<open>C40. An enabled recorder keeps the last frames it was given, as many as its limit (100 if
  none was configured), in order, numbered consecutively from one over the life of the
  recorder.\<close>

theorem capture_keeps_last:
  assumes "n = nat (if limit \<le> 0 then 100 else limit)" and "rec = fst (Enable t0 (Some (NewRecorder limit)))"
  shows "\<exists>r. record_all xs rec = Some (Some r)
    \<and> map ev_Size (cr_events r) = last_n n (map (\<lambda>(now, meta, frame). length frame) xs)
    \<and> map ev_Seq (cr_events r) = last_n n (map (\<lambda>i. of_nat i + 1) [0 ..< length xs])"
proof -
  let ?start = "(NewRecorder limit)\<lparr>cr_enabled := True\<rparr>"
  have r0: "rec = Some ?start" "cr_limit ?start = n" "cr_events ?start = []" "cr_nextSeq ?start = 0" "0 < n"
    using assms by (simp_all add: Enable_def Let_def NewRecorder_def capture_DefaultLimit_def)
  let ?r = "foldl (\<lambda>r e. storeEvent e r) ?start (map input_event xs)"
  have "cr_events ?r = last_n n (capture_ring.made (map input_event xs) ?start)"
    using capture_ring.items_run [of ?start "map input_event xs"] r0 by simp
  then show ?thesis
    using record_all_enabled [of ?start xs] made_inputs [of xs ?start] capture_ring.stamps_made [of "map input_event xs" ?start] r0
    by (simp add: map_last_n add.commute)
qed

theorem capture_keeps_last_witness:
  "\<exists>r. record_all [(1, demo_meta, [1]), (2, demo_meta, [1, 2]), (3, demo_meta, [])] (fst (Enable 0 (Some (NewRecorder 2)))) = Some (Some r)
     \<and> map ev_Size (cr_events r) = [2, 0] \<and> map ev_Seq (cr_events r) = [2, 3]"
  using capture_keeps_last [of 2 2 _ 0 "[(1, demo_meta, [1]), (2, demo_meta, [1, 2]), (3, demo_meta, [])]"]
  by (simp add: last_n_def upt_conv_Cons numeral_2_eq_2)

text \<open>A recorder that is switched off or absent records nothing.\<close>

lemma capture_off_records_nothing:
  assumes "\<not> Enabled rec"
  shows "record_all xs rec = Some rec"
proof (induction xs)
  case (Cons x xs)
  then show ?case using assms by (cases x; cases rec) (simp_all add: Record_def Enabled_def)
qed simp

end
