(* ===== verification/Logmem.thy ===== *)
theory Logmem
  imports Ring
begin

text \<open>
  The in-memory log, \<^verbatim>\<open>src/internal/logmem/recorder.go\<close>: a writer behind the standard logger
  that keeps the last lines for the status pages. The clock is an argument: \<open>clock i\<close> is the
  reading taken for the \<open>i\<close>-th line of a write.
\<close>

definition logmem_DefaultLimit :: int where "logmem_DefaultLimit = 100"

record Entry =
  en_Seq :: u64
  en_Time :: time
  en_Message :: string

record LogRecorder =
  lr_limit :: nat
  lr_entries :: "Entry list"
  lr_seq :: u64

definition logmem_New :: "int \<Rightarrow> LogRecorder" where
  "logmem_New limit =
     \<lparr>lr_limit = nat (if limit \<le> 0 then logmem_DefaultLimit else limit), lr_entries = [], lr_seq = 0\<rparr>"

definition log_entry :: "time \<times> string \<Rightarrow> LogRecorder \<Rightarrow> Entry" where
  "log_entry x r = \<lparr>en_Seq = lr_seq r + 1, en_Time = fst x, en_Message = snd x\<rparr>"

definition log_add :: "time \<times> string \<Rightarrow> LogRecorder \<Rightarrow> LogRecorder" where
  "log_add x r =
     (let r1 = r\<lparr>lr_seq := lr_seq r + 1\<rparr>;
          entry = \<lparr>en_Seq = lr_seq r1, en_Time = fst x, en_Message = snd x\<rparr>
      in if length (lr_entries r1) = lr_limit r1 then r1\<lparr>lr_entries := drop 1 (lr_entries r1) @ [entry]\<rparr>
         else r1\<lparr>lr_entries := lr_entries r1 @ [entry]\<rparr>)"

text \<open>\<^verbatim>\<open>strings.TrimRight(s, "\r")\<close>\<close>

definition trim_cr :: "string \<Rightarrow> string" where
  "trim_cr s = rev (dropWhile (\<lambda>c. c = CHR 0x0D) (rev s))"

definition log_Write :: "(nat \<Rightarrow> time) \<Rightarrow> string \<Rightarrow> LogRecorder \<Rightarrow> LogRecorder \<times> nat" where
  "log_Write clock p r =
     (foldl (\<lambda>r (i, line). let msg = trim_cr line in if msg = [] then r else log_add (clock i, msg) r)
        r (enumerate 0 (split_on (CHR 0x0A) p)), length p)"

definition log_Snapshot :: "LogRecorder \<Rightarrow> Entry list" where
  "log_Snapshot r = lr_entries r"

interpretation log_ring: ring_recorder log_add log_entry lr_entries lr_limit lr_seq en_Seq
proof
  fix x :: "time \<times> string" and r :: LogRecorder
  show "lr_entries (log_add x r) = last_n (lr_limit r) (lr_entries r @ [log_entry x r])"
    if "0 < lr_limit r" "length (lr_entries r) \<le> lr_limit r"
    using that by (auto simp: log_add_def log_entry_def Let_def last_n_all last_n_shift)
qed (simp_all add: log_add_def log_entry_def Let_def)

section \<open>What is kept\<close>

definition log_lines :: "string \<Rightarrow> string list" where
  "log_lines p = filter (\<lambda>m. m \<noteq> []) (map trim_cr (split_on (CHR 0x0A) p))"

text \<open>A write adds its lines that are not blank, each with the clock reading of its position.\<close>

definition log_inputs :: "(nat \<Rightarrow> time) \<Rightarrow> string \<Rightarrow> (time \<times> string) list" where
  "log_inputs clock p =
     map (\<lambda>(i, line). (clock i, trim_cr line)) (filter (\<lambda>(i, line). trim_cr line \<noteq> []) (enumerate 0 (split_on (CHR 0x0A) p)))"

lemma foldl_filter_map:
  "foldl (\<lambda>r (i, line). let msg = f line in if msg = [] then r else g (clock i, msg) r) r ils
     = foldl (\<lambda>r x. g x r) r (map (\<lambda>(i, line). (clock i, f line)) (filter (\<lambda>(i, line). f line \<noteq> []) ils))"
  by (induction ils arbitrary: r) (auto simp: Let_def)

lemma log_Write_eq: "fst (log_Write clock p r) = foldl (\<lambda>r x. log_add x r) r (log_inputs clock p)"
  by (simp add: log_Write_def log_inputs_def foldl_filter_map)

lemma map_filter_enumerate: "map (\<lambda>(i, x). f x) (filter (\<lambda>(i, x). P (f x)) (enumerate n xs)) = filter P (map f xs)"
  by (induction xs arbitrary: n) auto

lemma log_inputs_lines: "map snd (log_inputs clock p) = log_lines p"
  by (simp add: log_inputs_def log_lines_def comp_def case_prod_unfold map_filter_enumerate [of trim_cr "\<lambda>m. m \<noteq> []", unfolded case_prod_unfold])

fun write_all :: "((nat \<Rightarrow> time) \<times> string) list \<Rightarrow> LogRecorder \<Rightarrow> LogRecorder" where
  "write_all [] r = r"
| "write_all ((clock, p) # ws) r = write_all ws (fst (log_Write clock p r))"

lemma write_all_eq: "write_all ws r = foldl (\<lambda>r x. log_add x r) r (concat (map (\<lambda>(clock, p). log_inputs clock p) ws))"
  by (induction ws arbitrary: r) (auto simp: log_Write_eq)

text \<open>After any sequence of writes the log holds the last non-blank lines written, without
  their line ends, in order, at most as many as the limit (100 if none was configured), and
  numbered consecutively. Every write reports that it took all its bytes.\<close>

lemma log_keeps_last:
  assumes "n = nat (if limit \<le> 0 then 100 else limit)" and "lines = concat (map (log_lines \<circ> snd) ws)"
  shows "map en_Message (log_Snapshot (write_all ws (logmem_New limit))) = last_n n lines
    \<and> map en_Seq (log_Snapshot (write_all ws (logmem_New limit))) = last_n n (map (\<lambda>i. of_nat i + 1) [0 ..< length lines])
    \<and> snd (log_Write clock p r) = length p"
proof -
  let ?r = "logmem_New limit" and ?xs = "concat (map (\<lambda>(clock, p). log_inputs clock p) ws)"
  have new: "lr_limit ?r = n" "lr_entries ?r = []" "lr_seq ?r = 0" "0 < n"
    using assms(1) by (simp_all add: logmem_New_def logmem_DefaultLimit_def)
  have xs: "map snd ?xs = lines"
    unfolding assms(2) by (simp add: map_concat comp_def case_prod_unfold log_inputs_lines)
  then have len: "length ?xs = length lines" by (metis length_map)
  have "lr_entries (write_all ws ?r) = last_n n (log_ring.made ?xs ?r)"
    unfolding write_all_eq using log_ring.items_run [of ?r ?xs] new by simp
  moreover have "map en_Message (log_ring.made ?xs ?r) = lines"
    unfolding xs [symmetric] by (rule log_ring.map_made) (simp add: log_entry_def)
  ultimately show ?thesis
    using log_ring.stamps_made [of ?xs ?r] new len
    by (simp add: log_Snapshot_def map_last_n add.commute log_Write_def del: length_concat)
qed


end
