(* ===== verification/Netparse.thy ===== *)
theory Netparse
  imports Netaddr
begin

text \<open>
  The parsers of Go's \<^verbatim>\<open>net\<close> and \<^verbatim>\<open>net/netip\<close> packages that the program calls on addresses
  received from the peer or the user: \<^verbatim>\<open>net.ParseMAC\<close>, \<^verbatim>\<open>net.ParseIP\<close>, \<^verbatim>\<open>net.ParseCIDR\<close>,
  \<^verbatim>\<open>netip.ParseAddr\<close>, \<^verbatim>\<open>netip.ParsePrefix\<close>. \<^term>\<open>None\<close> stands for their error. The round
  trips with the text forms of \<open>Netaddr\<close> are what the client relies on when it reads the
  addresses that the server assigned.
\<close>

section \<open>Digits\<close>

definition digit_val :: "char \<Rightarrow> nat option" where
  "digit_val c = (let n = of_char c in if 48 \<le> n \<and> n \<le> 57 then Some (n - 48) else None)"

definition hex_val :: "char \<Rightarrow> nat option" where
  "hex_val c = (let n = of_char c in
     if 48 \<le> n \<and> n \<le> 57 then Some (n - 48)
     else if 97 \<le> n \<and> n \<le> 102 then Some (n - 87)
     else if 65 \<le> n \<and> n \<le> 70 then Some (n - 55)
     else (None :: nat option))"

definition is_digit :: "char \<Rightarrow> bool" where "is_digit c \<longleftrightarrow> digit_val c \<noteq> None"
definition is_hex :: "char \<Rightarrow> bool" where "is_hex c \<longleftrightarrow> hex_val c \<noteq> None"

definition dec_value :: "string \<Rightarrow> nat" where
  "dec_value s = foldl (\<lambda>v c. v * 10 + the (digit_val c)) 0 s"

definition hex_value :: "string \<Rightarrow> nat" where
  "hex_value s = foldl (\<lambda>v c. v * 16 + the (hex_val c)) 0 s"

section \<open>Hardware addresses\<close>

text \<open>The two hexadecimal digits at the front of \<open>s\<close>; a third character has to be the separator.\<close>

definition xtoi2 :: "string \<Rightarrow> char option \<Rightarrow> byte option" where
  "xtoi2 s e =
     (if 2 < length s \<and> Some (s ! 2) \<noteq> e then None
      else case take 2 s of
        [a, b] \<Rightarrow> (case (hex_val a, hex_val b) of (Some x, Some y) \<Rightarrow> Some (of_nat (x * 16 + y)) | _ \<Rightarrow> None)
      | _ \<Rightarrow> None)"

fun mac_pairs :: "nat \<Rightarrow> char \<Rightarrow> string \<Rightarrow> bytes option" where
  "mac_pairs 0 sep s = Some []"
| "mac_pairs (Suc n) sep s = do { b \<leftarrow> xtoi2 s (Some sep); bs \<leftarrow> mac_pairs n sep (drop 3 s); Some (b # bs) }"

fun mac_quads :: "nat \<Rightarrow> string \<Rightarrow> bytes option" where
  "mac_quads 0 s = Some []"
| "mac_quads (Suc n) s = do {
     a \<leftarrow> xtoi2 (take 2 s) None;
     b \<leftarrow> xtoi2 (drop 2 s) (Some (CHR ''.''));
     bs \<leftarrow> mac_quads n (drop 5 s);
     Some (a # b # bs) }"

definition ParseMAC :: "string \<Rightarrow> bytes option" where
  "ParseMAC s =
     (if length s < 14 then None
      else if s ! 2 = CHR '':'' \<or> s ! 2 = CHR ''-'' then
        (let n = (length s + 1) div 3
         in if (length s + 1) mod 3 \<noteq> 0 \<or> n \<notin> {6, 8, 20} then None else mac_pairs n (s ! 2) s)
      else if s ! 4 = CHR ''.'' then
        (let n = 2 * (length s + 1) div 5
         in if (length s + 1) mod 5 \<noteq> 0 \<or> n \<notin> {6, 8, 20} then None else mac_quads (n div 2) s)
      else None)"

section \<open>IP addresses\<close>

text \<open>An octet: one to three digits without a leading zero, at most 255.\<close>

definition parse_octet :: "string \<Rightarrow> byte option" where
  "parse_octet s =
     (if s \<noteq> [] \<and> list_all is_digit s \<and> \<not> (1 < length s \<and> hd s = CHR ''0'') \<and> dec_value s \<le> 255
      then Some (of_nat (dec_value s)) else None)"

definition parseIPv4Fields :: "string \<Rightarrow> bytes option" where
  "parseIPv4Fields s =
     (case split_on (CHR ''.'') s of
        [a, b, c, d] \<Rightarrow> do {
          w \<leftarrow> parse_octet a; x \<leftarrow> parse_octet b; y \<leftarrow> parse_octet c; z \<leftarrow> parse_octet d; Some [w, x, y, z] }
      | _ \<Rightarrow> None)"

text \<open>
  The loop of the IPv6 parser over at most eight groups: the bytes so far, the place of the
  ellipsis and the rest of the text.
\<close>

fun parse6_groups :: "nat \<Rightarrow> string \<Rightarrow> bytes \<Rightarrow> nat option \<Rightarrow> (bytes \<times> nat option \<times> string) option" where
  "parse6_groups 0 s ip ell = Some (ip, ell, s)"
| "parse6_groups (Suc k) s ip ell =
     (let hs = takeWhile is_hex s; off = length hs in
      if off = 0 \<or> 4 < off then None
      else if off < length s \<and> s ! off = CHR ''.'' then
        (if ell = None \<and> length ip \<noteq> 12 \<or> 16 < length ip + 4 then None
         else case parseIPv4Fields s of None \<Rightarrow> None | Some f \<Rightarrow> Some (ip @ f, ell, []))
      else
        (let ip1 = ip @ PutUint16 (of_nat (hex_value hs)) in
         case drop off s of
           [] \<Rightarrow> Some (ip1, ell, [])
         | c # s2 \<Rightarrow>
             if c \<noteq> CHR '':'' then None
             else (case s2 of
               [] \<Rightarrow> None
             | d # s3 \<Rightarrow>
                 if d = CHR '':'' then
                   (if ell \<noteq> None then None
                    else if s3 = [] then Some (ip1, Some (length ip1), [])
                    else parse6_groups k s3 ip1 (Some (length ip1)))
                 else parse6_groups k s2 ip1 ell)))"

definition expand6 :: "bytes \<times> nat option \<times> string \<Rightarrow> bytes option" where
  "expand6 = (\<lambda>(ip, ell, s).
     if s \<noteq> [] then None
     else case ell of
       None \<Rightarrow> if length ip < 16 then None else Some ip
     | Some e \<Rightarrow> if length ip < 16 then Some (take e ip @ replicate (16 - length ip) 0 @ drop e ip) else None)"

definition cut_first :: "char \<Rightarrow> string \<Rightarrow> (string \<times> string) option" where
  "cut_first c s = (if c \<in> set s then Some (takeWhile (\<lambda>x. x \<noteq> c) s, tl (dropWhile (\<lambda>x. x \<noteq> c) s)) else None)"

definition cut_last :: "char \<Rightarrow> string \<Rightarrow> (string \<times> string) option" where
  "cut_last c s = map_option (\<lambda>(a, b). (rev b, rev a)) (cut_first c (rev s))"

definition parseIPv6_addr :: "string \<Rightarrow> Addr option" where
  "parseIPv6_addr txt =
     (let (s, zone, ok) = (case cut_first (CHR ''%'') txt of None \<Rightarrow> (txt, '''', True) | Some (a, z) \<Rightarrow> (a, z, z \<noteq> ''''))
      in if \<not> ok then None
         else
           (let lead = 2 \<le> length s \<and> s ! 0 = CHR '':'' \<and> s ! 1 = CHR '':'';
                s1 = (if lead then drop 2 s else s)
            in if lead \<and> s1 = [] then Some (Addr6 (replicate 16 0) zone)
               else case parse6_groups 8 s1 [] (if lead then Some 0 else None) of
                 None \<Rightarrow> None
               | Some st \<Rightarrow> map_option (\<lambda>ip. Addr6 ip zone) (expand6 st)))"

definition ParseAddr :: "string \<Rightarrow> Addr option" where
  "ParseAddr s =
     (case find (\<lambda>c. c \<in> {CHR ''.'', CHR '':'', CHR ''%''}) s of
        None \<Rightarrow> None
      | Some c \<Rightarrow>
          if c = CHR ''.'' then map_option AddrFrom4 (parseIPv4Fields s)
          else if c = CHR '':'' then parseIPv6_addr s
          else None)"

definition Zone :: "Addr \<Rightarrow> string" where
  "Zone a = (case a of Addr6 _ z \<Rightarrow> z | _ \<Rightarrow> '''')"

definition v4InV6Prefix :: bytes where
  "v4InV6Prefix = replicate 10 0 @ [0xff, 0xff]"

definition As16 :: "Addr \<Rightarrow> bytes" where
  "As16 a = (case a of Addr4 w \<Rightarrow> v4InV6Prefix @ PutUint32 w | Addr6 bs _ \<Rightarrow> bs | AddrInvalid \<Rightarrow> replicate 16 0)"

section \<open>net.IP\<close>

text \<open>A nil \<^verbatim>\<open>net.IP\<close> is the empty list, as in Go.\<close>

definition ParseIP :: "string \<Rightarrow> bytes" where
  "ParseIP s = (case ParseAddr s of Some a \<Rightarrow> if Zone a = '''' then As16 a else [] | None \<Rightarrow> [])"

definition To4 :: "bytes \<Rightarrow> bytes" where
  "To4 ip =
     (if length ip = 4 then ip
      else if length ip = 16 \<and> take 12 ip = v4InV6Prefix then drop 12 ip else [])"

definition IP_Equal :: "bytes \<Rightarrow> bytes \<Rightarrow> bool" where
  "IP_Equal a b \<longleftrightarrow>
     (if length a = length b then a = b
      else if length a = 4 \<and> length b = 16 then take 12 b = v4InV6Prefix \<and> a = drop 12 b
      else if length a = 16 \<and> length b = 4 then take 12 a = v4InV6Prefix \<and> drop 12 a = b
      else False)"

definition IsMulticast :: "bytes \<Rightarrow> bool" where
  "IsMulticast ip =
     (if To4 ip \<noteq> [] then To4 ip ! 0 AND 0xf0 = 0xe0 else length ip = 16 \<and> ip ! 0 = 0xff)"

text \<open>\<^verbatim>\<open>net.CIDRMask\<close>: \<open>n\<close> one bits at the front of \<open>len\<close> bytes.\<close>

definition CIDRMask :: "nat \<Rightarrow> nat \<Rightarrow> bytes" where
  "CIDRMask n len =
     map (\<lambda>i. if 8 * i + 8 \<le> n then 0xff else if n \<le> 8 * i then 0 else NOT (mask (8 - (n - 8 * i)))) [0 ..< len]"

definition IP_Mask :: "bytes \<Rightarrow> bytes \<Rightarrow> bytes" where
  "IP_Mask ip m =
     (let ip1 = (if length m = 4 \<and> length ip = 16 \<and> take 12 ip = v4InV6Prefix then drop 12 ip else ip)
      in if length ip1 \<noteq> length m then [] else map2 (AND) ip1 m)"

record IPNet =
  net_IP :: bytes
  net_Mask :: bytes

definition ParseCIDR :: "string \<Rightarrow> (bytes \<times> IPNet) option" where
  "ParseCIDR s =
     (case cut_first (CHR ''/'') s of
        None \<Rightarrow> None
      | Some (a, m) \<Rightarrow>
          (case ParseAddr a of
             None \<Rightarrow> None
           | Some addr \<Rightarrow>
               if Zone addr \<noteq> '''' \<or> m = '''' \<or> \<not> list_all is_digit m \<or> BitLen addr < int (dec_value m) then None
               else
                 (let mk = CIDRMask (dec_value m) (nat (BitLen addr) div 8); ip = As16 addr
                  in Some (ip, \<lparr>net_IP = IP_Mask ip mk, net_Mask = mk\<rparr>))))"

section \<open>netip.Prefix\<close>

definition ParsePrefix :: "string \<Rightarrow> Prefix option" where
  "ParsePrefix s =
     (case cut_last (CHR ''/'') s of
        None \<Rightarrow> None
      | Some (a, b) \<Rightarrow>
          (case ParseAddr a of
             None \<Rightarrow> None
           | Some ip \<Rightarrow>
               if Zone ip \<noteq> '''' then None
               else if 1 < length b \<and> hd b = CHR ''0'' \<or> b = '''' \<or> \<not> list_all is_digit b then None
               else if BitLen ip < int (dec_value b) then None
               else Some (PrefixFrom ip (int (dec_value b)))))"

definition clear_low :: "nat \<Rightarrow> u32 \<Rightarrow> u32" where
  "clear_low n w = push_bit n (drop_bit n w)"

definition Masked :: "Prefix \<Rightarrow> Prefix" where
  "Masked p =
     (case pfx_addr p of
        Addr4 w \<Rightarrow> if pfx_bits p < 0 then \<lparr>pfx_addr = AddrInvalid, pfx_bits = -1\<rparr>
                   else PrefixFrom (Addr4 (clear_low (32 - nat (pfx_bits p)) w)) (pfx_bits p)
      | Addr6 bs z \<Rightarrow>
          if pfx_bits p < 0 then \<lparr>pfx_addr = AddrInvalid, pfx_bits = -1\<rparr>
          else PrefixFrom (Addr6 (map2 (AND) bs (CIDRMask (nat (pfx_bits p)) 16)) '''') (pfx_bits p)
      | AddrInvalid \<Rightarrow> \<lparr>pfx_addr = AddrInvalid, pfx_bits = -1\<rparr>)"

section \<open>Reading back numbers\<close>

lemma of_char_digit: "n < 10 \<Longrightarrow> (of_char (char_of (48 + n) :: char) :: nat) = 48 + n"
  by simp

lemma digit_val_dec: "n < 10 \<Longrightarrow> digit_val (char_of (48 + n)) = Some n"
  by (simp add: digit_val_def)

lemma dec_value_snoc: "dec_value (s @ [c]) = dec_value s * 10 + the (digit_val c)"
  by (simp add: dec_value_def)

lemma dec_string_digits: "list_all is_digit (dec_string n)"
proof (induction n rule: dec_string.induct)
  case (1 n)
  have "n mod 10 < 10" by simp
  then have "is_digit (char_of (48 + n mod 10))" by (simp only: is_digit_def digit_val_dec) simp
  then show ?case using 1 by (subst dec_string.simps) auto
qed

lemma dec_value_dec_string: "dec_value (dec_string n) = n"
proof (induction n rule: dec_string.induct)
  case (1 n)
  show ?case
  proof (cases "n < 10")
    case True
    then show ?thesis by (subst dec_string.simps) (simp add: dec_value_def digit_val_dec)
  next
    case False
    then show ?thesis using 1 by (subst dec_string.simps) (simp add: dec_value_snoc digit_val_dec)
  qed
qed

lemma dec_string_not_Nil [simp]: "dec_string n \<noteq> []"
  by (subst dec_string.simps) simp

lemma hd_dec_string: "0 < n \<Longrightarrow> hd (dec_string n) \<noteq> CHR ''0''"
proof (induction n rule: dec_string.induct)
  case (1 n)
  show ?case
  proof (cases "n < 10")
    case True
    have "digit_val (char_of (48 + n)) \<noteq> digit_val (CHR ''0'')"
      using True 1(2) by (simp add: digit_val_dec) (simp add: digit_val_def)
    then show ?thesis using True by (subst dec_string.simps) auto
  next
    case False
    then show ?thesis using 1(1) by (subst dec_string.simps) simp
  qed
qed

lemma dec_string_no_zero: "\<not> (1 < length (dec_string n) \<and> hd (dec_string n) = CHR ''0'')"
proof (cases "n = 0")
  case True
  then show ?thesis by (subst dec_string.simps) simp
qed (use hd_dec_string in simp)

lemma dec_string_not_in: "\<not> is_digit c \<Longrightarrow> c \<notin> set (dec_string n)"
  using dec_string_digits [of n] by (auto simp: list_all_iff)

lemma separators_not_digits: "\<not> is_digit (CHR ''.'')" "\<not> is_digit (CHR ''/'')" "\<not> is_digit (CHR '':'')" "\<not> is_digit (CHR ''%'')"
  by (simp_all add: is_digit_def digit_val_def)

lemma parse_octet_dec: "parse_octet (dec_string (unat b)) = Some b"
proof -
  have "unat b < 256" using unsigned_less [of b] by simp
  then have le: "unat b \<le> 255" by simp
  show ?thesis
    unfolding parse_octet_def dec_value_dec_string
    using dec_string_digits [of "unat b"] dec_string_no_zero [of "unat b"] le by auto
qed

section \<open>Reading back addresses\<close>

lemma PutUint32_list: obtains a b c d where "PutUint32 w = [a, b, c, d]"
  by (simp add: PutUint32_def)

lemma parse4_string4: "parseIPv4Fields (string4 w) = Some (PutUint32 w)"
proof -
  obtain a b c d where w: "PutUint32 w = [a, b, c, d]" using PutUint32_list .
  let ?s = "\<lambda>x. dec_string (unat x)"
  note dot = dec_string_not_in [OF separators_not_digits(1)]
  have "split_on (CHR ''.'') (string4 w) = [?s a, ?s b, ?s c, ?s d]"
    by (simp add: string4_def w split_on_line split_on_end dot)
  then show ?thesis by (simp add: parseIPv4Fields_def parse_octet_dec w)
qed

lemma find_first: "\<forall>x \<in> set xs. \<not> P x \<Longrightarrow> P c \<Longrightarrow> find P (xs @ c # ys) = Some c"
  by (induction xs) auto

theorem ParseAddr_string4: "ParseAddr (string4 w) = Some (Addr4 w)"
proof -
  obtain a b c d where w: "PutUint32 w = [a, b, c, d]" using PutUint32_list .
  let ?P = "\<lambda>c. c \<in> {CHR ''.'', CHR '':'', CHR ''%''}"
  have "\<forall>x \<in> set (dec_string (unat a)). \<not> ?P x"
    using dec_string_digits [of "unat a"] separators_not_digits by (auto simp: list_all_iff)
  then have "find ?P (string4 w) = Some (CHR ''.'')"
    unfolding string4_def w by (simp add: find_first)
  then show ?thesis
    by (simp add: ParseAddr_def parse4_string4 AddrFrom4_def)
qed

lemma cut_first_append: "c \<notin> set a \<Longrightarrow> cut_first c (a @ c # b) = Some (a, b)"
  by (auto simp: cut_first_def takeWhile_tail dropWhile_append2 takeWhile_append dropWhile_append)

lemma cut_last_append: "c \<notin> set b \<Longrightarrow> cut_last c (a @ c # b) = Some (a, b)"
  using cut_first_append [of c "rev b" "rev a"] by (simp add: cut_last_def)

lemma string4_no_slash: "CHR ''/'' \<notin> set (string4 w)"
proof -
  obtain a b c d where w: "PutUint32 w = [a, b, c, d]" using PutUint32_list .
  show ?thesis using dec_string_not_in [OF separators_not_digits(2)] by (simp add: string4_def w)
qed

lemma hex_val_digit: "n < 16 \<Longrightarrow> hex_val (hex_digit n) = Some n"
  by (auto simp: hex_val_def hex_digit_def Let_def)

lemma xtoi2_hex: "xtoi2 (hex_byte b) (Some c) = Some b" "xtoi2 (hex_byte b @ c # s) (Some c) = Some b"
proof -
  have lt: "unat b < 256" using unsigned_less [of b] by simp
  then have "hex_val (hex_digit (unat b div 16)) = Some (unat b div 16)" "hex_val (hex_digit (unat b mod 16)) = Some (unat b mod 16)"
    by (simp_all add: hex_val_digit)
  then show "xtoi2 (hex_byte b) (Some c) = Some b" "xtoi2 (hex_byte b @ c # s) (Some c) = Some b"
    by (simp_all add: xtoi2_def hex_byte_def)
qed

lemma length_hex_byte [simp]: "length (hex_byte b) = 2"
  by (simp add: hex_byte_def)

lemma mac_pairs_string: "mac_pairs (length mac) (CHR '':'') (HardwareAddr_String mac) = Some mac"
proof (induction mac)
  case (Cons b mac)
  show ?case
  proof (cases mac)
    case Nil
    then show ?thesis by (simp add: HardwareAddr_String_def xtoi2_hex)
  next
    case (Cons c cs)
    then show ?thesis using Cons.IH by (simp add: HardwareAddr_String_def xtoi2_hex)
  qed
qed (simp add: HardwareAddr_String_def)

lemma length_mac_string: "mac \<noteq> [] \<Longrightarrow> length (HardwareAddr_String mac) + 1 = 3 * length mac"
proof (induction mac)
  case (Cons b mac)
  then show ?case by (cases mac) (simp_all add: HardwareAddr_String_def)
qed simp

theorem ParseMAC_string:
  assumes "length mac = 6"
  shows "ParseMAC (HardwareAddr_String mac) = Some mac"
proof -
  have len: "length (HardwareAddr_String mac) = 17" using length_mac_string [of mac] assms by force
  obtain b c cs where mac: "mac = b # c # cs" using assms by (auto simp: numeral_eq_Suc length_Suc_conv)
  have "HardwareAddr_String mac ! 2 = CHR '':''"
    by (simp add: HardwareAddr_String_def mac nth_append)
  then show ?thesis using len mac_pairs_string [of mac] assms by (simp add: ParseMAC_def)
qed

text \<open>The text form of a hardware address is never blank.\<close>

lemma mac_string_not_Nil: "mac \<noteq> [] \<Longrightarrow> HardwareAddr_String mac \<noteq> []"
  using length_mac_string [of mac] by auto

lemma mac_pairs_length: "mac_pairs n c s = Some bs \<Longrightarrow> length bs = n"
  by (induction n arbitrary: s bs) (auto split: bind_splits)

lemma mac_quads_length: "mac_quads n s = Some bs \<Longrightarrow> length bs = 2 * n"
  by (induction n arbitrary: s bs) (auto split: bind_splits)

lemma ParseMAC_not_Nil: "ParseMAC s = Some mac \<Longrightarrow> mac \<noteq> []"
  by (auto simp: ParseMAC_def Let_def split: if_splits dest!: mac_pairs_length mac_quads_length)

section \<open>Reading back prefixes\<close>

lemma split_slash: "Prefix_String (PrefixFrom (Addr4 w) (int n)) = string4 w @ CHR ''/'' # dec_string n" if "n \<le> 32"
  using that by (simp add: Prefix_String_def PrefixFrom_def Prefix_IsValid_def BitLen_def Addr_String_def)

lemma dec_string_slash: "CHR ''/'' \<notin> set (dec_string n)"
  by (rule dec_string_not_in [OF separators_not_digits(2)])

lemma ParsePrefix_String:
  assumes "n \<le> 32"
  shows "ParsePrefix (Prefix_String (PrefixFrom (Addr4 w) (int n))) = Some (PrefixFrom (Addr4 w) (int n))"
  unfolding split_slash [OF assms]
  using assms dec_string_no_zero [of n] dec_string_digits [of n]
  by (simp add: ParsePrefix_def cut_last_append dec_string_slash ParseAddr_string4 dec_value_dec_string
      Zone_def BitLen_def)

lemma ParseCIDR_String:
  assumes "n \<le> 32"
  shows "ParseCIDR (Prefix_String (PrefixFrom (Addr4 w) (int n))) =
    Some (v4InV6Prefix @ PutUint32 w, \<lparr>net_IP = map2 (AND) (PutUint32 w) (CIDRMask n 4), net_Mask = CIDRMask n 4\<rparr>)"
  unfolding split_slash [OF assms]
  using assms dec_string_digits [of n]
  by (simp add: ParseCIDR_def cut_first_append string4_no_slash ParseAddr_string4 dec_value_dec_string
      Zone_def BitLen_def As16_def IP_Mask_def CIDRMask_def v4InV6Prefix_def Let_def)

lemma To4_mapped [simp]: "length b = 4 \<Longrightarrow> To4 (v4InV6Prefix @ b) = b"
  by (simp add: To4_def v4InV6Prefix_def)

lemma ParseIP_string4: "To4 (ParseIP (string4 w)) = PutUint32 w"
  by (simp add: ParseIP_def ParseAddr_string4 Zone_def As16_def)

end
