(* ===== verification/Server.thy ===== *)
theory Server
  imports Netparse Capture Logmem Relay_Life
begin

text \<open>
  The server's set-up, \<^verbatim>\<open>src/internal/server/server.go\<close> and \<^verbatim>\<open>src/cmd/server/main.go\<close>: the
  pool given by the user, the defaults, the choice of the certificate and the wiring of the
  relay, the capture and the status page. QUIC, TLS and HTTP are outside: loading and
  generating a certificate and the connections accepted by the listener are arguments.
\<close>

section \<open>The pool\<close>

datatype pool_error = ErrParsePrefix string | ErrPoolNotIPv4 | ErrPoolTooSmall

definition defaultPool :: Prefix where
  "defaultPool = PrefixFrom (Addr4 0x0AF00000) 12"

definition LoadPool :: "string \<Rightarrow> pool_error + Prefix" where
  "LoadPool value =
     (if value = '''' then Inr defaultPool
      else case ParsePrefix value of
        None \<Rightarrow> Inl (ErrParsePrefix value)
      | Some pfx \<Rightarrow>
          if \<not> Is4 (pfx_addr pfx) then Inl ErrPoolNotIPv4
          else if 24 < pfx_bits pfx then Inl ErrPoolTooSmall
          else Inr (Masked pfx))"

section \<open>Configuration\<close>

definition server_alpn :: string where "server_alpn = ''anylan-mvp''"

record 'logs ServerCfg =
  srv_Addr :: string
  srv_Pool :: Prefix
  srv_TLSCertFile :: string
  srv_TLSKeyFile :: string
  srv_InsecureDevCert :: bool
  srv_MTU :: int
  srv_WebAddr :: string
  srv_WebToken :: string
  srv_Logs :: "'logs option"
  srv_Capture :: "CaptureRecorder option"

definition poolAndMTU :: "'l ServerCfg \<Rightarrow> 'l ServerCfg" where
  "poolAndMTU s =
     (let s1 = (if \<not> Prefix_IsValid (srv_Pool s) then s\<lparr>srv_Pool := defaultPool\<rparr> else s)
      in if srv_MTU s1 = 0 then s1\<lparr>srv_MTU := DefaultMTU\<rparr> else s1)"

definition listenDefaults :: "'l ServerCfg \<Rightarrow> 'l ServerCfg" where
  "listenDefaults s = poolAndMTU (if srv_Addr s = '''' then s\<lparr>srv_Addr := '':4433''\<rparr> else s)"

text \<open>What the TLS configuration of the listener holds.\<close>

datatype tls_version = VersionTLS12 | VersionTLS13

record 'cert TLSConfig =
  tls_Certificates :: "'cert list"
  tls_NextProtos :: "string list"
  tls_MinVersion :: tls_version

datatype tls_error = ErrBothRequired | ErrCert string

definition tlsConfig ::
  "(string \<Rightarrow> string \<Rightarrow> string + 'cert) \<Rightarrow> (string + 'cert) \<Rightarrow> 'l ServerCfg \<Rightarrow> tls_error + 'cert TLSConfig" where
  "tlsConfig loadKeyPair devCertificate s =
     (let cert =
        (if srv_TLSCertFile s \<noteq> '''' \<or> srv_TLSKeyFile s \<noteq> '''' then
           (if srv_TLSCertFile s = '''' \<or> srv_TLSKeyFile s = '''' then Inl ErrBothRequired
            else case loadKeyPair (srv_TLSCertFile s) (srv_TLSKeyFile s) of Inl e \<Rightarrow> Inl (ErrCert e) | Inr c \<Rightarrow> Inr c)
         else if srv_InsecureDevCert s then (case devCertificate of Inl e \<Rightarrow> Inl (ErrCert e) | Inr c \<Rightarrow> Inr c)
         else (case devCertificate of Inl e \<Rightarrow> Inl (ErrCert e) | Inr c \<Rightarrow> Inr c))
      in case cert of
           Inl e \<Rightarrow> Inl e
         | Inr c \<Rightarrow> Inr \<lparr>tls_Certificates = [c], tls_NextProtos = [server_alpn], tls_MinVersion = VersionTLS13\<rparr>)"

section \<open>Serving\<close>

record Handler =
  h_MTU :: int
  h_Capture :: "CaptureRecorder option"

text \<open>The parts of the status page that are switched on.\<close>

record WebFeatures =
  web_Addr :: string
  web_Token :: string
  web_Logs :: bool
  web_Capture :: bool

definition serveSetup :: "'l ServerCfg \<Rightarrow> Store \<times> Handler \<times> WebFeatures option" where
  "serveSetup s0 =
     (let s = poolAndMTU s0;
          captures = (if srv_Capture s = None \<and> srv_WebAddr s \<noteq> '''' then Some (NewRecorder capture_DefaultLimit)
                      else srv_Capture s)
      in (NewManager (srv_Pool s), \<lparr>h_MTU = srv_MTU s, h_Capture = captures\<rparr>,
          if srv_WebAddr s = '''' then None
          else Some \<lparr>web_Addr = srv_WebAddr s, web_Token = srv_WebToken s,
                     web_Logs = (srv_Logs s \<noteq> None), web_Capture = (captures \<noteq> None)\<rparr>))"

text \<open>
  The accept loop: one handler per connection until an accept fails. A failure comes with the
  error of the context, if it is done, which is then the one returned.
\<close>

fun acceptLoop :: "('e \<times> 'e option + 'conn) list \<Rightarrow> 'conn list \<times> 'e option" where
  "acceptLoop [] = ([], None)"
| "acceptLoop (Inl (e, ctxErr) # rest) = ([], Some (case ctxErr of Some c \<Rightarrow> c | None \<Rightarrow> e))"
| "acceptLoop (Inr conn # rest) = (case acceptLoop rest of (conns, e) \<Rightarrow> (conn # conns, e))"

section \<open>The pool is fit for the relay\<close>

lemma take_bit_clear_low: "take_bit n (clear_low n w) = 0"
  by (simp add: clear_low_def take_bit_push_bit)

lemma Masked_pool_ok:
  assumes "Is4 (pfx_addr p)" and "0 \<le> pfx_bits p" and "pfx_bits p \<le> 24"
  shows "pool_ok (Masked p)"
proof -
  obtain w where w: "pfx_addr p = Addr4 w" using assms(1) by (auto simp: Is4_def split: Addr.splits)
  then show ?thesis
    using assms take_bit_clear_low [of "32 - nat (pfx_bits p)" w]
    by (simp add: pool_ok_def Masked_def PrefixFrom_def BitLen_def)
qed

lemma defaultPool_ok: "pool_ok defaultPool"
  by code_simp

lemma ParsePrefix_bits: "ParsePrefix s = Some p \<Longrightarrow> Is4 (pfx_addr p) \<Longrightarrow> 0 \<le> pfx_bits p"
  by (auto simp: ParsePrefix_def PrefixFrom_def Is4_def split: option.splits if_splits prod.splits)

text \<open>Whatever text the operator gives, a pool that the server accepts is one the relay can
  work with: an IPv4 network of /24 or larger with no host bits set, which is what every
  guarantee about addresses assumes.\<close>

lemma LoadPool_ok:
  assumes "LoadPool value = Inr pool"
  shows "pool_ok pool"
proof (cases "value = ''''")
  case True
  then show ?thesis using assms defaultPool_ok by (simp add: LoadPool_def)
next
  case False
  then show ?thesis
    using assms Masked_pool_ok ParsePrefix_bits by (auto simp: LoadPool_def split: option.splits if_splits)
qed


lemma clear_low_aligned: "take_bit n w = 0 \<Longrightarrow> clear_low n w = w"
  by (metis clear_low_def bits_ident add_0_right)

text \<open>A pool that is fit for the relay is accepted as it is when written in its usual text
  form, and a smaller network is refused with the error that says so.\<close>

lemma LoadPool_roundtrip:
  assumes "n \<le> 32" and "take_bit (32 - n) w = 0"
  shows "LoadPool (Prefix_String (PrefixFrom (Addr4 w) (int n)))
    = (if n \<le> 24 then Inr (PrefixFrom (Addr4 w) (int n)) else Inl ErrPoolTooSmall)"
proof -
  have "Prefix_String (PrefixFrom (Addr4 w) (int n)) \<noteq> ''''" unfolding split_slash [OF assms(1)] by simp
  then show ?thesis
    using assms ParsePrefix_String [OF assms(1), of w] clear_low_aligned [OF assms(2)]
    by (simp add: LoadPool_def PrefixFrom_def BitLen_def Is4_def Masked_def)
qed

section \<open>Certificates\<close>

text \<open>The server never runs with half a key pair: with one of the two files missing it
  refuses to start, with both it serves exactly that pair, and with none a certificate made
  on the spot. The listener then speaks TLS 1.3 only, under the program's protocol name. The
  flag for the development certificate plays no part in the choice.\<close>

lemma tls_choice:
  "tlsConfig load dev s =
     (case (if srv_TLSCertFile s = '''' \<and> srv_TLSKeyFile s = '''' then map_sum ErrCert id dev
            else if srv_TLSCertFile s = '''' \<or> srv_TLSKeyFile s = '''' then Inl ErrBothRequired
            else map_sum ErrCert id (load (srv_TLSCertFile s) (srv_TLSKeyFile s))) of
        Inl e \<Rightarrow> Inl e
      | Inr c \<Rightarrow> Inr \<lparr>tls_Certificates = [c], tls_NextProtos = [''anylan-mvp''], tls_MinVersion = VersionTLS13\<rparr>)
   \<and> tlsConfig load dev (s\<lparr>srv_InsecureDevCert := b\<rparr>) = tlsConfig load dev s"
  by (auto simp: tlsConfig_def server_alpn_def Let_def split: sum.splits)

end
