(* ===== verification/Codec.thy ===== *)
theory Codec
  imports Protocol
begin

text \<open>
  \<^verbatim>\<open>encoding/json\<close> for the message structures, as a record of functions that the handlers
  of the server and of the client take as an argument. What the code relies on, that a
  structure survives being marshalled and unmarshalled and fits the limit of a control
  message, is the predicate \<open>sendable\<close>.
\<close>

record Codec =
  cd_JoinRoom :: "(JoinRoom \<Rightarrow> string + bytes) \<times> (bytes \<Rightarrow> string + JoinRoom)"
  cd_JoinAccept :: "(JoinAccept \<Rightarrow> string + bytes) \<times> (bytes \<Rightarrow> string + JoinAccept)"
  cd_JoinReject :: "(JoinReject \<Rightarrow> string + bytes) \<times> (bytes \<Rightarrow> string + JoinReject)"
  cd_PeerList :: "(PeerList \<Rightarrow> string + bytes) \<times> (bytes \<Rightarrow> string + PeerList)"
  cd_Ping :: "(PeerPing \<Rightarrow> string + bytes) \<times> (bytes \<Rightarrow> string + PeerPing)"
  cd_Pong :: "(PeerPong \<Rightarrow> string + bytes) \<times> (bytes \<Rightarrow> string + PeerPong)"

text \<open>
  Marshalling gives a text, which is never empty and fits the limit of the control stream, and
  unmarshalling gives the message back.
\<close>

definition sendable :: "('v \<Rightarrow> string + bytes) \<times> (bytes \<Rightarrow> string + 'v) \<Rightarrow> 'v \<Rightarrow> bool" where
  "sendable j v \<longleftrightarrow> (\<exists>bs. fst j v = Inr bs \<and> snd j bs = Inr v \<and> bs \<noteq> [] \<and> length bs \<le> MaxControlSize)"

lemma MarshalMessage_sendable:
  assumes "sendable j v" and "Valid t" and "t \<noteq> TypeEthernetFrame"
  obtains bs where "fst j v = Inr bs" and "snd j bs = Inr v" and "length bs \<le> MaxControlSize" and "bs \<noteq> []"
    and "MarshalMessage (fst j) t v = Inr (frame_bytes (t, bs))" and "readable (int MaxControlSize) (t, bs)"
proof -
  obtain bs where bs: "fst j v = Inr bs" "snd j bs = Inr v" "length bs \<le> MaxControlSize" "bs \<noteq> []"
    using assms(1) by (auto simp: sendable_def)
  then have w: "writable (t, bs)" using assms(2,3) by (simp add: writable_def)
  then show thesis
    using that bs writable_readable [OF w, of "int MaxControlSize"]
    by (simp add: MarshalMessage_def WriteJSON_def WriteMessage_buf)
qed

text \<open>A structure written with \<^verbatim>\<open>WriteJSON\<close> is what \<^verbatim>\<open>ReadJSON\<close> returns, and the rest of the stream is left.\<close>

lemma ReadJSON_WriteJSON:
  assumes "sendable j v" and "Valid t" and "t \<noteq> TypeEthernetFrame"
  shows "WriteJSON (fst j) buf_Write b t v = (b', None) \<Longrightarrow>
    ReadJSON (snd j) \<lparr>rd_data = drop (length b) b' @ rest, rd_end = e\<rparr> t (int MaxControlSize)
      = (\<lparr>rd_data = rest, rd_end = e\<rparr>, Inr v)"
proof -
  obtain bs where bs: "fst j v = Inr bs" "snd j bs = Inr v" "readable (int MaxControlSize) (t, bs)" "length bs \<le> MaxControlSize"
    using MarshalMessage_sendable [OF assms] by blast
  then have w: "writable (t, bs)" using assms(2,3) by (simp add: writable_def)
  assume "WriteJSON (fst j) buf_Write b t v = (b', None)"
  then have "b' = b @ frame_bytes (t, bs)" using w by (simp add: WriteJSON_def bs(1) WriteMessage_buf)
  then show ?thesis using bs by (simp add: ReadJSON_def ReadMessage_frame)
qed

end
