(* ===== verification/Control.thy ===== *)
theory Control
  imports Codec Server Relay_Flow
begin

text \<open>
  The connection handler of the server, \<^verbatim>\<open>src/internal/control/handler.go\<close>: the join
  conversation, the messages of the control stream, the frames of the data stream and the
  clean-up. A QUIC stream is written through a write function; what is read from it arrives
  as events. The JSON codec and the text of a failing \<^verbatim>\<open>crypto/rand\<close> are arguments.
\<close>

section \<open>Messages\<close>

definition toPeerInfos :: "PeerSnapshot list \<Rightarrow> PeerInfo list" where
  "toPeerInfos peers =
     map (\<lambda>p. \<lparr>pi_ID = ps_ID p, pi_DisplayName = ps_DisplayName p, pi_IPv4 = ps_IP p, pi_MAC = ps_MAC p,
               pi_Features = ps_Features p\<rparr>) peers"

definition filterSupportedFeatures :: "string list \<Rightarrow> string list" where
  "filterSupportedFeatures features = filter (\<lambda>f. f = FeaturePeerLatency) features"

text \<open>The error of \<^verbatim>\<open>WriteJSON\<close> is ignored: a message that cannot be built is empty.\<close>

definition buildPeerListMsg :: "Codec \<Rightarrow> RoomSnapshot \<Rightarrow> bytes" where
  "buildPeerListMsg cd snap =
     fst (WriteJSON (fst (cd_PeerList cd)) buf_Write [] TypePeerList
            \<lparr>pl_RoomCreatedAt = rs_CreatedAt snap, pl_Peers = toPeerInfos (rs_Peers snap)\<rparr>)"

definition reject :: "Codec \<Rightarrow> 'w writer \<Rightarrow> 'w \<Rightarrow> string \<Rightarrow> 'w \<times> proto_error option" where
  "reject cd wr w reason = WriteJSON (fst (cd_JoinReject cd)) wr w TypeJoinReject \<lparr>rj_Reason = reason\<rparr>"

definition relayErrorText :: "string \<Rightarrow> relay_error \<Rightarrow> string" where
  "relayErrorText randText e =
     (case e of
        ErrRoomFull \<Rightarrow> ''room is full''
      | ErrRoomClosed \<Rightarrow> ''room is closed''
      | ErrPoolFull \<Rightarrow> ''room pool is full''
      | ErrMACInUse \<Rightarrow> ''mac address is already in use''
      | ErrMACInvalid \<Rightarrow> ''invalid mac address''
      | ErrInvalidFrame \<Rightarrow> ''invalid ethernet frame''
      | ErrSourceMACInvalid \<Rightarrow> ''ethernet source MAC does not match peer''
      | ErrNotIPv4 a \<Rightarrow> ''not an IPv4 address: '' @ Addr_String a
      | ErrRand \<Rightarrow> randText)"

section \<open>The join conversation\<close>

datatype join_outcome = Rejected string | Joined peerref JoinRoom

definition requestedMAC :: "string \<Rightarrow> bytes option option" where
  "requestedMAC mac =
     (if TrimSpace mac = '''' then Some None
      else case ParseMAC mac of None \<Rightarrow> None | Some m \<Rightarrow> Some (Some m))"

text \<open>
  The request once it is read, and the whole from the first message to the peer. None when
  the given draws were used up by retries of \<^verbatim>\<open>Manager.Join\<close>.
\<close>

definition admitJoin :: "string \<Rightarrow> Draw list \<Rightarrow> JoinRoom \<Rightarrow> Store \<Rightarrow> Store \<times> join_outcome option" where
  "admitJoin randText ds join s =
     (if jr_Version join \<noteq> Version then (s, Some (Rejected ''unsupported protocol version''))
      else if jr_Room join = '''' then (s, Some (Rejected ''room is required''))
      else case requestedMAC (jr_MAC join) of
        None \<Rightarrow> (s, Some (Rejected ''invalid mac address''))
      | Some mac \<Rightarrow>
          (case Manager_Join (jr_Room join)
                  [\<lparr>opt_DisplayName = jr_DisplayName join, opt_RequestedMAC = mac,
                    opt_Features = filterSupportedFeatures (jr_Features join)\<rparr>] ds s of
             (s1, None) \<Rightarrow> (s1, None)
           | (s1, Some (Inl e)) \<Rightarrow> (s1, Some (Rejected (relayErrorText randText e)))
           | (s1, Some (Inr p)) \<Rightarrow> (s1, Some (Joined p join))))"

definition handleJoin :: "Codec \<Rightarrow> string \<Rightarrow> Draw list \<Rightarrow> Reader \<Rightarrow> Store \<Rightarrow> Store \<times> join_outcome option" where
  "handleJoin cd randText ds r s =
     (case ReadJSON (snd (cd_JoinRoom cd)) r TypeJoinRoom (int MaxControlSize) of
        (r1, Inl e) \<Rightarrow> (s, Some (Rejected ''invalid join request''))
      | (r1, Inr join) \<Rightarrow> admitJoin randText ds (join\<lparr>jr_Room := TrimSpace (jr_Room join)\<rparr>) s)"

definition buildAccept :: "Handler \<Rightarrow> JoinRoom \<Rightarrow> peerref \<Rightarrow> Store \<Rightarrow> JoinAccept" where
  "buildAccept h join p s =
     (let peer = peerHeap s ! p; room = roomHeap s ! p_Room peer; roomSnap = Room_Snapshot s room
      in \<lparr>ja_Version = Version, ja_Room = jr_Room join, ja_PeerID = p_ID peer,
          ja_IPv4 = Addr_String (p_IP peer),
          ja_CIDR = Prefix_String (PrefixFrom (p_IP peer) (pfx_bits (r_prefix room))),
          ja_MAC = HardwareAddr_String (p_MAC peer), ja_MTU = h_MTU h,
          ja_RoomCreatedAt = rs_CreatedAt roomSnap, ja_Peers = toPeerInfos (rs_Peers roomSnap),
          ja_Features = [FeaturePeerLatency]\<rparr>)"

section \<open>The session\<close>

datatype session_err = SProto proto_error | SOther string

text \<open>
  The state of a session: the store of the relay, the capture, the two streams, the errors
  that wait in \<^verbatim>\<open>writeErr\<close>, \<^verbatim>\<open>controlReadErr\<close> and the cancelled context for the head of the
  main loop, whether the main loop is at its head or reading, and which of the goroutines
  still run.
\<close>

record ('w, 'd) Session =
  ss_store :: Store
  ss_capture :: "CaptureRecorder option"
  ss_control :: 'w
  ss_data :: 'd
  ss_pending :: "session_err option list"
  ss_head :: bool
  ss_writer :: bool
  ss_notifier :: bool
  ss_reader :: bool

datatype ('w, 'd) outcome = Running "('w, 'd) Session" | Ended "session_err option" "('w, 'd) Session" | Panicked

text \<open>
  After the peer is registered: the accept message, the data stream with its first ping, and
  the peer list for the others. An error here ends the session.
\<close>

definition openSession ::
  "Codec \<Rightarrow> 'w writer \<Rightarrow> 'd writer \<Rightarrow> (string + 'd) \<Rightarrow> Handler \<Rightarrow> JoinRoom \<Rightarrow> peerref \<Rightarrow> 'w \<Rightarrow> 'd \<Rightarrow> Store
     \<Rightarrow> ('w, 'd) outcome" where
  "openSession cd wr dwr opened h join p w d0 s =
     (let st = \<lparr>ss_store = s, ss_capture = h_Capture h, ss_control = w, ss_data = d0, ss_pending = [], ss_head = True,
                ss_writer = False, ss_notifier = False, ss_reader = False\<rparr>;
          roomSnap = Room_Snapshot s (roomHeap s ! p_Room (peerHeap s ! p))
      in case WriteJSON (fst (cd_JoinAccept cd)) wr w TypeJoinAccept (buildAccept h join p s) of
           (w1, Some e) \<Rightarrow> Ended (Some (SProto e)) (st\<lparr>ss_control := w1\<rparr>)
         | (w1, None) \<Rightarrow>
             (case opened of
                Inl e \<Rightarrow> Ended (Some (SOther e)) (st\<lparr>ss_control := w1\<rparr>)
              | Inr d \<Rightarrow>
                  (case WriteMessage dwr d TypePing [] of
                     (d1, Some e) \<Rightarrow> Ended (Some (SProto e)) (st\<lparr>ss_control := w1, ss_data := d1\<rparr>)
                   | (d1, None) \<Rightarrow>
                       Running (st\<lparr>ss_control := w1, ss_data := d1, ss_writer := True, ss_notifier := True, ss_reader := True,
                         ss_store := BroadcastNotify (p_Room (peerHeap s ! p)) (buildPeerListMsg cd roomSnap) (Some p) s\<rparr>))))"

section \<open>Control messages\<close>

definition forwardPeerPing :: "Codec \<Rightarrow> peerref \<Rightarrow> bytes \<Rightarrow> Store \<Rightarrow> Store \<times> proto_error option" where
  "forwardPeerPing cd from payload s =
     (case snd (cd_Ping cd) payload of
        Inl e \<Rightarrow> (s, Some (ErrJSON e))
      | Inr ping \<Rightarrow>
          (let p = peerHeap s ! from in
           if ping_ToPeerID ping = '''' \<or> ping_ToPeerID ping = p_ID p then (s, None)
           else case MarshalMessage (fst (cd_Ping cd)) TypePing (ping\<lparr>ping_FromPeerID := p_ID p\<rparr>) of
             Inl e \<Rightarrow> (s, Some e)
           | Inr msg \<Rightarrow> (fst (SendNotify (p_Room p) (ping_ToPeerID ping) msg s), None)))"

definition forwardPeerPong :: "Codec \<Rightarrow> peerref \<Rightarrow> bytes \<Rightarrow> Store \<Rightarrow> Store \<times> proto_error option" where
  "forwardPeerPong cd from payload s =
     (case snd (cd_Pong cd) payload of
        Inl e \<Rightarrow> (s, Some (ErrJSON e))
      | Inr pong \<Rightarrow>
          (let p = peerHeap s ! from in
           if pong_ToPeerID pong = '''' \<or> pong_ToPeerID pong = p_ID p then (s, None)
           else case MarshalMessage (fst (cd_Pong cd)) TypePong (pong\<lparr>pong_FromPeerID := p_ID p\<rparr>) of
             Inl e \<Rightarrow> (s, Some e)
           | Inr msg \<Rightarrow> (fst (SendNotify (p_Room p) (pong_ToPeerID pong) msg s), None)))"

text \<open>
  What the main loop returns for an error of one of the two readers: the end of the stream is
  no error. Errors of the writer and of the context are returned as they are.
\<close>

definition exitErr :: "session_err option \<Rightarrow> session_err option" where
  "exitErr e = (if e = Some (SProto (ErrIO EOF)) then None else e)"

text \<open>One message in the goroutine that reads the control stream; an error stops the goroutine.\<close>

definition controlMessage ::
  "Codec \<Rightarrow> 'w writer \<Rightarrow> peerref \<Rightarrow> MessageType \<Rightarrow> bytes \<Rightarrow> ('w, 'd) Session \<Rightarrow> ('w, 'd) Session" where
  "controlMessage cd wr p typ payload st =
     (let stop = (\<lambda>e st. case e of None \<Rightarrow> st
                    | Some e \<Rightarrow> st\<lparr>ss_pending := ss_pending st @ [exitErr (Some (SProto e))], ss_reader := False\<rparr>)
      in if typ = TypePing then
           (if payload = [] then (case WriteMessage wr (ss_control st) TypePong [] of
                                    (w1, e) \<Rightarrow> stop e (st\<lparr>ss_control := w1\<rparr>))
            else (case forwardPeerPing cd p payload (ss_store st) of (s1, e) \<Rightarrow> stop e (st\<lparr>ss_store := s1\<rparr>)))
         else if typ = TypePong then
           (case forwardPeerPong cd p payload (ss_store st) of (s1, e) \<Rightarrow> stop e (st\<lparr>ss_store := s1\<rparr>))
         else st)"

section \<open>Ethernet frames\<close>

definition set_peer_with :: "(Peer \<Rightarrow> Peer) \<Rightarrow> peerref \<Rightarrow> Store \<Rightarrow> Store" where
  "set_peer_with f p s = set_peer p (f (peerHeap s ! p)) s"

fun enqueueTargets :: "bytes \<Rightarrow> peerref list \<Rightarrow> Store \<Rightarrow> Store option" where
  "enqueueTargets frame [] s = Some s"
| "enqueueTargets frame (t # ts) s =
     (case Enqueue frame (peerHeap s ! t) of
        None \<Rightarrow> None
      | Some (q, ok) \<Rightarrow> enqueueTargets frame ts (set_peer t q s))"

text \<open>One frame from the client in the main loop. None is a panic.\<close>

definition dataFrame ::
  "time \<Rightarrow> peerref \<Rightarrow> bytes \<Rightarrow> CaptureRecorder option \<times> Store \<Rightarrow> (CaptureRecorder option \<times> Store) option" where
  "dataFrame now p payload cs =
     (case cs of (cap, s) \<Rightarrow>
        let peer = peerHeap s ! p;
            meta = \<lparr>md_Direction = ''ingress'', md_Room = r_name (roomHeap s ! p_Room peer),
                    md_PeerID = p_ID peer, md_PeerName = p_DisplayName peer\<rparr>
        in case Record now meta payload cap of
             None \<Rightarrow> None
           | Some cap1 \<Rightarrow>
               (let (peer1, ok) = AllowFrame (length payload) now peer; s1 = set_peer p peer1 s in
                if \<not> ok then Some (cap1, set_peer_with (RecordDropFrame (length payload)) p s1)
                else
                  (let s2 = set_peer_with (RecordRxFrame (length payload)) p s1 in
                   case Forward (p_Room peer) p payload s2 of
                     None \<Rightarrow> None
                   | Some (s3, Inl e) \<Rightarrow> Some (cap1, set_peer_with (RecordDropFrame (length payload)) p s3)
                   | Some (s3, Inr targets) \<Rightarrow> map_option (\<lambda>s4. (cap1, s4)) (enqueueTargets payload targets s3))))"

section \<open>The event loop\<close>

text \<open>
  What happens to a session, in the order it happens. The main loop alternates between its
  head, which looks at the pending results and of which \<^verbatim>\<open>select\<close> takes any (the argument
  chooses), and one message of the data stream; an event that is not the turn of the main loop
  changes nothing.
\<close>

datatype session_event =
    EvControl MessageType bytes
  | EvControlErr proto_error
  | EvHead nat
  | EvData time MessageType bytes
  | EvDataErr proto_error
  | EvFrameOut
  | EvNotifyOut
  | EvDone string

definition loopHead :: "nat \<Rightarrow> ('w, 'd) Session \<Rightarrow> ('w, 'd) outcome" where
  "loopHead i st =
     (if \<not> ss_head st then Running st
      else if ss_pending st = [] then Running (st\<lparr>ss_head := False\<rparr>)
      else Ended (ss_pending st ! (i mod length (ss_pending st))) st)"

definition sessionEvent ::
  "Codec \<Rightarrow> 'w writer \<Rightarrow> 'd writer \<Rightarrow> peerref \<Rightarrow> session_event \<Rightarrow> ('w, 'd) Session \<Rightarrow> ('w, 'd) outcome" where
  "sessionEvent cd wr dwr p ev st =
     (case ev of
        EvControl typ payload \<Rightarrow> Running (if ss_reader st then controlMessage cd wr p typ payload st else st)
      | EvControlErr e \<Rightarrow>
          Running (if ss_reader st
                   then st\<lparr>ss_pending := ss_pending st @ [exitErr (Some (SProto e))], ss_reader := False\<rparr> else st)
      | EvHead i \<Rightarrow> loopHead i st
      | EvData now typ payload \<Rightarrow>
          (if ss_head st then Running st
           else if typ = TypeEthernetFrame
           then case dataFrame now p payload (ss_capture st, ss_store st) of
                  None \<Rightarrow> Panicked
                | Some (cap, s) \<Rightarrow> Running (st\<lparr>ss_capture := cap, ss_store := s, ss_head := True\<rparr>)
           else Running (st\<lparr>ss_head := True\<rparr>))
      | EvDataErr e \<Rightarrow> if ss_head st then Running st else Ended (exitErr (Some (SProto e))) st
      | EvFrameOut \<Rightarrow>
          (let s = ss_store st; q = peerHeap s ! p in
           if \<not> ss_writer st then Running st
           else case chan_buf (p_Frames q) of
             frame # rest \<Rightarrow>
               (let st1 = st\<lparr>ss_store := set_peer p (q\<lparr>p_Frames := (p_Frames q)\<lparr>chan_buf := rest\<rparr>\<rparr>) s\<rparr>
                in case WriteMessage dwr (ss_data st1) TypeEthernetFrame frame of
                     (d1, None) \<Rightarrow> Running (st1\<lparr>ss_data := d1\<rparr>)
                   | (d1, Some e) \<Rightarrow>
                       Running (st1\<lparr>ss_data := d1, ss_writer := False, ss_pending := ss_pending st1 @ [Some (SProto e)]\<rparr>))
           | [] \<Rightarrow>
               if chan_closed (p_Frames q)
               then Running (st\<lparr>ss_writer := False, ss_pending := ss_pending st @ [None]\<rparr>) else Running st)
      | EvNotifyOut \<Rightarrow>
          (let s = ss_store st; q = peerHeap s ! p in
           if \<not> ss_notifier st then Running st
           else case chan_buf (p_Notify q) of
             msg # rest \<Rightarrow>
               (let st1 = st\<lparr>ss_store := set_peer p (q\<lparr>p_Notify := (p_Notify q)\<lparr>chan_buf := rest\<rparr>\<rparr>) s\<rparr>
                in case wr (ss_control st1) msg of
                     (w1, None) \<Rightarrow> Running (st1\<lparr>ss_control := w1\<rparr>)
                   | (w1, Some e) \<Rightarrow> Running (st1\<lparr>ss_control := w1, ss_notifier := False\<rparr>))
           | [] \<Rightarrow> Running st)
      | EvDone txt \<Rightarrow> Running (st\<lparr>ss_pending := ss_pending st @ [Some (SOther txt)], ss_notifier := False\<rparr>))"

fun runSession :: "Codec \<Rightarrow> 'w writer \<Rightarrow> 'd writer \<Rightarrow> peerref \<Rightarrow> session_event list \<Rightarrow> ('w, 'd) outcome \<Rightarrow> ('w, 'd) outcome" where
  "runSession cd wr dwr p (ev # evs) (Running st) = runSession cd wr dwr p evs (sessionEvent cd wr dwr p ev st)"
| "runSession cd wr dwr p _ out = out"

section \<open>Clean-up\<close>

text \<open>The deferred function: the peer is removed and the others, if any, get the new peer list.\<close>

definition leaveRoom :: "Codec \<Rightarrow> peerref \<Rightarrow> Store \<Rightarrow> Store" where
  "leaveRoom cd p s =
     (let room = p_Room (peerHeap s ! p); s1 = RemovePeer p room s
      in if 0 < PeerCount room s1
         then BroadcastNotify room (buildPeerListMsg cd (Room_Snapshot s1 (roomHeap s1 ! room))) None s1
         else s1)"

text \<open>The reason that is logged when a peer has left; the text of other errors is an argument.\<close>

definition leftReason :: "(session_err \<Rightarrow> string) \<Rightarrow> string \<Rightarrow> session_err option \<Rightarrow> string" where
  "leftReason errText cancelText e =
     (case e of
        None \<Rightarrow> ''closed''
      | Some err \<Rightarrow>
          if err = SProto (ErrIO EOF) then ''client closed''
          else if err = SOther cancelText then ''server shutdown''
          else errText err)"

section \<open>The whole conversation\<close>

definition handleStream ::
  "Codec \<Rightarrow> string \<Rightarrow> 'w writer \<Rightarrow> 'd writer \<Rightarrow> (string + 'd) \<Rightarrow> Handler \<Rightarrow> Draw list \<Rightarrow> Reader \<Rightarrow> session_event list
     \<Rightarrow> 'w \<Rightarrow> 'd \<Rightarrow> Store \<Rightarrow> Store \<times> 'w \<times> ('w, 'd) outcome option" where
  "handleStream cd randText wr dwr opened h ds r evs w d0 s =
     (case handleJoin cd randText ds r s of
        (s1, None) \<Rightarrow> (s1, w, None)
      | (s1, Some (Rejected reason)) \<Rightarrow> (s1, fst (reject cd wr w reason), None)
      | (s1, Some (Joined p join)) \<Rightarrow>
          (let h1 = (if h_MTU h = 0 then h\<lparr>h_MTU := DefaultMTU\<rparr> else h)
           in case runSession cd wr dwr p evs (openSession cd wr dwr opened h1 join p w d0 s1) of
                Running st \<Rightarrow> (ss_store st, ss_control st, Some (Running st))
              | Ended e st \<Rightarrow> (leaveRoom cd p (ss_store st), ss_control st, Some (Ended e st))
              | Panicked \<Rightarrow> (s1, w, Some Panicked)))"

end
