(* ===== verification/Control_Props.thy ===== *)
theory Control_Props
  imports Control Capture_Props
begin

text \<open>
  What a client can rely on when it talks to the server: who is admitted and with which
  addresses, what a session does to the relay, and that every session cleans up.
\<close>

section \<open>A codec for the examples\<close>

text \<open>
  The examples use a codec that knows one request, one accept message and so on: it maps the
  structure to a fixed payload and back.
\<close>

definition single :: "'v \<Rightarrow> bytes \<Rightarrow> ('v \<Rightarrow> string + bytes) \<times> (bytes \<Rightarrow> string + 'v)" where
  "single v bs = (\<lambda>_. Inr bs, \<lambda>xs. if xs = bs then Inr v else Inl ''unexpected'')"

definition toy_join :: JoinRoom where
  "toy_join = \<lparr>jr_Version = 1, jr_Room = ''lobby'', jr_DisplayName = ''ann'', jr_MAC = '''', jr_Nonce = '''', jr_Features = [''x'', FeaturePeerLatency]\<rparr>"

definition toy_ping :: PeerPing where
  "toy_ping = \<lparr>ping_ID = ''n'', ping_FromPeerID = ''spoofed'', ping_ToPeerID = ''0102030405060702'', ping_SentAtUnixNano = 7\<rparr>"

definition toy_pong :: PeerPong where
  "toy_pong = \<lparr>pong_ID = ''n'', pong_FromPeerID = ''spoofed'', pong_ToPeerID = ''0102030405060702'', pong_SentAtUnixNano = 7\<rparr>"

definition toy_accept :: JoinAccept where
  "toy_accept = \<lparr>ja_Version = 1, ja_Room = ''lobby'', ja_PeerID = ''p'', ja_IPv4 = ''10.66.0.2'', ja_CIDR = ''10.66.0.2/24'',
     ja_MAC = ''02:01:02:03:04:01'', ja_MTU = 1300, ja_RoomCreatedAt = 1, ja_Peers = [], ja_Features = []\<rparr>"

definition toy_codec :: Codec where
  "toy_codec =
     \<lparr>cd_JoinRoom = single toy_join [1], cd_JoinAccept = single toy_accept [2], cd_JoinReject = single \<lparr>rj_Reason = ''full''\<rparr> [3],
      cd_PeerList = single \<lparr>pl_RoomCreatedAt = 1, pl_Peers = []\<rparr> [7], cd_Ping = single toy_ping [5], cd_Pong = single toy_pong [6]\<rparr>"

definition toy_request :: Reader where
  "toy_request = \<lparr>rd_data = frame_bytes (TypeJoinRoom, [1]), rd_end = EOF\<rparr>"

lemma toy_read:
  "ReadJSON (snd (cd_JoinRoom toy_codec)) toy_request TypeJoinRoom (int MaxControlSize)
     = (\<lparr>rd_data = [], rd_end = EOF\<rparr>, Inr toy_join)"
proof -
  have "readable (int MaxControlSize) (TypeJoinRoom, [1])"
    by (simp add: readable_def Valid_def message_type_defs size_defs)
  then show ?thesis
    using ReadMessage_frame [of "int MaxControlSize" "(TypeJoinRoom, [1])" "[]" EOF]
    by (simp add: ReadJSON_def toy_request_def toy_codec_def single_def)
qed

section \<open>Admission\<close>

text \<open>C10. A client is admitted only if the first message of its control stream is a well-formed
  request: a join request that unmarshals, with the protocol version of the server, a room
  name that is not blank and a MAC that is absent or well-formed. It is then registered in
  the room of the name it asked for, without the surrounding blanks, under the display name of
  the request, with the MAC it requested and with those features of the request that the
  server knows; the accept message is built from that request.\<close>

theorem admitted_as_requested:
  assumes "store_inv s" and "unused_draw d s" and "handleJoin cd rt (d # ds) r s = (s', Some (Joined p join))"
  shows "\<exists>r1 j name. ReadJSON (snd (cd_JoinRoom cd)) r TypeJoinRoom (int MaxControlSize) = (r1, Inr j)
    \<and> name = TrimSpace (jr_Room j) \<and> join = j\<lparr>jr_Room := name\<rparr>
    \<and> jr_Version j = 1 \<and> name \<noteq> '''' \<and> (TrimSpace (jr_MAC j) = '''' \<or> ParseMAC (jr_MAC j) \<noteq> None)
    \<and> store_inv s' \<and> Manager_Room name s' = Some (p_Room (peerHeap s' ! p))
    \<and> p \<in> live (roomHeap s' ! p_Room (peerHeap s' ! p)) \<and> p_DisplayName (peerHeap s' ! p) = jr_DisplayName j
    \<and> set (p_Features (peerHeap s' ! p)) = set (jr_Features j) \<inter> {FeaturePeerLatency}
    \<and> (TrimSpace (jr_MAC j) \<noteq> '''' \<longrightarrow> ParseMAC (jr_MAC j) = Some (p_MAC (peerHeap s' ! p)))"
proof -
  obtain r1 join0 where read: "ReadJSON (snd (cd_JoinRoom cd)) r TypeJoinRoom (int MaxControlSize) = (r1, Inr join0)"
    and adm: "admitJoin rt (d # ds) (join0\<lparr>jr_Room := TrimSpace (jr_Room join0)\<rparr>) s = (s', Some (Joined p join))"
    using assms(3) by (auto simp: handleJoin_def split: prod.splits sum.splits)
  define j where "j = join0\<lparr>jr_Room := TrimSpace (jr_Room join0)\<rparr>"
  note adm = adm [folded j_def]
  obtain mac where g: "jr_Version j = Version" "jr_Room j \<noteq> ''''" "requestedMAC (jr_MAC j) = Some mac"
    using adm by (auto simp: admitJoin_def split: if_splits option.splits)
  let ?opt = "\<lparr>opt_DisplayName = jr_DisplayName j, opt_RequestedMAC = mac, opt_Features = filterSupportedFeatures (jr_Features j)\<rparr>"
  have run: "Manager_Join (jr_Room j) [?opt] (d # ds) s = (s', Some (Inr p))" and jj: "join = j"
    using adm g by (auto simp: admitJoin_def split: prod.splits option.splits sum.splits simp del: Manager_Join.simps)
  note J = Manager_Join_joined [OF assms(1) unused_fresh [OF assms(1,2)] run]
  have m1: "p_MAC (peerHeap s' ! p) = m" if "ParseMAC (jr_MAC j) = Some m" "TrimSpace (jr_MAC j) \<noteq> ''''" for m
    using J(8) [of m] g(3) that ParseMAC_not_Nil by (auto simp: requestedMAC_def cloneMAC_def split: list.splits)
  have m2: "TrimSpace (jr_MAC j) = '''' \<or> ParseMAC (jr_MAC j) \<noteq> None"
    using g(3) by (cases "ParseMAC (jr_MAC j)") (auto simp: requestedMAC_def split: if_splits)
  have same: "jr_Room j = TrimSpace (jr_Room join0)" "jr_Version join0 = jr_Version j" "jr_MAC join0 = jr_MAC j"
    "jr_DisplayName join0 = jr_DisplayName j" "jr_Features join0 = jr_Features j" "j = join0\<lparr>jr_Room := jr_Room j\<rparr>"
    by (simp_all add: j_def)
  show ?thesis
    using J g m1 m2 read jj by (intro exI [of _ r1] exI [of _ join0] exI [of _ "jr_Room j"])
      (auto simp: same filterSupportedFeatures_def Version_def simp flip: same(1,6))
qed

theorem admitted_as_requested_witness:
  "\<exists>s' p. handleJoin toy_codec [] [demo_draw 3] toy_request demo2 = (s', Some (Joined p toy_join))
     \<and> Manager_Room ''lobby'' s' = Some (p_Room (peerHeap s' ! p))"
proof -
  have "snd (admitJoin [] [demo_draw 3] (toy_join\<lparr>jr_Room := TrimSpace (jr_Room toy_join)\<rparr>) demo2) = Some (Joined 2 toy_join)" by code_simp
  then have "snd (handleJoin toy_codec [] [demo_draw 3] toy_request demo2) = Some (Joined 2 toy_join)"
    by (simp add: handleJoin_def toy_read)
  then obtain s' where run: "handleJoin toy_codec [] [demo_draw 3] toy_request demo2 = (s', Some (Joined 2 toy_join))"
    by (metis prod.collapse)
  have "unused_draw (demo_draw 3) demo2" "TrimSpace (jr_Room toy_join) = ''lobby''" by code_simp+
  then have "Manager_Room ''lobby'' s' = Some (p_Room (peerHeap s' ! 2))"
    using admitted_as_requested [OF demo_inv _ run] by (simp add: toy_read)
  then show ?thesis using run by blast
qed

text \<open>A client that is turned away changes nothing for those who are in: no peer and no
  existing room differs, and the relay keeps its invariant.\<close>

lemma rejected_changes_nothing:
  assumes "store_inv s" and "unused_draw d s" and "handleJoin cd rt (d # ds) r s = (s', Some (Rejected reason))"
  shows "store_inv s' \<and> peerHeap s' = peerHeap s \<and> (\<forall>k < length (roomHeap s). roomHeap s' ! k = roomHeap s ! k)"
proof -
  have "s' = s \<or> (\<exists>name opts e. Manager_Join name opts (d # ds) s = (s', Some (Inl e)))"
    using assms(3) by (auto simp: handleJoin_def admitJoin_def split: prod.splits sum.splits if_splits option.splits simp del: Manager_Join.simps)
  then show ?thesis using assms(1) unused_fresh [OF assms(1,2)] Manager_Join_failed by metis
qed

section \<open>The accept message\<close>

lemma room_snapshot_members:
  assumes "room_inv (peerHeap s) k r"
  shows "ps_ID ` set (rs_Peers (Room_Snapshot s r)) = (\<lambda>p. p_ID (peerHeap s ! p)) ` live r"
    and "length (rs_Peers (Room_Snapshot s r)) = length (r_peers r)"
  using live_list(1) [OF assms] by (auto simp: Room_Snapshot_def Peer_Snapshot_def Let_def image_image)

lemma CIDRMask_24: "CIDRMask 24 4 = [255, 255, 255, 0]"
  by code_simp

lemma mask24: "map2 (AND) (PutUint32 (b + ucast (h :: byte))) (CIDRMask 24 4) = PutUint32 b" if "take_bit 8 b = 0"
proof -
  note m = CIDRMask_24
  have bits: "drop_bit n (ucast h :: u32) = 0" if "8 \<le> n" for n
    by (rule bit_word_eqI) (use that in \<open>auto simp: bit_simps dest: bit_imp_le_length\<close>)
  have z: "(ucast b :: byte) = 0"
    by (rule bit_word_eqI) (use \<open>take_bit 8 b = 0\<close> in \<open>auto simp: bit_simps dest: aligned_bit\<close>)
  have "(0xff :: byte) = - 1" by simp
  then have ff: "(x :: byte) AND 0xff = x" for x by (simp only: and.right_neutral)
  show ?thesis
    unfolding aligned_add [OF that] m by (simp add: PutUint32_def bits z ff)
qed

text \<open>The accept message tells the client exactly what the relay assigned: its IPv4 text
  and its MAC text parse back to the peer's addresses, the CIDR parses to the peer's address
  with the mask 255.255.255.0 and the network of the room, and the peer list names each
  member of the room once, the new peer included.\<close>

lemma buildAccept_facts:
  assumes "store_inv s" and "k < length (roomHeap s)" and "p \<in> live (roomHeap s ! k)" and "a = buildAccept h join p s"
  shows "ParseAddr (ja_IPv4 a) = Some (p_IP (peerHeap s ! p)) \<and> ParseMAC (ja_MAC a) = Some (p_MAC (peerHeap s ! p))
    \<and> ParseCIDR (ja_CIDR a) = Some (As16 (p_IP (peerHeap s ! p)),
          \<lparr>net_IP = As4 (pfx_addr (r_prefix (roomHeap s ! k))), net_Mask = [255, 255, 255, 0]\<rparr>)
    \<and> pi_ID ` set (ja_Peers a) = (\<lambda>q. p_ID (peerHeap s ! q)) ` live (roomHeap s ! k)
    \<and> ja_PeerID a \<in> pi_ID ` set (ja_Peers a) \<and> length (ja_Peers a) = PeerCount k s"
proof -
  note rinv = store_room_inv [OF assms(1,2)]
  let ?q = "peerHeap s ! p" and ?r = "roomHeap s ! k"
  have ok: "p_Room ?q = k" "p_IP ?q = Addr4 (room_base ?r + ucast (peer_host ?q))" "validPeerMAC (p_MAC ?q)"
    using rinv assms(3) by (auto simp: room_inv_def peer_ok_def)
  have pfx: "r_prefix ?r = PrefixFrom (Addr4 (room_base ?r)) 24"
    using store_invD(5) [OF assms(1,2)] room_prefix(3) [OF assms(1,2)] by (simp add: room_ok_def Let_def)
  have addr: "pfx_addr (r_prefix ?r) = Addr4 (room_base ?r)" "pfx_bits (r_prefix ?r) = int 24"
    unfolding pfx by (simp_all add: PrefixFrom_def BitLen_def)
  have "ParseAddr (ja_IPv4 a) = Some (p_IP ?q)"
    using ParseAddr_string4 by (simp add: assms(4) buildAccept_def Let_def ok(2) Addr_String_def)
  moreover have "ParseMAC (ja_MAC a) = Some (p_MAC ?q)"
    using ParseMAC_string [of "p_MAC ?q"] ok(3) by (simp add: assms(4) buildAccept_def Let_def validPeerMAC_def)
  moreover have "ja_CIDR a = Prefix_String (PrefixFrom (p_IP ?q) (int 24))"
    by (simp add: assms(4) buildAccept_def Let_def ok(1) addr(2) del: of_nat_numeral)
  then have "ParseCIDR (ja_CIDR a) = Some (As16 (p_IP ?q), \<lparr>net_IP = As4 (pfx_addr (r_prefix ?r)), net_Mask = [255, 255, 255, 0]\<rparr>)"
    using ParseCIDR_String [of 24 "room_base ?r + ucast (peer_host ?q)"] mask24 [OF room_prefix(2) [OF assms(1,2)]] ok(2)
    by (simp add: As16_def addr(1) CIDRMask_24)
  moreover have "pi_ID ` set (ja_Peers a) = ps_ID ` set (rs_Peers (Room_Snapshot s ?r))"
    "length (ja_Peers a) = length (rs_Peers (Room_Snapshot s ?r))" "ja_PeerID a = p_ID ?q"
    by (simp_all add: assms(4) buildAccept_def Let_def ok(1) toPeerInfos_def image_image)
  ultimately show ?thesis
    using room_snapshot_members [OF rinv] assms(3) by (auto simp: PeerCount_def)
qed


end
