(* ===== verification/Control_Session.thy ===== *)
theory Control_Session
  imports Control_Props
begin

text \<open>
  A session step by step. No event of a session touches the tables of the relay, only the
  queues, counters and rate windows of peers; the relation \<open>same_tables\<close> says so, and every
  operation of the handler stays within it until the clean-up.
\<close>

section \<open>Operations that leave the tables alone\<close>

definition same_tables :: "Store \<Rightarrow> Store \<Rightarrow> bool" where
  "same_tables s t \<longleftrightarrow> mgr t = mgr s \<and> roomHeap t = roomHeap s \<and> length (peerHeap t) = length (peerHeap s)
     \<and> (\<forall>q. same_peer (peerHeap s ! q) (peerHeap t ! q))"

lemma same_tables_refl [simp]: "same_tables s s"
  by (simp add: same_tables_def)

lemma same_tables_trans: "same_tables s t \<Longrightarrow> same_tables t u \<Longrightarrow> same_tables s u"
  by (auto simp: same_tables_def same_peer_def)

lemma same_tables_peer: "same_tables s t \<Longrightarrow> same_peer (peerHeap s ! q) (peerHeap t ! q)"
  by (simp add: same_tables_def)

lemma same_tables_inv: "same_tables s t \<Longrightarrow> store_inv s \<Longrightarrow> store_inv t"
proof -
  assume tab: "same_tables s t" and inv: "store_inv s"
  have "room_inv (peerHeap t) k (roomHeap s ! k)" if "k < length (roomHeap s)" for k
    by (rule room_inv_cong [OF store_room_inv [OF inv that]]) (use tab in \<open>simp_all add: same_tables_def\<close>)
  then have "store_inv (s\<lparr>peerHeap := peerHeap t\<rparr>)" using inv by (rule store_inv_peers [rotated])
  moreover have "s\<lparr>peerHeap := peerHeap t\<rparr> = t" using tab by (simp add: same_tables_def)
  ultimately show ?thesis by simp
qed

lemma same_tables_set: "same_peer (peerHeap s ! p) q \<Longrightarrow> same_tables s (set_peer p q s)"
  by (auto simp: same_tables_def set_peer_def nth_update_any)

lemma same_tables_with: "(\<And>q. same_peer q (f q)) \<Longrightarrow> same_tables s (set_peer_with f p s)"
  by (simp add: set_peer_with_def same_tables_set)

lemma record_same: "same_peer q (RecordDropFrame n q)" "same_peer q (RecordRxFrame n q)" "same_peer q (fst (AllowFrame n now q))"
  "same_peer q (fst (push_notify msg q))"
  by (rule account_same; rule account.intros)+

lemma SendNotify_same: "same_tables s (fst (SendNotify room i msg s))"
proof (cases "map_of (r_peers (roomHeap s ! room)) i")
  case (Some p)
  then show ?thesis
    using record_same(4) by (cases "push_notify msg (peerHeap s ! p)")
      (simp add: SendNotify_def same_tables_set set_peer_def, metis fst_conv same_tables_set set_peer_def record_same(4))
qed (simp add: SendNotify_def)

lemma BroadcastNotify_same:
  assumes "store_inv s" and "k < length (roomHeap s)"
  shows "same_tables s (BroadcastNotify k msg ex s)"
proof -
  let ?ps = "filter (\<lambda>p. Some p \<noteq> ex) (map snd (r_peers (roomHeap s ! k)))"
  have "distinct ?ps" using live_list(2) [OF store_room_inv [OF assms]] by simp
  then show ?thesis
    using foldl_update_each [of ?ps "\<lambda>p. fst (push_notify msg p)" "peerHeap s"] record_same(4)
    by (simp add: same_tables_def BroadcastNotify_def Let_def)
qed

lemma enqueueTargets_same: "enqueueTargets frame ts s = Some t \<Longrightarrow> same_tables s t"
proof (induction ts arbitrary: s)
  case (Cons q ts)
  then obtain x ok where e: "Enqueue frame (peerHeap s ! q) = Some (x, ok)" "enqueueTargets frame ts (set_peer q x s) = Some t"
    by (auto split: option.splits)
  then show ?case
    using Cons.IH same_tables_trans [OF same_tables_set [OF Enqueue_same [OF e(1)]]] by blast
qed simp

lemma Enqueue_open: "\<not> chan_closed (p_Frames q) \<Longrightarrow> \<exists>x ok. Enqueue frame q = Some (x, ok)"
  by (auto simp: Enqueue_def try_send_def)

lemma enqueueTargets_open:
  assumes "\<forall>q \<in> set ts. \<not> chan_closed (p_Frames (peerHeap s ! q))"
  shows "enqueueTargets frame ts s \<noteq> None"
  using assms
proof (induction ts arbitrary: s)
  case (Cons q ts)
  obtain x ok where e: "Enqueue frame (peerHeap s ! q) = Some (x, ok)" using Enqueue_open Cons.prems by (meson list.set_intros(1))
  have "\<not> chan_closed (p_Frames (peerHeap (set_peer q x s) ! t))" if "t \<in> set ts" for t
    using Cons.prems that Enqueue_same [OF e] by (auto simp: set_peer_def nth_update_any same_peer_def)
  then show ?case using Cons.IH e by simp
qed simp

section \<open>Frames\<close>

text \<open>The cases of the handling of a frame.\<close>

lemma dataFrame_cases:
  fixes s :: Store and k :: roomref and p :: peerref and payload :: bytes and now :: time and cap :: "CaptureRecorder option"
  assumes "store_inv s" and "k < length (roomHeap s)" and "p \<in> live (roomHeap s ! k)"
  defines "q \<equiv> peerHeap s ! p" and "n \<equiv> length payload"
  defines "s1 \<equiv> set_peer p (fst (AllowFrame n now q)) s"
  obtains (refused) cap' where "\<not> snd (AllowFrame n now q)"
      and "dataFrame now p payload (cap, s) = Some (cap', set_peer_with (RecordDropFrame n) p s1)"
  | (invalid) cap' e where "snd (AllowFrame n now q)"
      and "Forward k p payload (set_peer_with (RecordRxFrame n) p s1) = Some (set_peer_with (RecordRxFrame n) p s1, Inl e)"
      and "dataFrame now p payload (cap, s) = Some (cap', set_peer_with (RecordDropFrame n) p (set_peer_with (RecordRxFrame n) p s1))"
  | (sent) cap' ts s' where "snd (AllowFrame n now q)"
      and "Forward k p payload (set_peer_with (RecordRxFrame n) p s1) = Some (set_peer_with (RecordRxFrame n) p s1, Inr ts)"
      and "enqueueTargets payload ts (set_peer_with (RecordRxFrame n) p s1) = Some s'"
      and "dataFrame now p payload (cap, s) = Some (cap', s')"
proof -
  obtain cap' where rec: "Record now \<lparr>md_Direction = ''ingress'', md_Room = r_name (roomHeap s ! k),
      md_PeerID = p_ID q, md_PeerName = p_DisplayName q\<rparr> payload cap = Some cap'"
    using Record_total by blast
  have room: "p_Room q = k" using live_room [OF store_room_inv [OF assms(1,2)] assms(3)] by (simp add: q_def)
  let ?s2 = "set_peer_with (RecordRxFrame n) p s1"
  have t2: "same_tables s ?s2"
    using same_tables_trans [OF same_tables_set same_tables_with] record_same by (simp add: s1_def q_def)
  note inv2 = same_tables_inv [OF t2 assms(1)]
  have k2: "k < length (roomHeap ?s2)" "roomHeap ?s2 = roomHeap s" using t2 assms(2) by (simp_all add: same_tables_def)
  have df: "dataFrame now p payload (cap, s) =
      (if \<not> snd (AllowFrame n now q) then Some (cap', set_peer_with (RecordDropFrame n) p s1)
       else case Forward k p payload ?s2 of
           None \<Rightarrow> None
         | Some (s3, Inl e) \<Rightarrow> Some (cap', set_peer_with (RecordDropFrame n) p s3)
         | Some (s3, Inr targets) \<Rightarrow> map_option (\<lambda>s4. (cap', s4)) (enqueueTargets payload targets s3))"
    unfolding dataFrame_def Let_def prod.case q_def [symmetric] rec option.case room n_def [symmetric] s1_def
    by (cases "AllowFrame n now q") simp
  show thesis
  proof (cases "snd (AllowFrame n now q)")
    case False
    then show thesis using refused df by simp
  next
    case ok: True
    obtain s3 res where fwd: "Forward k p payload ?s2 = Some (s3, res)" by (metis Forward_eq surj_pair)
    show thesis
    proof (cases res)
      case (Inl e)
      then have "s3 = ?s2" using fwd by (auto simp: forward_defs split: if_splits option.splits)
      then show thesis using invalid [OF ok] df ok fwd Inl by simp
    next
      case (Inr ts)
      note tg = Forward_targets [OF inv2 k2(1) fwd [unfolded Inr]]
      have "\<not> chan_closed (p_Frames (peerHeap ?s2 ! t))" if "t \<in> set ts" for t
        using tg(2) that store_room_inv [OF inv2 k2(1)] by (auto simp: room_inv_def peer_ok_def)
      then obtain s' where "enqueueTargets payload ts ?s2 = Some s'"
        using enqueueTargets_open [of ts ?s2 payload] by blast
      then show thesis using sent [OF ok] df ok fwd Inr tg(1) by simp
    qed
  qed
qed

lemma dataFrame_same:
  assumes "store_inv s" and "k < length (roomHeap s)" and "p \<in> live (roomHeap s ! k)"
  shows "\<exists>cap' s'. dataFrame now p payload (cap, s) = Some (cap', s') \<and> same_tables s s'"
  using assms
proof (cases rule: dataFrame_cases [of s k p payload now cap])
  case refused
  then show ?thesis using same_tables_trans [OF same_tables_set same_tables_with] record_same by auto
next
  case invalid
  then show ?thesis
    using same_tables_trans [OF same_tables_set same_tables_trans [OF same_tables_with same_tables_with]] record_same by auto
next
  case (sent cap' ts s')
  have "same_tables s s'"
    by (rule same_tables_trans [OF same_tables_trans [OF same_tables_set same_tables_with] enqueueTargets_same [OF sent(3)]])
      (simp_all add: record_same)
  then show ?thesis using sent(4) by auto
qed

section \<open>Events\<close>

lemma forwardPeerPing_same: "same_tables s (fst (forwardPeerPing cd p payload s))"
  and forwardPeerPong_same: "same_tables s (fst (forwardPeerPong cd p payload s))"
  by (simp_all add: forwardPeerPing_def forwardPeerPong_def Let_def SendNotify_same split: sum.splits)

lemma controlMessage_same: "same_tables (ss_store st) (ss_store (controlMessage cd wr p typ payload st))"
  using forwardPeerPing_same [of "ss_store st" cd p payload] forwardPeerPong_same [of "ss_store st" cd p payload]
  by (auto simp: controlMessage_def split: option.splits prod.splits)

lemma take_same:
  "same_peer q (q\<lparr>p_Frames := (p_Frames q)\<lparr>chan_buf := rest\<rparr>\<rparr>)" "same_peer q (q\<lparr>p_Notify := (p_Notify q)\<lparr>chan_buf := rest\<rparr>\<rparr>)"
  by (simp_all add: same_peer_def)

text \<open>The outcome of a session that only worked on queues and counters.\<close>

definition tables_kept :: "Store \<Rightarrow> ('w, 'd) outcome \<Rightarrow> bool" where
  "tables_kept s out =
     (case out of Running st \<Rightarrow> same_tables s (ss_store st) | Ended e st \<Rightarrow> same_tables s (ss_store st) | Panicked \<Rightarrow> False)"

lemma tables_kept_trans: "same_tables s t \<Longrightarrow> tables_kept t out \<Longrightarrow> tables_kept s out"
  by (cases out) (simp_all add: tables_kept_def same_tables_trans [of s t])

lemma sessionEvent_kept:
  assumes "store_inv (ss_store st)" and "k < length (roomHeap (ss_store st))" and "p \<in> live (roomHeap (ss_store st) ! k)"
  shows "tables_kept (ss_store st) (sessionEvent cd wr dwr p ev st)"
proof (cases ev)
  case (EvControl ty payload)
  then show ?thesis by (simp add: sessionEvent_def tables_kept_def controlMessage_same)
next
  case (EvData now ty payload)
  then show ?thesis
    using dataFrame_same [OF assms, of now payload "ss_capture st"] by (auto simp: sessionEvent_def tables_kept_def)
next
  case EvFrameOut
  then show ?thesis
    using same_tables_set [OF take_same(1)]
    by (auto simp: sessionEvent_def tables_kept_def Let_def split: list.splits prod.splits option.splits)
next
  case EvNotifyOut
  then show ?thesis
    using same_tables_set [OF take_same(2)]
    by (auto simp: sessionEvent_def tables_kept_def Let_def split: list.splits prod.splits option.splits)
qed (simp_all add: sessionEvent_def tables_kept_def loopHead_def)

lemma same_tables_member:
  assumes "same_tables s t" and "store_inv s" and "k < length (roomHeap s)" and "p \<in> live (roomHeap s ! k)"
  shows "store_inv t" and "k < length (roomHeap t)" and "p \<in> live (roomHeap t ! k)"
  using assms same_tables_inv by (simp_all add: same_tables_def)

lemma runSession_kept:
  assumes "store_inv (ss_store st)" and "k < length (roomHeap (ss_store st))" and "p \<in> live (roomHeap (ss_store st) ! k)"
  shows "tables_kept (ss_store st) (runSession cd wr dwr p evs (Running st))"
  using assms
proof (induction evs arbitrary: st)
  case (Cons ev evs)
  note one = sessionEvent_kept [OF Cons.prems, of cd wr dwr ev]
  show ?case
  proof (cases "sessionEvent cd wr dwr p ev st")
    case (Running st')
    then have same: "same_tables (ss_store st) (ss_store st')" using one by (simp add: tables_kept_def)
    show ?thesis
      using tables_kept_trans [OF same Cons.IH [OF same_tables_member [OF same Cons.prems]]] Running by simp
  qed (use one in simp_all)
qed (simp add: tables_kept_def)

text \<open>C22. Whatever a client sends and however its streams fail, its session cannot crash the
  server while no other session interferes (no frame is too short for what is sliced from it
  and no queue it sends to is closed), and it changes nothing in the tables of the relay:
  members, addresses and rooms stay as they were, only queues, counters and rate windows move.\<close>

theorem session_keeps_tables:
  assumes "store_inv (ss_store st)" and "k < length (roomHeap (ss_store st))" and "p \<in> live (roomHeap (ss_store st) ! k)"
  shows "\<exists>st'. (runSession cd wr dwr p evs (Running st) = Running st' \<or> (\<exists>e. runSession cd wr dwr p evs (Running st) = Ended e st'))
    \<and> mgr (ss_store st') = mgr (ss_store st) \<and> roomHeap (ss_store st') = roomHeap (ss_store st)
    \<and> store_inv (ss_store st')
    \<and> (\<forall>q. same_peer (peerHeap (ss_store st) ! q) (peerHeap (ss_store st') ! q))"
proof -
  obtain st' where "runSession cd wr dwr p evs (Running st) = Running st' \<or> (\<exists>e. runSession cd wr dwr p evs (Running st) = Ended e st')"
    and "same_tables (ss_store st) (ss_store st')"
    using runSession_kept [OF assms, of cd wr dwr evs] by (auto simp: tables_kept_def split: outcome.splits)
  then show ?thesis using same_tables_inv [OF _ assms(1)] by (auto simp: same_tables_def)
qed

definition demo_session :: "(bytes, bytes) Session" where
  "demo_session = \<lparr>ss_store = demo2, ss_capture = None, ss_control = [], ss_data = [], ss_pending = [], ss_head = True,
     ss_writer = True, ss_notifier = True, ss_reader = True\<rparr>"

definition demo_events :: "session_event list" where
  "demo_events = [EvHead 0, EvData 5 TypeEthernetFrame demo_frame, EvControl TypePing [], EvFrameOut, EvHead 0, EvDataErr (ErrIO EOF)]"

theorem session_keeps_tables_witness:
  "runSession toy_codec buf_Write buf_Write 0 demo_events (Running demo_session) \<noteq> Panicked"
proof -
  have st: "ss_store demo_session = demo2" by (simp add: demo_session_def)
  have m: "0 < length (roomHeap demo2)" "0 \<in> live (roomHeap demo2 ! 0)" using demo_members by simp_all
  obtain st' where "runSession toy_codec buf_Write buf_Write 0 demo_events (Running demo_session) = Running st'
      \<or> (\<exists>e. runSession toy_codec buf_Write buf_Write 0 demo_events (Running demo_session) = Ended e st')"
    using session_keeps_tables [of demo_session, unfolded st, OF demo_inv m] by blast
  then show ?thesis by (elim disjE exE) (simp_all only: outcome.distinct not_False_eq_True)
qed

section \<open>Clean-up\<close>

lemma RemovePeer_other:
  assumes "store_inv s" and "k < length (roomHeap s)" and "p \<in> live (roomHeap s ! k)"
  shows "j \<noteq> k \<Longrightarrow> roomHeap (RemovePeer p k s) ! j = roomHeap s ! j" and "length (roomHeap (RemovePeer p k s)) = length (roomHeap s)"
proof -
  obtain r' s1 where "s1 = s\<lparr>roomHeap := (roomHeap s)[k := r'], peerHeap := (peerHeap s)[p := closeFrames (peerHeap s ! p)]\<rparr>"
    and "RemovePeer p k s = (if live r' = {} then deleteEmptyRoom k s1 else s1)"
    using RemovePeer_registered [OF assms] .
  then show "j \<noteq> k \<Longrightarrow> roomHeap (RemovePeer p k s) ! j = roomHeap s ! j" "length (roomHeap (RemovePeer p k s)) = length (roomHeap s)"
    by (auto simp: deleteEmptyRoom_def Let_def)
qed

lemma leaveRoom_effect:
  fixes cd :: Codec and s :: Store and k :: roomref and p :: peerref
  assumes "store_inv s" and "k < length (roomHeap s)" and "p \<in> live (roomHeap s ! k)"
  defines "s' \<equiv> leaveRoom cd p s" and "t \<equiv> RemovePeer p k s"
  shows "same_tables t s'" and "store_inv s'" and "live (roomHeap s' ! k) = live (roomHeap s ! k) - {p}"
    and "j \<noteq> k \<Longrightarrow> roomHeap s' ! j = roomHeap s ! j" and "chan_closed (p_Frames (peerHeap s' ! p))"
    and "q \<in> live (roomHeap s ! k) \<Longrightarrow> q \<noteq> p
      \<Longrightarrow> peerHeap s' ! q = fst (push_notify (buildPeerListMsg cd (Room_Snapshot t (roomHeap t ! k))) (peerHeap s ! q))"
proof -
  have room: "p_Room (peerHeap s ! p) = k" "p < length (peerHeap s)" using live_room [OF store_room_inv [OF assms(1,2)] assms(3)] by simp_all
  note inv = RemovePeer_inv [OF assms(1,2), of p, folded t_def]
  note other = RemovePeer_other [OF assms(1-3), folded t_def]
  have k: "k < length (roomHeap t)" using other(2) assms(2) by simp
  obtain r' b where "live r' = live (roomHeap s ! k) - {p}" "roomHeap t ! k = r'\<lparr>r_closed := b\<rparr>"
    and ph: "peerHeap t = (peerHeap s)[p := closeFrames (peerHeap s ! p)]"
    using RemovePeer_room [OF assms(1-3), folded t_def] .
  then have lv: "live (roomHeap t ! k) = live (roomHeap s ! k) - {p}" using live_closed by simp
  let ?msg = "buildPeerListMsg cd (Room_Snapshot t (roomHeap t ! k))"
  have s': "s' = (if 0 < PeerCount k t then BroadcastNotify k ?msg None t else t)"
    by (simp add: s'_def t_def leaveRoom_def room Let_def)
  show tab: "same_tables t s'" using s' BroadcastNotify_same [OF inv k] by simp
  show "store_inv s'" using same_tables_inv [OF tab inv] .
  show "live (roomHeap s' ! k) = live (roomHeap s ! k) - {p}" "j \<noteq> k \<Longrightarrow> roomHeap s' ! j = roomHeap s ! j"
    using tab lv other(1) by (simp_all add: same_tables_def)
  have "\<not> p_closing (peerHeap s ! p)" using store_room_inv [OF assms(1,2)] assms(3) by (auto simp: room_inv_def peer_ok_def)
  then have "chan_closed (p_Frames (peerHeap t ! p))" using ph room(2) by (simp add: closeFrames_def close_chan_def)
  then show "chan_closed (p_Frames (peerHeap s' ! p))" using tab by (simp add: same_tables_def same_peer_def)
  show "peerHeap s' ! q = fst (push_notify ?msg (peerHeap s ! q))" if "q \<in> live (roomHeap s ! k)" "q \<noteq> p"
  proof -
    let ?ps = "map snd (r_peers (roomHeap t ! k))"
    note list = live_list [OF store_room_inv [OF inv k]]
    have "q \<in> set ?ps" "distinct ?ps" using that lv list by simp_all
    moreover have "0 < PeerCount k t" using \<open>q \<in> set ?ps\<close> by (auto simp: PeerCount_def intro: list.set_sel)
    moreover have "q < length (peerHeap t)" using that(1) live_room [OF store_room_inv [OF assms(1,2)]] ph by simp
    moreover have "peerHeap t ! q = peerHeap s ! q" using ph that(2) by simp
    ultimately show ?thesis
      using s' foldl_update_each [of ?ps "\<lambda>p. fst (push_notify ?msg p)" "peerHeap t"]
      by (simp add: BroadcastNotify_def Let_def)
  qed
qed

lemma Manager_Join_others:
  assumes "store_inv s" and "fresh_join name opts d s" and "Manager_Join name opts (d # ds) s = (s', Some (Inr p))"
  shows "k < length (roomHeap s) \<Longrightarrow> live (roomHeap s' ! k) - {p} = live (roomHeap s ! k)"
    and "k < length (roomHeap s) \<Longrightarrow> k < length (roomHeap s')"
    and "q < length (peerHeap s) \<Longrightarrow> peerHeap s' ! q = peerHeap s ! q"
proof -
  obtain s1 room where get: "getOrCreateRoom name (d_now d) s = (s1, Inr room)" and at: "store_inv s1" "room < length (roomHeap s1)"
    "peerHeap s1 = peerHeap s" "fresh_draw (roomHeap s1 ! room) (the_opt [the_opt opts]) d"
    "AddPeer room [the_opt opts] d s1 = (s', Inr p)"
    using assms(1,2) by (cases rule: Manager_Join_attempt [of s name opts d ds]) (use assms(3) in auto)
  note new = join_added [OF at(1,2,4,5)]
  obtain i mac and h :: byte and r1 where s': "s' = s1\<lparr>roomHeap := (roomHeap s1)[room := joined r1 i mac p],
      peerHeap := peerHeap s1 @ [newPeer i (the_opt [the_opt opts]) room (Addr4 (room_base (roomHeap s1 ! room) + ucast h)) mac (d_now d)]\<rparr>"
    using new(3) by blast
  have len: "length (roomHeap s) \<le> length (roomHeap s1)"
    by (rule getOrCreateRoom_cases [OF store_invD(1) [OF assms(1)], of name "d_now d"]) (use get in auto)
  show "live (roomHeap s' ! k) - {p} = live (roomHeap s ! k)" if k: "k < length (roomHeap s)"
  proof -
    have "p \<notin> live (roomHeap s ! k)" using live_room [OF store_room_inv [OF assms(1) k]] new(1) at(3) by fastforce
    moreover have "roomHeap s1 ! k = roomHeap s ! k" using getOrCreateRoom_old [OF assms(1) get k] .
    ultimately show ?thesis using new(2) by (cases "k = room") (simp_all add: s')
  qed
  show "k < length (roomHeap s')" if "k < length (roomHeap s)" using that len by (simp add: s')
  show "peerHeap s' ! q = peerHeap s ! q" if "q < length (peerHeap s)" using that at(3) by (simp add: s' nth_append)
qed

lemma handleJoin_joined:
  assumes "store_inv s" and "unused_draw d s" and "handleJoin cd rt (d # ds) r s = (s', Some (Joined p join))"
  obtains opts where "fresh_join (jr_Room join) opts d s" and "Manager_Join (jr_Room join) opts (d # ds) s = (s', Some (Inr p))"
  using assms(3) unused_fresh [OF assms(1,2)] that
  by (auto simp: handleJoin_def admitJoin_def split: prod.splits sum.splits if_splits option.splits simp del: Manager_Join.simps)

lemma openSession_kept:
  assumes "store_inv s" and "p_Room (peerHeap s ! p) < length (roomHeap s)"
  shows "tables_kept s (openSession cd wr dwr opened h join p w d0 s)"
  using BroadcastNotify_same [OF assms]
  by (simp add: openSession_def tables_kept_def Let_def split: prod.splits option.splits sum.splits)

lemma conversation_kept:
  assumes "store_inv s" and "k < length (roomHeap s)" and "p \<in> live (roomHeap s ! k)"
  shows "tables_kept s (runSession cd wr dwr p evs (openSession cd wr dwr opened h join p w d0 s))"
proof -
  have "p_Room (peerHeap s ! p) = k" using live_room [OF store_room_inv [OF assms(1,2)] assms(3)] by simp
  then have op: "tables_kept s (openSession cd wr dwr opened h join p w d0 s)" using assms by (simp add: openSession_kept)
  show ?thesis
  proof (cases "openSession cd wr dwr opened h join p w d0 s")
    case (Running st)
    then have same: "same_tables s (ss_store st)" using op by (simp add: tables_kept_def)
    show ?thesis
      using tables_kept_trans [OF same runSession_kept [OF same_tables_member [OF same assms]]] Running by simp
  qed (use op in simp_all)
qed

text \<open>C11. A conversation that has ended leaves no trace: whatever the client sent and whichever
  error ended it, the new peer is in no room, its frame queue is closed, every room that
  existed has the members it had before the client connected, each with the identity and
  addresses it had, and the relay keeps its invariant.\<close>

theorem conversation_leaves_no_trace:
  assumes "store_inv s" and "unused_draw d s"
    and "handleStream cd rt wr dwr opened h (d # ds) r evs w d0 s = (s', w', Some (Ended e st))"
  shows "store_inv s' \<and> (\<forall>k < length (roomHeap s). live (roomHeap s' ! k) = live (roomHeap s ! k))
    \<and> (\<forall>q < length (peerHeap s). same_peer (peerHeap s ! q) (peerHeap s' ! q))
    \<and> (\<forall>k < length (roomHeap s'). length (peerHeap s) \<notin> live (roomHeap s' ! k))
    \<and> chan_closed (p_Frames (peerHeap s' ! length (peerHeap s)))"
proof -
  obtain s1 p join h1 where hj: "handleJoin cd rt (d # ds) r s = (s1, Some (Joined p join))"
    and run: "runSession cd wr dwr p evs (openSession cd wr dwr opened h1 join p w d0 s1) = Ended e st"
    and s': "s' = leaveRoom cd p (ss_store st)"
    using assms(3) by (auto simp: handleStream_def Let_def split: prod.splits option.splits join_outcome.splits outcome.splits)
  obtain opts where mj: "fresh_join (jr_Room join) opts d s" "Manager_Join (jr_Room join) opts (d # ds) s = (s1, Some (Inr p))"
    using handleJoin_joined [OF assms(1,2) hj] .
  note J = Manager_Join_joined(1-5) [OF assms(1) mj] and O = Manager_Join_others [OF assms(1) mj]
  define room where "room = p_Room (peerHeap s1 ! p)"
  note mem = J(1) J(4,5) [folded room_def]
  have same: "same_tables s1 (ss_store st)"
    using conversation_kept [OF mem, of cd wr dwr evs opened h1 join w d0] run by (simp add: tables_kept_def)
  note mem2 = same_tables_member [OF same mem]
  note L = leaveRoom_effect [OF mem2, where cd = cd, folded s']
  have rooms: "roomHeap (ss_store st) = roomHeap s1" using same by (simp add: same_tables_def)
  have gone: "live (roomHeap s' ! k) = live (roomHeap s1 ! k) - {p}" if "k < length (roomHeap s1)" for k
  proof (cases "k = room")
    case False
    have "p_Room (peerHeap s1 ! p) = k" if "p \<in> live (roomHeap s1 ! k)"
      using live_room [OF store_room_inv [OF J(1) \<open>k < length (roomHeap s1)\<close>] that] by simp
    then have "p \<notin> live (roomHeap s1 ! k)" using False by (auto simp: room_def)
    then show ?thesis using L(4) False rooms by simp
  qed (use L(3) rooms in simp)
  have len: "length (roomHeap s') = length (roomHeap s1)"
    using L(1) RemovePeer_other(2) [OF mem2] rooms by (simp add: same_tables_def)
  have peers: "same_peer (peerHeap s ! q) (peerHeap s' ! q)" if "q < length (peerHeap s)" for q
  proof -
    have "peerHeap (RemovePeer p room (ss_store st)) ! q = peerHeap (ss_store st) ! q"
      using RemovePeer_room [OF mem2] that J(2) by (metis less_irrefl nth_list_update_neq)
    then show ?thesis
      using same_tables_peer [OF L(1), of q] same_tables_peer [OF same, of q] O(3) [OF that] by (simp add: same_peer_def)
  qed
  show ?thesis using L(2,5) gone O(1,2) J(2) len peers by simp
qed

lemma demo_conversation:
  "\<exists>s' w' e st. handleStream toy_codec [] buf_Write buf_Write (Inr []) \<lparr>h_MTU = 0, h_Capture = None\<rparr> [demo_draw 3] toy_request
     [EvHead 0, EvDataErr (ErrIO EOF)] [] [] demo2 = (s', w', Some (Ended e st))"
proof -
  have "snd (admitJoin [] [demo_draw 3] (toy_join\<lparr>jr_Room := TrimSpace (jr_Room toy_join)\<rparr>) demo2) = Some (Joined 2 toy_join)" by code_simp
  then have "snd (handleJoin toy_codec [] [demo_draw 3] toy_request demo2) = Some (Joined 2 toy_join)"
    by (simp add: handleJoin_def toy_read)
  then obtain s1 where hj: "handleJoin toy_codec [] [demo_draw 3] toy_request demo2 = (s1, Some (Joined 2 toy_join))"
    by (metis prod.collapse)
  have w: "writable (TypeJoinAccept, [2])" "writable (TypePing, [])"
    by (simp_all add: writable_def Valid_def message_type_defs size_defs)
  have j: "fst (cd_JoinAccept toy_codec) a = Inr [2]" for a by (simp add: toy_codec_def single_def)
  obtain st where "openSession toy_codec buf_Write buf_Write (Inr []) \<lparr>h_MTU = DefaultMTU, h_Capture = None\<rparr> toy_join 2 [] [] s1 = Running st"
    and "ss_head st" and "ss_pending st = []"
    using w by (simp add: openSession_def Let_def WriteJSON_def j WriteMessage_buf)
  then show ?thesis by (simp add: handleStream_def hj Let_def sessionEvent_def loopHead_def)
qed

theorem conversation_leaves_no_trace_witness:
  "\<exists>s' w' e st. handleStream toy_codec [] buf_Write buf_Write (Inr []) \<lparr>h_MTU = 0, h_Capture = None\<rparr> [demo_draw 3] toy_request
     [EvHead 0, EvDataErr (ErrIO EOF)] [] [] demo2 = (s', w', Some (Ended e st)) \<and> live (roomHeap s' ! 0) = {0, 1}"
proof -
  have "unused_draw (demo_draw 3) demo2" by code_simp
  moreover have "0 < length (roomHeap demo2)" using demo_members(2) by simp
  ultimately show ?thesis
    using demo_conversation conversation_leaves_no_trace [OF demo_inv] demo_members(1) by metis
qed

end
