(* ===== verification/Control_Traffic.thy ===== *)
theory Control_Traffic
  imports Control_Session
begin

text \<open>
  What a session passes on: Ethernet frames with their accounting, and latency probes.
\<close>

section \<open>Accounting of frames\<close>

lemma Forward_cong:
  assumes "same_tables s t"
  shows "map_option snd (Forward k p frame t) = map_option snd (Forward k p frame s)"
proof -
  have "roomHeap t = roomHeap s" "p_MAC (peerHeap t ! q) = p_MAC (peerHeap s ! q)" "p_ID (peerHeap t ! q) = p_ID (peerHeap s ! q)" for q
    using assms by (simp_all add: same_tables_def same_peer_def)
  then show ?thesis by (simp add: forward_defs split: option.splits)
qed

lemma Forward_distinct:
  assumes "store_inv s" and "k < length (roomHeap s)" and "Forward k p frame s = Some (s', Inr ts)"
  shows "distinct ts"
proof -
  have "distinct (map snd (r_peers (roomHeap s ! k)))" using live_list(2) [OF store_room_inv [OF assms(1,2)]] .
  then show ?thesis
    using assms(3) by (auto simp: forward_defs otherPeersLocked_def split: if_splits option.splits)
qed

lemma set_peer_len [simp]: "length (peerHeap (set_peer p q s)) = length (peerHeap s)"
  by (simp add: set_peer_def)

lemma enqueueTargets_each:
  assumes "enqueueTargets frame ts s = Some s'" and "distinct ts"
    and "\<forall>q \<in> set ts. \<not> chan_closed (p_Frames (peerHeap s ! q)) \<and> q < length (peerHeap s)"
  shows "peerHeap s' ! q = (if q \<in> set ts then fst (the (Enqueue frame (peerHeap s ! q))) else peerHeap s ! q)"
  using assms
proof (induction ts arbitrary: s)
  case (Cons t ts)
  then obtain x ok where e: "Enqueue frame (peerHeap s ! t) = Some (x, ok)" "enqueueTargets frame ts (set_peer t x s) = Some s'"
    by (auto split: option.splits)
  have other: "peerHeap (set_peer t x s) ! r = (if r = t then x else peerHeap s ! r)" for r
    using Cons.prems(3) by (simp add: set_peer_def nth_update_any)
  have "peerHeap s' ! q = (if q \<in> set ts then fst (the (Enqueue frame (peerHeap (set_peer t x s) ! q))) else peerHeap (set_peer t x s) ! q)"
  proof (rule Cons.IH [OF e(2)])
    show "distinct ts" using Cons.prems(2) by simp
    have "r \<noteq> t" if "r \<in> set ts" for r using that Cons.prems(2) by auto
    then show "\<forall>r \<in> set ts. \<not> chan_closed (p_Frames (peerHeap (set_peer t x s) ! r)) \<and> r < length (peerHeap (set_peer t x s))"
      using Cons.prems(3) other by auto
  qed
  then show ?case using other e(1) Cons.prems(2) by auto
qed simp

definition frameTargets :: "relay_error + peerref list \<Rightarrow> peerref set" where
  "frameTargets res = (case res of Inl e \<Rightarrow> {} | Inr ts \<Rightarrow> set ts)"

lemma AllowFrame_counters: "p_rxFrames (fst (AllowFrame n now q)) = p_rxFrames q" "p_dropFrames (fst (AllowFrame n now q)) = p_dropFrames q"
  "p_rxBytes (fst (AllowFrame n now q)) = p_rxBytes q" "p_dropBytes (fst (AllowFrame n now q)) = p_dropBytes q"
  by (simp_all add: AllowFrame_def Let_def)

lemma dataFrame_effect:
  assumes "store_inv s" and "k < length (roomHeap s)" and "p \<in> live (roomHeap s ! k)"
    and "allowed = snd (AllowFrame (length payload) now (peerHeap s ! p))" and "Forward k p payload s = Some (t, res)"
  shows "\<exists>cap' s'. dataFrame now p payload (cap, s) = Some (cap', s')
    \<and> p_rxFrames (peerHeap s' ! p) = p_rxFrames (peerHeap s ! p) + (if allowed then 1 else 0)
    \<and> p_rxBytes (peerHeap s' ! p) = p_rxBytes (peerHeap s ! p) + (if allowed then of_nat (length payload) else 0)
    \<and> p_dropFrames (peerHeap s' ! p) = p_dropFrames (peerHeap s ! p) + (if allowed \<and> \<not> isl res then 0 else 1)
    \<and> p_dropBytes (peerHeap s' ! p) = p_dropBytes (peerHeap s ! p) + (if allowed \<and> \<not> isl res then 0 else of_nat (length payload))
    \<and> (\<forall>q. q \<noteq> p \<longrightarrow> peerHeap s' ! q =
          (if allowed \<and> q \<in> frameTargets res then fst (the (Enqueue payload (peerHeap s ! q))) else peerHeap s ! q))"
proof -
  have pl: "p < length (peerHeap s)" using live_room [OF store_room_inv [OF assms(1,2)] assms(3)] by simp
  let ?n = "length payload" and ?q = "peerHeap s ! p"
  let ?s1 = "set_peer p (fst (AllowFrame ?n now ?q)) s"
  let ?s2 = "set_peer_with (RecordRxFrame ?n) p ?s1"
  have t2: "same_tables s ?s2"
    using same_tables_trans [OF same_tables_set same_tables_with] record_same by simp
  have heap1: "peerHeap ?s1 ! q = (if q = p then fst (AllowFrame ?n now ?q) else peerHeap s ! q)"
    and heap2: "peerHeap ?s2 ! q = (if q = p then RecordRxFrame ?n (fst (AllowFrame ?n now ?q)) else peerHeap s ! q)" for q
    using pl by (simp_all add: set_peer_with_def set_peer_def nth_update_any)
  note put = set_peer_with_def set_peer_def nth_update_any
  show ?thesis
    using assms(1-3)
  proof (cases rule: dataFrame_cases [of s k p payload now cap])
    case refused
    then show ?thesis
      using pl assms(4) by (auto simp: put RecordDropFrame_def AllowFrame_counters)
  next
    case (invalid cap' e)
    then have "res = Inl e" using Forward_cong [OF t2, of k p payload] assms(5) by simp
    then show ?thesis
      using invalid pl assms(4) by (auto simp: put RecordDropFrame_def RecordRxFrame_def AllowFrame_counters frameTargets_def)
  next
    case (sent cap' ts s')
    note mem = same_tables_member [OF t2 assms(1-3)]
    note tg = Forward_targets(2) [OF mem(1,2) sent(2)]
    have res: "res = Inr ts" using sent(2) Forward_cong [OF t2, of k p payload] assms(5) by simp
    have "\<forall>q \<in> set ts. \<not> chan_closed (p_Frames (peerHeap ?s2 ! q)) \<and> q < length (peerHeap ?s2)"
      using tg store_room_inv [OF mem(1,2)] by (auto simp: room_inv_def peer_ok_def)
    note each = enqueueTargets_each [OF sent(3) Forward_distinct [OF mem(1,2) sent(2)] this]
    have "peerHeap s' ! p = RecordRxFrame ?n (fst (AllowFrame ?n now ?q))" using each [of p] tg heap2 [of p] by auto
    moreover have "peerHeap s' ! q = (if q \<in> set ts then fst (the (Enqueue payload (peerHeap s ! q))) else peerHeap s ! q)" if "q \<noteq> p" for q
      using each [of q] heap2 [of q] that by simp
    ultimately show ?thesis
      using sent(1,4) res assms(4) by (simp add: frameTargets_def RecordRxFrame_def AllowFrame_counters)
  qed
qed

text \<open>C23. Every Ethernet frame of a client is accounted for exactly once. One that the rate limit
  refuses only counts as dropped; any other counts as received, and as dropped too if it is
  too short or does not carry the client's own MAC as its source. Only an accepted frame
  reaches other peers, precisely the targets of the relay, and each of them either queues it
  or counts it as dropped.\<close>

theorem frame_accounted:
  assumes "store_inv s" and "k < length (roomHeap s)" and "p \<in> live (roomHeap s ! k)"
    and "allowed = snd (AllowFrame (length payload) now (peerHeap s ! p))" and "Forward k p payload s = Some (t, res)"
  shows "\<exists>cap' s'. dataFrame now p payload (cap, s) = Some (cap', s')
    \<and> p_rxFrames (peerHeap s' ! p) = p_rxFrames (peerHeap s ! p) + (if allowed then 1 else 0)
    \<and> p_rxBytes (peerHeap s' ! p) = p_rxBytes (peerHeap s ! p) + (if allowed then of_nat (length payload) else 0)
    \<and> p_dropFrames (peerHeap s' ! p) = p_dropFrames (peerHeap s ! p) + (if allowed \<and> \<not> isl res then 0 else 1)
    \<and> p_dropBytes (peerHeap s' ! p) = p_dropBytes (peerHeap s ! p) + (if allowed \<and> \<not> isl res then 0 else of_nat (length payload))
    \<and> (\<forall>q. q \<noteq> p \<longrightarrow> peerHeap s' ! q =
          (if allowed \<and> q \<in> frameTargets res then fst (the (Enqueue payload (peerHeap s ! q))) else peerHeap s ! q))"
  by (rule dataFrame_effect [OF assms])

theorem frame_accounted_witness:
  "\<exists>cap' s'. dataFrame 5 0 demo_frame (None, demo2) = Some (cap', s')
    \<and> p_rxFrames (peerHeap s' ! 0) = p_rxFrames (peerHeap demo2 ! 0) + 1 \<and> p_dropFrames (peerHeap s' ! 0) = p_dropFrames (peerHeap demo2 ! 0)"
proof -
  have m: "0 < length (roomHeap demo2)" "0 \<in> live (roomHeap demo2 ! 0)" using demo_members by simp_all
  have allowed: "snd (AllowFrame (length demo_frame) 5 (peerHeap demo2 ! 0))" and fwd: "Forward 0 0 demo_frame demo2 = Some (demo2, Inr [1])" by code_simp+
  then show ?thesis using frame_accounted [OF demo_inv m refl fwd, of 5 None] allowed by (auto simp only: if_True simp_thms add_0_right sum.disc)
qed

section \<open>Latency probes\<close>

lemma id_lookup:
  assumes "room_inv ph k r"
  shows "map_of (r_peers r) i = Some q \<longleftrightarrow> q \<in> live r \<and> p_ID (ph ! q) = i"
proof
  assume m: "map_of (r_peers r) i = Some q"
  then have q: "q \<in> live r" by (rule lookup_live)
  have "(i, q) \<in> set (r_peers r)" "(p_ID (ph ! q), q) \<in> set (r_peers r)"
    using m live_lookup [OF assms q] by (simp_all add: map_of_SomeD)
  moreover have "inj_on snd (set (r_peers r))" using live_list(2) [OF assms] by (simp add: distinct_map)
  ultimately have "(i, q) = (p_ID (ph ! q), q)" by (metis inj_onD snd_conv)
  then show "q \<in> live r \<and> p_ID (ph ! q) = i" using q by simp
qed (use live_lookup [OF assms] in auto)

lemma SendNotify_each:
  assumes "store_inv s" and "k < length (roomHeap s)"
  shows "peerHeap (fst (SendNotify k i msg s)) ! q =
    (if q \<in> live (roomHeap s ! k) \<and> p_ID (peerHeap s ! q) = i then fst (push_notify msg (peerHeap s ! q)) else peerHeap s ! q)"
proof (cases "map_of (r_peers (roomHeap s ! k)) i")
  case None
  then show ?thesis using id_lookup [OF store_room_inv [OF assms], of i q] by (auto simp: SendNotify_def)
next
  case (Some x)
  then have x: "x \<in> live (roomHeap s ! k)" "p_ID (peerHeap s ! x) = i" using id_lookup [OF store_room_inv [OF assms]] by simp_all
  then have "x < length (peerHeap s)" using live_room [OF store_room_inv [OF assms]] by simp
  moreover have "q \<in> live (roomHeap s ! k) \<and> p_ID (peerHeap s ! q) = i \<longleftrightarrow> q = x"
    using id_lookup [OF store_room_inv [OF assms], of i q] Some by auto
  ultimately show ?thesis
    using Some by (cases "push_notify msg (peerHeap s ! x)") (simp add: SendNotify_def nth_update_any)
qed

lemma MarshalMessage_reads:
  assumes "sendable j v" and "Valid t" and "t \<noteq> TypeEthernetFrame"
  obtains msg where "MarshalMessage (fst j) t v = Inr msg"
    and "\<And>rest e. ReadJSON (snd j) \<lparr>rd_data = msg @ rest, rd_end = e\<rparr> t (int MaxControlSize) = (\<lparr>rd_data = rest, rd_end = e\<rparr>, Inr v)"
proof -
  obtain bs where b: "snd j bs = Inr v" "MarshalMessage (fst j) t v = Inr (frame_bytes (t, bs))" "readable (int MaxControlSize) (t, bs)"
    using MarshalMessage_sendable [OF assms] .
  have "ReadJSON (snd j) \<lparr>rd_data = frame_bytes (t, bs) @ rest, rd_end = e\<rparr> t (int MaxControlSize) = (\<lparr>rd_data = rest, rd_end = e\<rparr>, Inr v)" for rest e
    using ReadMessage_frame [OF b(3), of rest e] b(1) by (simp add: ReadJSON_def)
  then show thesis using that b(2) by blast
qed

definition passed_on :: "roomref \<Rightarrow> peerref \<Rightarrow> string \<Rightarrow> bytes \<Rightarrow> Store \<Rightarrow> Store \<Rightarrow> bool" where
  "passed_on k p to msg s s' \<longleftrightarrow>
     (\<forall>q. peerHeap s' ! q =
        (if q \<in> live (roomHeap s ! k) \<and> q \<noteq> p \<and> p_ID (peerHeap s ! q) = to \<and> to \<noteq> ''''
         then fst (push_notify msg (peerHeap s ! q)) else peerHeap s ! q))"

lemma SendNotify_passed:
  assumes "store_inv s" and "k < length (roomHeap s)" and "p \<in> live (roomHeap s ! k)"
  shows "passed_on k p to msg s (if to = '''' \<or> to = p_ID (peerHeap s ! p) then s else fst (SendNotify k to msg s))"
proof -
  have "q = p" if "q \<in> live (roomHeap s ! k)" "p_ID (peerHeap s ! q) = p_ID (peerHeap s ! p)" for q
    using live_id_inj [OF store_room_inv [OF assms(1,2)]] that assms(3) by (auto dest: inj_onD)
  then show ?thesis using SendNotify_each [OF assms(1,2)] by (auto simp: passed_on_def)
qed

text \<open>C24. A latency probe or its answer that the server passes on carries the sender's real
  peer id, whatever id the client wrote into it, and nothing else is changed. It goes to
  the addressed member of the sender's own room and to nobody else; one addressed to the
  sender itself, to nobody or to a peer that is not in the room goes nowhere.\<close>

theorem probe_authentic:
  assumes "store_inv s" and "k < length (roomHeap s)" and "p \<in> live (roomHeap s ! k)" and "me = p_ID (peerHeap s ! p)"
    and "snd (cd_Ping cd) pingBytes = Inr ping" and "sendable (cd_Ping cd) (ping\<lparr>ping_FromPeerID := me\<rparr>)"
    and "snd (cd_Pong cd) pongBytes = Inr pong" and "sendable (cd_Pong cd) (pong\<lparr>pong_FromPeerID := me\<rparr>)"
  shows "(\<exists>msg s'. forwardPeerPing cd p pingBytes s = (s', None) \<and> passed_on k p (ping_ToPeerID ping) msg s s'
        \<and> (\<forall>rest e. ReadJSON (snd (cd_Ping cd)) \<lparr>rd_data = msg @ rest, rd_end = e\<rparr> TypePing (int MaxControlSize)
              = (\<lparr>rd_data = rest, rd_end = e\<rparr>, Inr (ping\<lparr>ping_FromPeerID := me\<rparr>))))
    \<and> (\<exists>msg s'. forwardPeerPong cd p pongBytes s = (s', None) \<and> passed_on k p (pong_ToPeerID pong) msg s s'
        \<and> (\<forall>rest e. ReadJSON (snd (cd_Pong cd)) \<lparr>rd_data = msg @ rest, rd_end = e\<rparr> TypePong (int MaxControlSize)
              = (\<lparr>rd_data = rest, rd_end = e\<rparr>, Inr (pong\<lparr>pong_FromPeerID := me\<rparr>))))"
proof -
  have v: "Valid TypePing" "TypePing \<noteq> TypeEthernetFrame" "Valid TypePong" "TypePong \<noteq> TypeEthernetFrame"
    by (simp_all add: Valid_def message_type_defs)
  have room: "p_Room (peerHeap s ! p) = k" using live_room [OF store_room_inv [OF assms(1,2)] assms(3)] by simp
  obtain m1 where m1: "MarshalMessage (fst (cd_Ping cd)) TypePing (ping\<lparr>ping_FromPeerID := me\<rparr>) = Inr m1"
    and r1: "\<And>rest e. ReadJSON (snd (cd_Ping cd)) \<lparr>rd_data = m1 @ rest, rd_end = e\<rparr> TypePing (int MaxControlSize)
      = (\<lparr>rd_data = rest, rd_end = e\<rparr>, Inr (ping\<lparr>ping_FromPeerID := me\<rparr>))"
    using MarshalMessage_reads [OF assms(6) v(1,2)] by blast
  obtain m2 where m2: "MarshalMessage (fst (cd_Pong cd)) TypePong (pong\<lparr>pong_FromPeerID := me\<rparr>) = Inr m2"
    and r2: "\<And>rest e. ReadJSON (snd (cd_Pong cd)) \<lparr>rd_data = m2 @ rest, rd_end = e\<rparr> TypePong (int MaxControlSize)
      = (\<lparr>rd_data = rest, rd_end = e\<rparr>, Inr (pong\<lparr>pong_FromPeerID := me\<rparr>))"
    using MarshalMessage_reads [OF assms(8) v(3,4)] by blast
  note pass = SendNotify_passed [OF assms(1-3)]
  have "forwardPeerPing cd p pingBytes s = (if ping_ToPeerID ping = '''' \<or> ping_ToPeerID ping = me then s
      else fst (SendNotify k (ping_ToPeerID ping) m1 s), None)"
    using m1 by (simp add: forwardPeerPing_def assms(4,5) room Let_def)
  moreover have "forwardPeerPong cd p pongBytes s = (if pong_ToPeerID pong = '''' \<or> pong_ToPeerID pong = me then s
      else fst (SendNotify k (pong_ToPeerID pong) m2 s), None)"
    using m2 by (simp add: forwardPeerPong_def assms(4,7) room Let_def)
  ultimately show ?thesis using pass r1 r2 unfolding assms(4) by blast
qed

definition probe_codec :: Codec where
  "probe_codec = toy_codec\<lparr>
     cd_Ping := (\<lambda>v. Inr (if v = toy_ping then [5] else [8]), \<lambda>bs. Inr (if bs = [5] then toy_ping else toy_ping\<lparr>ping_FromPeerID := ''0102030405060701''\<rparr>)),
     cd_Pong := (\<lambda>v. Inr (if v = toy_pong then [6] else [9]), \<lambda>bs. Inr (if bs = [6] then toy_pong else toy_pong\<lparr>pong_FromPeerID := ''0102030405060701''\<rparr>))\<rparr>"

theorem probe_authentic_witness:
  "\<exists>msg s'. forwardPeerPing probe_codec 0 [5] demo2 = (s', None) \<and> passed_on 0 0 ''0102030405060702'' msg demo2 s'"
proof -
  have m: "0 < length (roomHeap demo2)" "0 \<in> live (roomHeap demo2 ! 0)" using demo_members by simp_all
  have me: "''0102030405060701'' = p_ID (peerHeap demo2 ! 0)" by code_simp
  have b: "snd (cd_Ping probe_codec) [5] = Inr toy_ping" "snd (cd_Pong probe_codec) [6] = Inr toy_pong"
    by (simp_all add: probe_codec_def)
  have s: "sendable (cd_Ping probe_codec) (toy_ping\<lparr>ping_FromPeerID := ''0102030405060701''\<rparr>)"
    "sendable (cd_Pong probe_codec) (toy_pong\<lparr>pong_FromPeerID := ''0102030405060701''\<rparr>)"
    by (simp_all add: sendable_def probe_codec_def toy_ping_def toy_pong_def size_defs)
  have "ping_ToPeerID toy_ping = ''0102030405060702''" by (simp add: toy_ping_def)
  then show ?thesis using probe_authentic [OF demo_inv m me b(1) s(1) b(2) s(2)] by (auto simp only: )
qed

end
