(* ===== verification/Client_Status.thy ===== *)
theory Client_Status
  imports Protocol Netparse
begin

text \<open>
  The state of the client, \<^verbatim>\<open>Status\<close> of \<^verbatim>\<open>src/internal/client/client.go\<close>: what is shown to
  the user, the peer list and the table of latency probes. Every method holds the mutex for
  its whole body, so each is one atomic operation here. The clock and the random bytes of a
  probe id are arguments.
\<close>

section \<open>Data\<close>

definition peerLatencyProbeInterval :: duration where "peerLatencyProbeInterval = 10 * second"
definition peerLatencyProbeTick :: duration where "peerLatencyProbeTick = second"
definition peerLatencyProbeTimeout :: duration where "peerLatencyProbeTimeout = 3 * second"

record Config =
  cfg_Server :: string
  cfg_Room :: string
  cfg_DisplayName :: string
  cfg_DeviceName :: string
  cfg_InsecureSkipVerify :: bool
  cfg_PrioritizeVirtualAdapter :: bool

record PeerLatency =
  lat_RTT :: duration
  lat_State :: string
  lat_UpdatedAt :: time
  lat_Pending :: bool
  lat_ProbeID :: string
  lat_SentAt :: time
  lat_NextProbe :: time
  lat_Index :: nat
  lat_Order :: int

definition zero_latency :: PeerLatency where
  "zero_latency = \<lparr>lat_RTT = 0, lat_State = '''', lat_UpdatedAt = 0, lat_Pending = False, lat_ProbeID = '''',
     lat_SentAt = 0, lat_NextProbe = 0, lat_Index = 0, lat_Order = 0\<rparr>"

record peerProbe =
  probe_PeerID :: string
  probe_ID :: string
  probe_SentAt :: time

text \<open>A nil map of latencies is None.\<close>

record Status =
  st_server :: string
  st_room :: string
  st_displayName :: string
  st_deviceName :: string
  st_insecureSkipVerify :: bool
  st_prioritizeVirtualAdapter :: bool
  st_state :: string
  st_lastError :: string
  st_peerID :: string
  st_ipv4 :: string
  st_cidr :: string
  st_mac :: string
  st_mtu :: int
  st_joinedAt :: time
  st_updatedAt :: time
  st_roomCreatedAt :: time
  st_peers :: "PeerInfo list"
  st_peerLatency :: "(string, PeerLatency) gomap option"
  st_rxBytes :: u64
  st_rxFrames :: u64
  st_txBytes :: u64
  st_txFrames :: u64
  st_reconnects :: u64

section \<open>Sessions\<close>

definition newStatus :: "time \<Rightarrow> Config \<Rightarrow> Status" where
  "newStatus now cfg =
     \<lparr>st_server = cfg_Server cfg, st_room = cfg_Room cfg, st_displayName = cfg_DisplayName cfg,
      st_deviceName = cfg_DeviceName cfg, st_insecureSkipVerify = cfg_InsecureSkipVerify cfg,
      st_prioritizeVirtualAdapter = cfg_PrioritizeVirtualAdapter cfg, st_state = ''starting'', st_lastError = '''',
      st_peerID = '''', st_ipv4 = '''', st_cidr = '''', st_mac = '''', st_mtu = 0, st_joinedAt = 0, st_updatedAt = now,
      st_roomCreatedAt = 0, st_peers = [], st_peerLatency = None, st_rxBytes = 0, st_rxFrames = 0, st_txBytes = 0,
      st_txFrames = 0, st_reconnects = 0\<rparr>"

definition newIdleStatus :: "time \<Rightarrow> Config \<Rightarrow> Status" where
  "newIdleStatus now cfg = (newStatus now cfg)\<lparr>st_state := ''idle''\<rparr>"

definition startSession :: "time \<Rightarrow> Config \<Rightarrow> Status \<Rightarrow> Status" where
  "startSession now cfg s =
     s\<lparr>st_server := cfg_Server cfg, st_room := cfg_Room cfg, st_displayName := cfg_DisplayName cfg,
       st_deviceName := cfg_DeviceName cfg, st_insecureSkipVerify := cfg_InsecureSkipVerify cfg,
       st_prioritizeVirtualAdapter := cfg_PrioritizeVirtualAdapter cfg, st_state := ''starting'', st_lastError := '''',
       st_peerID := '''', st_ipv4 := '''', st_cidr := '''', st_mac := '''', st_mtu := 0, st_joinedAt := 0,
       st_roomCreatedAt := 0, st_peers := [], st_peerLatency := None, st_rxBytes := 0, st_rxFrames := 0,
       st_txBytes := 0, st_txFrames := 0, st_reconnects := 0, st_updatedAt := now\<rparr>"

definition setState :: "time \<Rightarrow> string \<Rightarrow> Status \<Rightarrow> Status" where
  "setState now state s = s\<lparr>st_state := state, st_updatedAt := now\<rparr>"

section \<open>The table of latencies\<close>

definition lat_of :: "(string, PeerLatency) gomap \<Rightarrow> string \<Rightarrow> PeerLatency" where
  "lat_of m i = (case map_of m i of None \<Rightarrow> zero_latency | Some l \<Rightarrow> l)"

definition keepPeer :: "nat \<Rightarrow> PeerLatency \<Rightarrow> PeerLatency" where
  "keepPeer i state =
     (if lat_State state = '''' then state\<lparr>lat_State := ''unknown''\<rparr> else state)\<lparr>lat_Index := i, lat_Order := int i\<rparr>"

fun keepEach :: "nat \<Rightarrow> PeerInfo list \<Rightarrow> (string, PeerLatency) gomap \<Rightarrow> (string, PeerLatency) gomap" where
  "keepEach i [] m = m"
| "keepEach i (peer # peers) m =
     keepEach (Suc i) peers (AList.update (pi_ID peer) (keepPeer i (lat_of m (pi_ID peer))) m)"

definition keepLatencyPeersLocked :: "Status \<Rightarrow> Status" where
  "keepLatencyPeersLocked s =
     (let m = (case st_peerLatency s of None \<Rightarrow> [] | Some m \<Rightarrow> m);
          m1 = keepEach 0 (st_peers s) m
      in s\<lparr>st_peerLatency := Some (filter (\<lambda>(i, l). i \<in> pi_ID ` set (st_peers s)) m1)\<rparr>)"

definition joined_status :: "time \<Rightarrow> JoinAccept \<Rightarrow> Status \<Rightarrow> Status" where
  "joined_status now accept s =
     (keepLatencyPeersLocked
        (s\<lparr>st_state := ''connected'', st_lastError := '''', st_peerID := ja_PeerID accept, st_ipv4 := ja_IPv4 accept,
           st_cidr := ja_CIDR accept, st_mac := ja_MAC accept, st_mtu := ja_MTU accept,
           st_roomCreatedAt := ja_RoomCreatedAt accept, st_peers := ja_Peers accept\<rparr>))
       \<lparr>st_joinedAt := now, st_updatedAt := now\<rparr>"

definition updatePeers :: "time \<Rightarrow> PeerList \<Rightarrow> Status \<Rightarrow> Status" where
  "updatePeers now pl s =
     (keepLatencyPeersLocked (s\<lparr>st_roomCreatedAt := pl_RoomCreatedAt pl, st_peers := pl_Peers pl\<rparr>))
       \<lparr>st_updatedAt := now\<rparr>"

fun hasFeature :: "string list \<Rightarrow> string \<Rightarrow> bool" where
  "hasFeature [] want = False"
| "hasFeature (feature # features) want = (if feature = want then True else hasFeature features want)"

definition nonceHex :: "bytes option \<Rightarrow> string option" where
  "nonceHex r = (case r of None \<Rightarrow> None | Some buf \<Rightarrow> Some (hex_bytes buf))"

text \<open>The loop that looks for the peer whose turn it is: its id and its order, the id empty if none.\<close>

fun bestProbe :: "Status \<Rightarrow> time \<Rightarrow> (string, PeerLatency) gomap \<Rightarrow> PeerInfo list \<Rightarrow> string \<times> int \<Rightarrow> string \<times> int" where
  "bestProbe s now m [] best = best"
| "bestProbe s now m (peer # peers) (bestPeerID, bestOrder) =
     (if pi_ID peer = st_peerID s \<or> \<not> hasFeature (pi_Features peer) FeaturePeerLatency
      then bestProbe s now m peers (bestPeerID, bestOrder)
      else
        (let latency = lat_of m (pi_ID peer) in
         if lat_Pending latency \<or> now < lat_NextProbe latency then bestProbe s now m peers (bestPeerID, bestOrder)
         else if bestPeerID = '''' \<or> lat_Order latency < bestOrder
         then bestProbe s now m peers (pi_ID peer, lat_Order latency)
         else bestProbe s now m peers (bestPeerID, bestOrder)))"

definition nextLatencyProbe :: "bytes option \<Rightarrow> time \<Rightarrow> Status \<Rightarrow> Status \<times> peerProbe option" where
  "nextLatencyProbe rnd now s0 =
     (if st_state s0 \<noteq> ''connected'' \<or> st_peerID s0 = '''' then (s0, None)
      else
        (let s = (if st_peerLatency s0 = None then keepLatencyPeersLocked s0 else s0);
             m = (case st_peerLatency s of None \<Rightarrow> [] | Some m \<Rightarrow> m);
             bestPeerID = fst (bestProbe s now m (st_peers s) ('''', 0))
         in if bestPeerID = '''' then (s, None)
            else case nonceHex rnd of
              None \<Rightarrow> (s, None)
            | Some probeID \<Rightarrow>
                (let latency = (lat_of m bestPeerID)
                       \<lparr>lat_Pending := True, lat_ProbeID := probeID, lat_SentAt := now,
                        lat_NextProbe := now + peerLatencyProbeInterval, lat_State := ''pending'',
                        lat_UpdatedAt := now, lat_Order := UnixNano now\<rparr>
                 in (s\<lparr>st_peerLatency := Some (AList.update bestPeerID latency m), st_updatedAt := now\<rparr>,
                     Some \<lparr>probe_PeerID = bestPeerID, probe_ID = probeID, probe_SentAt = now\<rparr>))))"

definition recordLatencyPong :: "PeerPong \<Rightarrow> time \<Rightarrow> Status \<Rightarrow> Status" where
  "recordLatencyPong pong now s =
     (let m = (case st_peerLatency s of None \<Rightarrow> [] | Some m \<Rightarrow> m)
      in case map_of m (pong_FromPeerID pong) of
           None \<Rightarrow> s
         | Some latency \<Rightarrow>
             if \<not> lat_Pending latency \<or> lat_ProbeID latency \<noteq> pong_ID pong then s
             else s\<lparr>st_peerLatency := Some (AList.update (pong_FromPeerID pong)
                      (latency\<lparr>lat_RTT := time_Sub now (lat_SentAt latency), lat_State := ''ok'', lat_UpdatedAt := now,
                               lat_Pending := False, lat_ProbeID := ''''\<rparr>) m),
                    st_updatedAt := now\<rparr>)"

definition expired :: "time \<Rightarrow> PeerLatency \<Rightarrow> bool" where
  "expired now latency \<longleftrightarrow> \<not> (\<not> lat_Pending latency \<or> time_Sub now (lat_SentAt latency) < peerLatencyProbeTimeout)"

definition expireLatencyProbes :: "time \<Rightarrow> Status \<Rightarrow> Status" where
  "expireLatencyProbes now s =
     (let m = (case st_peerLatency s of None \<Rightarrow> [] | Some m \<Rightarrow> m);
          m1 = map (\<lambda>(i, latency). (i, if expired now latency
                 then latency\<lparr>lat_Pending := False, lat_ProbeID := '''', lat_State := ''timeout'', lat_UpdatedAt := now\<rparr>
                 else latency)) m;
          changed = (\<exists>(i, latency) \<in> set m. expired now latency)
      in if changed then s\<lparr>st_peerLatency := Some m1, st_updatedAt := now\<rparr> else s)"

section \<open>Lookups\<close>

definition localPeerID :: "Status \<Rightarrow> string" where
  "localPeerID s = st_peerID s"

text \<open>A nil address or MAC is the empty list.\<close>

fun macForIPv4 :: "string \<Rightarrow> bytes \<Rightarrow> PeerInfo list \<Rightarrow> bytes" where
  "macForIPv4 own ip [] = []"
| "macForIPv4 own ip (peer # peers) =
     (if pi_IPv4 peer = own \<or> pi_IPv4 peer = '''' \<or> pi_MAC peer = '''' then macForIPv4 own ip peers
      else
        (let peerIP = To4 (ParseIP (pi_IPv4 peer)) in
         if peerIP = [] \<or> \<not> IP_Equal peerIP ip then macForIPv4 own ip peers
         else case ParseMAC (pi_MAC peer) of None \<Rightarrow> [] | Some mac \<Rightarrow> mac))"

definition peerMACForIPv4 :: "bytes \<Rightarrow> Status \<Rightarrow> bytes" where
  "peerMACForIPv4 ip s = (if ip = [] then [] else macForIPv4 (st_ipv4 s) ip (st_peers s))"

section \<open>The end of a session\<close>

definition endSession :: "time \<Rightarrow> string option \<Rightarrow> string \<Rightarrow> Status \<Rightarrow> Status" where
  "endSession now err state s =
     (let s1 = s\<lparr>st_state := state\<rparr>;
          s2 = (case err of None \<Rightarrow> s1 | Some e \<Rightarrow> s1\<lparr>st_lastError := e\<rparr>)
      in s2\<lparr>st_peerID := '''', st_ipv4 := '''', st_cidr := '''', st_mac := '''', st_mtu := 0, st_joinedAt := 0,
            st_roomCreatedAt := 0, st_peers := [], st_peerLatency := None, st_updatedAt := now\<rparr>)"

definition recordRx :: "nat \<Rightarrow> Status \<Rightarrow> Status" where
  "recordRx sz s = s\<lparr>st_rxFrames := st_rxFrames s + 1, st_rxBytes := st_rxBytes s + of_nat sz\<rparr>"

definition recordTx :: "nat \<Rightarrow> Status \<Rightarrow> Status" where
  "recordTx sz s = s\<lparr>st_txFrames := st_txFrames s + 1, st_txBytes := st_txBytes s + of_nat sz\<rparr>"

section \<open>Snapshots\<close>

text \<open>
  A latency is shown in milliseconds, as the number of whole microseconds divided by 1000; the
  snapshot of the model keeps the microseconds.
\<close>

definition Microseconds :: "duration \<Rightarrow> int" where
  "Microseconds d = sgn d * (\<bar>d\<bar> div 1000)"

record ClientPeerSnapshot =
  cps_ID :: string
  cps_DisplayName :: string
  cps_IPv4 :: string
  cps_MAC :: string
  cps_Features :: "string list"
  cps_LatencyMicros :: "int option"
  cps_LatencyState :: string
  cps_LatencyUpdatedAt :: "time option"

record ClientSnapshot =
  cs_GeneratedAt :: time
  cs_Server :: string
  cs_Room :: string
  cs_DisplayName :: string
  cs_DeviceName :: string
  cs_InsecureSkipVerify :: bool
  cs_PrioritizeVirtualAdapter :: bool
  cs_State :: string
  cs_LastError :: string
  cs_PeerID :: string
  cs_IPv4 :: string
  cs_CIDR :: string
  cs_MAC :: string
  cs_MTU :: int
  cs_JoinedAt :: time
  cs_RoomCreatedAt :: time
  cs_Peers :: "ClientPeerSnapshot list"
  cs_RxBytes :: u64
  cs_RxFrames :: u64
  cs_TxBytes :: u64
  cs_TxFrames :: u64
  cs_Reconnects :: u64

definition peerSnap :: "(string, PeerLatency) gomap option \<Rightarrow> PeerInfo \<Rightarrow> ClientPeerSnapshot" where
  "peerSnap lat peer =
     (let base = \<lparr>cps_ID = pi_ID peer, cps_DisplayName = pi_DisplayName peer, cps_IPv4 = pi_IPv4 peer, cps_MAC = pi_MAC peer,
            cps_Features = pi_Features peer, cps_LatencyMicros = None, cps_LatencyState = '''', cps_LatencyUpdatedAt = None\<rparr>
      in case map_of (case lat of None \<Rightarrow> [] | Some m \<Rightarrow> m) (pi_ID peer) of
           None \<Rightarrow> base
         | Some latency \<Rightarrow>
             if lat_State latency = '''' then base
             else base\<lparr>cps_LatencyState := lat_State latency,
                       cps_LatencyUpdatedAt := (if IsZero (lat_UpdatedAt latency) then None else Some (lat_UpdatedAt latency)),
                       cps_LatencyMicros := (if lat_State latency = ''ok'' then Some (Microseconds (lat_RTT latency)) else None)\<rparr>)"

definition Status_Snapshot :: "time \<Rightarrow> Status \<Rightarrow> ClientSnapshot" where
  "Status_Snapshot now s =
     \<lparr>cs_GeneratedAt = now, cs_Server = st_server s, cs_Room = st_room s, cs_DisplayName = st_displayName s,
      cs_DeviceName = st_deviceName s, cs_InsecureSkipVerify = st_insecureSkipVerify s,
      cs_PrioritizeVirtualAdapter = st_prioritizeVirtualAdapter s, cs_State = st_state s, cs_LastError = st_lastError s,
      cs_PeerID = st_peerID s, cs_IPv4 = st_ipv4 s, cs_CIDR = st_cidr s, cs_MAC = st_mac s, cs_MTU = st_mtu s,
      cs_JoinedAt = st_joinedAt s, cs_RoomCreatedAt = st_roomCreatedAt s,
      cs_Peers = map (peerSnap (st_peerLatency s)) (st_peers s), cs_RxBytes = st_rxBytes s, cs_RxFrames = st_rxFrames s,
      cs_TxBytes = st_txBytes s, cs_TxFrames = st_txFrames s, cs_Reconnects = st_reconnects s\<rparr>"

end
