(* ===== verification/Client_IP.thy ===== *)
theory Client_IP
  imports Client_Status Capture_Props
begin

text \<open>
  The bridge between a TUN device, which carries IP packets, and the room, which carries
  Ethernet frames: \<^verbatim>\<open>ethernetFrameFromIPv4\<close> to \<^verbatim>\<open>arpReply\<close> of
  \<^verbatim>\<open>src/internal/client/client.go\<close>. An absent address is the empty list. Every index and every
  slice is checked, also in the conditions that guard them; None is the panic.
\<close>

section \<open>Copying into a buffer\<close>

text \<open>\<^verbatim>\<open>copy(xs[i:j], src)\<close>: the bounds are checked, and as much is copied as both sides hold.\<close>

definition copy_at :: "nat \<Rightarrow> nat \<Rightarrow> 'a list \<Rightarrow> 'a list \<Rightarrow> 'a list option" where
  "copy_at i j src xs =
     (if i \<le> j \<and> j \<le> length xs
      then let n = min (j - i) (length src) in Some (take i xs @ take n src @ drop (i + n) xs)
      else None)"

definition put_at :: "nat \<Rightarrow> 'a \<Rightarrow> 'a list \<Rightarrow> 'a list option" where
  "put_at i v xs = (if i < length xs then Some (xs[i := v]) else None)"

section \<open>Frames and packets\<close>

definition ethernetFrameFromIPv4 :: "bytes \<Rightarrow> bytes \<Rightarrow> bytes \<Rightarrow> bytes option" where
  "ethernetFrameFromIPv4 packet dst src = do {
     let frame = replicate (14 + length packet) 0;
     f1 \<leftarrow> copy_at 0 6 dst frame;
     f2 \<leftarrow> copy_at 6 12 src f1;
     f3 \<leftarrow> put_at 12 0x08 f2;
     f4 \<leftarrow> put_at 13 0x00 f3;
     copy_at 14 (length f4) packet f4
   }"

definition isIPv4Packet :: "bytes \<Rightarrow> bool option" where
  "isIPv4Packet packet =
     all_of [Some (20 \<le> length packet), map_option (\<lambda>b. drop_bit 4 b = 4) (index packet 0)]"

definition isIPv4EthernetFrame :: "bytes \<Rightarrow> bool option" where
  "isIPv4EthernetFrame frame =
     all_of [Some (34 \<le> length frame), byte_is frame 12 0x08, byte_is frame 13 0x00,
       slice_from 14 frame \<bind> isIPv4Packet]"

definition ipv4Src :: "bytes \<Rightarrow> bytes option" where
  "ipv4Src packet = slice 12 16 packet"

definition ipv4Dst :: "bytes \<Rightarrow> bytes option" where
  "ipv4Dst packet = slice 16 20 packet"

definition IPv4bcast :: bytes where
  "IPv4bcast = v4InV6Prefix @ [255, 255, 255, 255]"

definition shouldDeliverIPv4ToTUN :: "bytes \<Rightarrow> bytes \<Rightarrow> bytes \<Rightarrow> bool option" where
  "shouldDeliverIPv4ToTUN packet ownIP roomBroadcast = do {
     dst \<leftarrow> ipv4Dst packet;
     Some (if IP_Equal dst ownIP \<or> IP_Equal dst IPv4bcast \<or> IsMulticast dst then True
           else roomBroadcast \<noteq> [] \<and> IP_Equal dst roomBroadcast)
   }"

definition broadcastIPv4 :: "string \<Rightarrow> bytes option" where
  "broadcastIPv4 cidr =
     (case ParseCIDR cidr of
        None \<Rightarrow> Some []
      | Some (_, network) \<Rightarrow>
          (let ip = To4 (net_IP network); mask = net_Mask network in
           if ip = [] \<or> length mask \<noteq> 4 then Some []
           else those (map (\<lambda>i. do { a \<leftarrow> index ip i; m \<leftarrow> index mask i; Some (a OR NOT m) }) [0 ..< 4])))"

definition broadcastMAC :: bytes where
  "broadcastMAC = [0xff, 0xff, 0xff, 0xff, 0xff, 0xff]"

definition isARPRequestForIPv4 :: "bytes \<Rightarrow> bytes \<Rightarrow> bool option" where
  "isARPRequestForIPv4 frame ownIP =
     all_of [Some (42 \<le> length frame), byte_is frame 12 0x08, byte_is frame 13 0x06,
       u16_is frame 14 1, u16_is frame 16 0x0800, byte_is frame 18 6, byte_is frame 19 4, u16_is frame 20 1,
       map_option (\<lambda>ip. IP_Equal ip ownIP) (slice 38 42 frame)]"

definition arpReply :: "bytes \<Rightarrow> bytes \<Rightarrow> bytes \<Rightarrow> bytes option" where
  "arpReply request ownMAC ownIP = do {
     let reply = replicate 42 0;
     d \<leftarrow> slice 6 12 request;   r1 \<leftarrow> copy_at 0 6 d reply;
     r2 \<leftarrow> copy_at 6 12 ownMAC r1;
     r3 \<leftarrow> put_at 12 0x08 r2;
     r4 \<leftarrow> put_at 13 0x06 r3;
     h \<leftarrow> slice 14 22 request;  r5 \<leftarrow> copy_at 14 22 h r4;
     r6 \<leftarrow> copy_at 20 22 (PutUint16 2) r5;
     r7 \<leftarrow> copy_at 22 28 ownMAC r6;
     r8 \<leftarrow> copy_at 28 32 (To4 ownIP) r7;
     sm \<leftarrow> slice 22 28 request; r9 \<leftarrow> copy_at 32 38 sm r8;
     si \<leftarrow> slice 28 32 request; copy_at 38 42 si r9
   }"

section \<open>No check reads out of range\<close>

text \<open>The length that each check tests first covers all its reads: it always has an answer.\<close>

lemma isIPv4Packet_eq: "isIPv4Packet packet = Some (20 \<le> length packet \<and> drop_bit 4 (packet ! 0) = 4)"
  by (simp add: isIPv4Packet_def index_def)

lemma isIPv4EthernetFrame_eq:
  "isIPv4EthernetFrame frame = Some (34 \<le> length frame \<and> frame ! 12 = 0x08 \<and> frame ! 13 = 0x00
     \<and> drop_bit 4 (frame ! 14) = 4)"
  by (simp add: isIPv4EthernetFrame_def byte_is_def index_def slice_from_def isIPv4Packet_eq)

lemma isARPRequestForIPv4_eq:
  "isARPRequestForIPv4 frame ownIP = Some
     (42 \<le> length frame \<and> frame ! 12 = 0x08 \<and> frame ! 13 = 0x06
      \<and> Uint16 (drop 14 (take 16 frame)) = 1 \<and> Uint16 (drop 16 (take 18 frame)) = 0x0800
      \<and> frame ! 18 = 6 \<and> frame ! 19 = 4 \<and> Uint16 (drop 20 (take 22 frame)) = 1
      \<and> IP_Equal (drop 38 (take 42 frame)) ownIP)"
  by (simp add: isARPRequestForIPv4_def byte_is_def u16_is_def index_def slice_def)

lemma To4_length: "To4 ip = [] \<or> length (To4 ip) = 4"
  by (simp add: To4_def)

lemma broadcastIPv4_eq:
  "broadcastIPv4 cidr = Some
     (case ParseCIDR cidr of
        None \<Rightarrow> []
      | Some (_, network) \<Rightarrow>
          (let ip = To4 (net_IP network) in
           if ip = [] \<or> length (net_Mask network) \<noteq> 4 then []
           else map (\<lambda>i. ip ! i OR NOT (net_Mask network ! i)) [0 ..< 4]))"
proof -
  have "those (map (\<lambda>i. do { a \<leftarrow> index ip i; m \<leftarrow> index mask i; Some (a OR NOT m) }) [0 ..< 4])
      = Some (map (\<lambda>i. ip ! i OR NOT (mask ! i)) [0 ..< 4])" if "length ip = 4" "length mask = 4" for ip mask :: bytes
    using that by (simp add: index_def upt_rec)
  then show ?thesis
    using To4_length by (auto simp: broadcastIPv4_def Let_def split: option.splits)
qed

section \<open>What the code builds\<close>

lemma replicate_split: "replicate (m + n) x = replicate m x @ replicate n x"
  by (simp add: replicate_add)

lemma copy_at_fill:
  assumes "length a = i" and "length src = length b" and "j = i + length b"
  shows "copy_at i j src (a @ b @ c) = Some (a @ src @ c)"
  using assms by (simp add: copy_at_def)

lemma put_at_fill: "length a = i \<Longrightarrow> put_at i v (a @ x # c) = Some (a @ v # c)"
  by (auto simp: put_at_def)

lemma ethernetFrame_bytes:
  assumes "length dst = 6" and "length src = 6"
  shows "ethernetFrameFromIPv4 packet dst src = Some (dst @ src @ [0x08, 0x00] @ packet)"
proof -
  let ?z = "\<lambda>n. replicate n (0 :: byte)"
  have z: "?z (14 + length packet) = [] @ ?z 6 @ (?z 6 @ ?z 2 @ ?z (length packet))"
    by (simp add: replicate_add [symmetric] numeral_eq_Suc)
  have c1: "copy_at 0 6 dst ([] @ ?z 6 @ (?z 6 @ ?z 2 @ ?z (length packet))) = Some ([] @ dst @ (?z 6 @ ?z 2 @ ?z (length packet)))"
    using assms by (intro copy_at_fill) simp_all
  have c2: "copy_at 6 12 src (dst @ ?z 6 @ (?z 2 @ ?z (length packet))) = Some (dst @ src @ (?z 2 @ ?z (length packet)))"
    using assms by (intro copy_at_fill) simp_all
  have c3: "put_at 12 8 ((dst @ src) @ 0 # 0 # ?z (length packet)) = Some ((dst @ src) @ 8 # 0 # ?z (length packet))"
    using assms by (intro put_at_fill) simp
  have c4: "put_at 13 0 ((dst @ src @ [8]) @ 0 # ?z (length packet)) = Some ((dst @ src @ [8]) @ 0 # ?z (length packet))"
    using assms by (intro put_at_fill) simp
  have c5: "copy_at 14 (14 + length packet) packet ((dst @ src @ [8, 0]) @ ?z (length packet) @ []) = Some ((dst @ src @ [8, 0]) @ packet @ [])"
    using assms by (intro copy_at_fill) simp_all
  show ?thesis
    using c1 c2 c3 c4 c5 assms unfolding ethernetFrameFromIPv4_def Let_def z
    by (simp add: numeral_2_eq_2)
qed

lemma slice_part: "length a = i \<Longrightarrow> j = i + length b \<Longrightarrow> slice i j (a @ b @ c) = Some b"
  by (simp add: slice_def)

text \<open>The parts of an ARP packet in its frame: source, EtherType, the fixed fields, the opcode and the sender.\<close>

lemma arpReply_parts:
  assumes "length d0 = 6" "length d = 6" "length t = 2" "length h = 6" "length op = 2" "length sm = 6" "length si = 4"
    and "length ownMAC = 6" and "length (To4 ownIP) = 4"
  shows "arpReply (d0 @ d @ t @ h @ op @ sm @ si @ rest) ownMAC ownIP
    = Some (d @ ownMAC @ [0x08, 0x06] @ h @ [0, 2] @ ownMAC @ To4 ownIP @ sm @ si)"
proof -
  let ?z = "\<lambda>n. replicate n (0 :: byte)" and ?ip = "To4 ownIP" and ?req = "d0 @ d @ t @ h @ op @ sm @ si @ rest"
  note len = assms
  have s: "slice 6 12 ?req = Some d" "slice 14 22 ?req = Some (h @ op)" "slice 22 28 ?req = Some sm" "slice 28 32 ?req = Some si"
    using slice_part [of d0 6 12 d] slice_part [of "d0 @ d @ t" 14 22 "h @ op"] slice_part [of "d0 @ d @ t @ h @ op" 22 28 sm]
      slice_part [of "d0 @ d @ t @ h @ op @ sm" 28 32 si] len by simp_all
  have z: "?z 42 = [] @ ?z 6 @ (?z 6 @ 0 # 0 # ?z 8 @ ?z 6 @ ?z 4 @ ?z 6 @ ?z 4)" by (simp add: numeral_eq_Suc)
  have u: "PutUint16 2 = [0, 2]" by code_simp
  note fill = copy_at_fill [where i = 0 and j = 6 and a = "[]" and src = d and b = "?z 6"]
    copy_at_fill [where i = 6 and j = 12 and a = d and src = ownMAC and b = "?z 6"]
    put_at_fill [where i = 12 and a = "d @ ownMAC"]
    put_at_fill [where i = 13 and a = "d @ ownMAC @ [8]"]
    copy_at_fill [where i = 14 and j = 22 and a = "d @ ownMAC @ [8, 6]" and src = "h @ op" and b = "?z 8"]
    copy_at_fill [where i = 20 and j = 22 and a = "d @ ownMAC @ [8, 6] @ h" and src = "[0, 2]" and b = op]
    copy_at_fill [where i = 22 and j = 28 and a = "d @ ownMAC @ [8, 6] @ h @ [0, 2]" and src = ownMAC and b = "?z 6"]
    copy_at_fill [where i = 28 and j = 32 and a = "d @ ownMAC @ [8, 6] @ h @ [0, 2] @ ownMAC" and src = ?ip and b = "?z 4"]
    copy_at_fill [where i = 32 and j = 38 and a = "d @ ownMAC @ [8, 6] @ h @ [0, 2] @ ownMAC @ ?ip" and src = sm and b = "?z 6"]
    copy_at_fill [where i = 38 and j = 42 and a = "d @ ownMAC @ [8, 6] @ h @ [0, 2] @ ownMAC @ ?ip @ sm" and src = si and b = "?z 4" and c = "[]"]
  show ?thesis
    unfolding arpReply_def Let_def z s u by (simp add: fill [simplified] len)
qed

section \<open>ARP\<close>

lemma Uint16_two: "length bs = 2 \<Longrightarrow> bs = PutUint16 (Uint16 bs)"
proof -
  assume "length bs = 2"
  then obtain a b where bs: "bs = [a, b]" by (auto simp: numeral_eq_Suc length_Suc_conv)
  have "ucast (drop_bit 8 (Uint16 bs)) = a" "ucast (Uint16 bs) = b"
    by (rule bit_word_eqI; auto simp: Uint16_def bs bit_simps dest: bit_imp_le_length)+
  then show ?thesis by (simp add: PutUint16_def bs)
qed

lemma cut_at: "n \<le> length xs \<Longrightarrow> \<exists>a b. xs = a @ b \<and> length a = n"
  by (metis append_take_drop_id length_take min.absorb2)

text \<open>An ARP request for an address, taken apart.\<close>

lemma arp_request_parts:
  assumes "isARPRequestForIPv4 frame ownIP = Some True"
  obtains d0 d sm si tm ti rest where "frame = d0 @ d @ [0x08, 0x06] @ [0, 1, 0x08, 0, 6, 4] @ [0, 1] @ sm @ si @ tm @ ti @ rest"
    and "length d0 = 6" and "length d = 6" and "length sm = 6" and "length si = 4" and "length tm = 6" and "length ti = 4"
    and "IP_Equal ti ownIP"
proof -
  have l: "42 \<le> length frame" using assms by (simp add: isARPRequestForIPv4_eq)
  obtain d0 f1 where f1: "frame = d0 @ f1" "length d0 = 6" using cut_at [of 6 frame] l by auto
  obtain d f2 where f2: "f1 = d @ f2" "length d = 6" using cut_at [of 6 f1] l f1 by auto
  obtain et f3 where f3: "f2 = et @ f3" "length et = 2" using cut_at [of 2 f2] l f1 f2 by auto
  obtain ht f4 where f4: "f3 = ht @ f4" "length ht = 2" using cut_at [of 2 f3] l f1 f2 f3 by auto
  obtain pt f5 where f5: "f4 = pt @ f5" "length pt = 2" using cut_at [of 2 f4] l f1 f2 f3 f4 by auto
  obtain ls f6 where f6: "f5 = ls @ f6" "length ls = 2" using cut_at [of 2 f5] l f1 f2 f3 f4 f5 by auto
  obtain oc f7 where f7: "f6 = oc @ f7" "length oc = 2" using cut_at [of 2 f6] l f1 f2 f3 f4 f5 f6 by auto
  obtain sm f8 where f8: "f7 = sm @ f8" "length sm = 6" using cut_at [of 6 f7] l f1 f2 f3 f4 f5 f6 f7 by auto
  obtain si f9 where f9: "f8 = si @ f9" "length si = 4" using cut_at [of 4 f8] l f1 f2 f3 f4 f5 f6 f7 f8 by auto
  obtain tm f10 where f10: "f9 = tm @ f10" "length tm = 6" using cut_at [of 6 f9] l f1 f2 f3 f4 f5 f6 f7 f8 f9 by auto
  obtain ti rest where f11: "f10 = ti @ rest" "length ti = 4" using cut_at [of 4 f10] l f1 f2 f3 f4 f5 f6 f7 f8 f9 f10 by auto
  have two: "xs = [xs ! 0, xs ! 1]" if "length xs = 2" for xs :: bytes
    using that by (auto simp: numeral_eq_Suc length_Suc_conv)
  note f = f1 f2 f3 f4 f5 f6 f7 f8 f9 f10 f11
  note c = assms [unfolded isARPRequestForIPv4_eq option.inject eq_True]
  have "et ! 0 = 8" "et ! 1 = 6" "ls ! 0 = 6" "ls ! 1 = 4" using c f by (simp_all add: nth_append)
  then have "et = [8, 6]" "ls = [6, 4]" using two [OF f3(2)] two [OF f6(2)] by simp_all
  moreover have "Uint16 ht = 1" "Uint16 pt = 0x0800" "Uint16 oc = 1" "IP_Equal ti ownIP" using c f by simp_all
  moreover have "PutUint16 1 = [0, 1]" "PutUint16 0x0800 = [8, 0]" by code_simp+
  ultimately have "ht = [0, 1]" "pt = [8, 0]" "oc = [0, 1]" using Uint16_two f4(2) f5(2) f7(2) by metis+
  then show thesis
    using that [of d0 d sm si tm ti rest] f \<open>et = [8, 6]\<close> \<open>ls = [6, 4]\<close> \<open>IP_Equal ti ownIP\<close> by simp
qed

definition arp_frame :: "bytes \<Rightarrow> bytes \<Rightarrow> u16 \<Rightarrow> bytes \<Rightarrow> bytes \<Rightarrow> bytes \<Rightarrow> bytes \<Rightarrow> bytes" where
  "arp_frame dst src op sm si tm ti = dst @ src @ [0x08, 0x06] @ [0, 1, 0x08, 0, 6, 4] @ PutUint16 op @ sm @ si @ tm @ ti"

lemma parse_arp_frame:
  assumes "length dst = 6" "length src = 6" "length sm = 6" "length si = 4" "length tm = 6" "length ti = 4"
  shows "\<exists>e. parseFrame (arp_frame dst src 2 sm si tm ti) = Some e \<and> ev_Valid e \<and> ev_DstMAC e = HardwareAddr_String dst
    \<and> ev_SrcMAC e = HardwareAddr_String src \<and> ev_SrcIP e = IP_String si \<and> ev_DstIP e = IP_String ti
    \<and> ev_Summary e = ''ARP reply '' @ IP_String si @ '' is-at '' @ HardwareAddr_String sm"
proof -
  let ?f = "arp_frame dst src 2 sm si tm ti" and ?p = "[0, 1, 8, 0, 6, 4] @ PutUint16 2 @ sm @ si @ tm @ ti"
  have f: "\<not> length ?f < 14" "take 2 (drop 12 ?f) = [8, 6]" "drop 14 ?f = ?p" "take 6 ?f = dst" "take 6 (drop 6 ?f) = src"
    using assms by (simp_all add: arp_frame_def)
  have u: "Uint16 [8, 6] = 0x0806" "Uint16 [0, 1] = 1" "Uint16 [8, 0] = 0x0800" by code_simp+
  have n: "etherTypeName 0x0806 = ''ARP''" by (simp add: etherTypeName_def ether_types_def)
  define e0 where "e0 = (link_event ?f)\<lparr>ev_EtherType := hex_ether 0x0806, ev_TypeName := ''ARP'', ev_Summary := ''ARP''\<rparr>"
  have "parseFrame ?f = parseARP e0 ?p"
    using f by (simp add: parseFrame_eq tagged_def u parseTyped_def Let_def n in_range parsePayload_def e0_def)
  moreover have "slice 0 2 ?p = Some [0, 1]" "slice 2 4 ?p = Some [8, 0]" "index ?p 4 = Some 6" "index ?p 5 = Some 4"
    "slice 6 8 ?p = Some (PutUint16 2)" "slice 8 14 ?p = Some sm" "slice 14 18 ?p = Some si" "slice 24 28 ?p = Some ti"
    using assms by (simp_all add: slice_def index_def)
  then have "parseARP e0 ?p = Some (e0\<lparr>ev_SrcIP := IP_String si, ev_DstIP := IP_String ti,
      ev_Summary := ''ARP reply '' @ IP_String si @ '' is-at '' @ HardwareAddr_String sm\<rparr>)"
    using assms by (simp add: parseARP_def u Let_def del: append.simps)
  ultimately show ?thesis using f(4,5) by (simp add: e0_def)
qed

text \<open>The requests for an address and the replies, as byte strings.\<close>

lemma arp_request_iff:
  assumes "length ownIP = 4"
  shows "isARPRequestForIPv4 frame ownIP = Some
    (\<exists>dst src sm si tm rest. frame = arp_frame dst src 1 sm si tm ownIP @ rest
       \<and> length dst = 6 \<and> length src = 6 \<and> length sm = 6 \<and> length si = 4 \<and> length tm = 6)"
    (is "_ = Some ?request")
proof -
  have one: "PutUint16 1 = [0, 1]" by code_simp
  have u: "Uint16 [0, 1] = 1" "Uint16 [8, 0] = 0x0800" by code_simp+
  have eq: "IP_Equal ti ownIP \<longleftrightarrow> ti = ownIP" if "length ti = 4" for ti
    using assms that by (auto simp: IP_Equal_def)
  obtain b where b: "isARPRequestForIPv4 frame ownIP = Some b" using isARPRequestForIPv4_eq by simp
  have to: "?request" if "isARPRequestForIPv4 frame ownIP = Some True"
    using that
  proof (rule arp_request_parts)
    fix d0 d sm si tm ti rest
    assume f: "frame = d0 @ d @ [0x08, 0x06] @ [0, 1, 0x08, 0, 6, 4] @ [0, 1] @ sm @ si @ tm @ ti @ rest"
      and len: "length d0 = 6" "length d = 6" "length sm = 6" "length si = 4" "length tm = 6" "length ti = 4" and "IP_Equal ti ownIP"
    then have "frame = arp_frame d0 d 1 sm si tm ownIP @ rest" using eq by (simp add: arp_frame_def one)
    then show ?request using len by blast
  qed
  have fro: "isARPRequestForIPv4 frame ownIP = Some True" if req: ?request
  proof -
    obtain dst src sm si tm rest where "frame = arp_frame dst src 1 sm si tm ownIP @ rest"
      and "length dst = 6" "length src = 6" "length sm = 6" "length si = 4" "length tm = 6"
      using req by blast
    then show ?thesis
      using assms by (simp add: isARPRequestForIPv4_eq arp_frame_def one u nth_append eq)
  qed
  show ?thesis
  proof (cases b)
    case True
    then show ?thesis using b to [unfolded b] by simp
  next
    case False
    have "\<not> ?request"
    proof
      assume ?request
      then have "isARPRequestForIPv4 frame ownIP = Some True" by (rule fro)
      then show False using b False by simp
    qed
    then have "b = ?request" using False by (simp only: )
    then show ?thesis using b by (simp only: )
  qed
qed

lemma arpReply_frame:
  assumes "length dst = 6" "length src = 6" "length sm = 6" "length si = 4" and "length ownIP = 4" and "length ownMAC = 6"
  shows "arpReply (arp_frame dst src 1 sm si tm ownIP @ rest) ownMAC ownIP = Some (arp_frame src ownMAC 2 ownMAC ownIP sm si)"
proof -
  have "To4 ownIP = ownIP" "PutUint16 1 = [0, 1]" "PutUint16 2 = [0, 2]"
    using assms(5) by (simp_all add: To4_def PutUint16_def)
  then show ?thesis
    using arpReply_parts [of dst src "[8, 6]" "[0, 1, 8, 0, 6, 4]" "[0, 1]" sm si ownMAC ownIP "tm @ ownIP @ rest"] assms
    by (simp add: arp_frame_def)
qed

lemma reply_no_request:
  assumes "length dst = 6" "length src = 6"
  shows "isARPRequestForIPv4 (arp_frame dst src 2 sm si tm ti) ip = Some False"
proof -
  have "Uint16 [0, 2] = 2" "PutUint16 2 = [0, 2]" by code_simp+
  then show ?thesis using assms by (simp add: isARPRequestForIPv4_eq arp_frame_def nth_append)
qed

end
