(* ===== verification/Client_Latency.thy ===== *)
theory Client_Latency
  imports Client_Status Codec
begin

text \<open>
  The latency probes of the client: \<^verbatim>\<open>peerLatencyTracker\<close> and the messages of the control
  stream (\<^verbatim>\<open>readControl\<close>) of \<^verbatim>\<open>src/internal/client/client.go\<close>, and what the probe table
  guarantees: whom a probe may go to, in which order and how often.
\<close>

section \<open>The tracker\<close>

text \<open>\<^verbatim>\<open>messageWriter\<close> holds the control stream; its mutex makes each message one write.\<close>

definition trackerTick ::
  "Codec \<Rightarrow> 'w writer \<Rightarrow> bytes option \<Rightarrow> time \<Rightarrow> 'w \<times> Status \<Rightarrow> ('w \<times> Status) \<times> proto_error option" where
  "trackerTick cd wr rnd now ws =
     (case ws of (w, s) \<Rightarrow>
        (case nextLatencyProbe rnd now (expireLatencyProbes now s) of
           (s1, None) \<Rightarrow> ((w, s1), None)
         | (s1, Some probe) \<Rightarrow>
             (case WriteJSON (fst (cd_Ping cd)) wr w TypePing
                \<lparr>ping_ID = probe_ID probe, ping_FromPeerID = '''', ping_ToPeerID = probe_PeerID probe,
                 ping_SentAtUnixNano = UnixNano (probe_SentAt probe)\<rparr> of
                (w1, e) \<Rightarrow> ((w1, s1), e))))"

definition handlePing :: "Codec \<Rightarrow> 'w writer \<Rightarrow> PeerPing \<Rightarrow> 'w \<times> Status \<Rightarrow> ('w \<times> Status) \<times> proto_error option" where
  "handlePing cd wr ping ws =
     (case ws of (w, s) \<Rightarrow>
        if ping_FromPeerID ping = '''' \<or> ping_ToPeerID ping \<noteq> localPeerID s then ((w, s), None)
        else
          (case WriteJSON (fst (cd_Pong cd)) wr w TypePong
             \<lparr>pong_ID = ping_ID ping, pong_FromPeerID = '''', pong_ToPeerID = ping_FromPeerID ping,
              pong_SentAtUnixNano = ping_SentAtUnixNano ping\<rparr> of
             (w1, e) \<Rightarrow> ((w1, s), e)))"

definition handlePong :: "time \<Rightarrow> PeerPong \<Rightarrow> Status \<Rightarrow> Status" where
  "handlePong now pong s =
     (if pong_FromPeerID pong = '''' \<or> pong_ToPeerID pong \<noteq> localPeerID s then s else recordLatencyPong pong now s)"

section \<open>The control stream\<close>

text \<open>One message, and the loop until the stream or a message fails; the clock gives the time of the i-th message.\<close>

definition controlStep ::
  "Codec \<Rightarrow> 'w writer \<Rightarrow> time \<Rightarrow> MessageType \<Rightarrow> bytes \<Rightarrow> 'w \<times> Status \<Rightarrow> ('w \<times> Status) \<times> proto_error option" where
  "controlStep cd wr now typ payload ws =
     (case ws of (w, s) \<Rightarrow>
        if typ = TypePeerList then
          (case snd (cd_PeerList cd) payload of Inl e \<Rightarrow> (ws, None) | Inr pl \<Rightarrow> ((w, updatePeers now pl s), None))
        else if typ = TypePing then
          (if payload = [] then (ws, None)
           else case snd (cd_Ping cd) payload of
             Inl e \<Rightarrow> (ws, Some (ErrJSON e))
           | Inr ping \<Rightarrow> handlePing cd wr ping ws)
        else if typ = TypePong then
          (if payload = [] then (ws, None)
           else case snd (cd_Pong cd) payload of
             Inl e \<Rightarrow> (ws, Some (ErrJSON e))
           | Inr pong \<Rightarrow> ((w, handlePong now pong s), None))
        else (ws, None))"

function readControl ::
  "Codec \<Rightarrow> 'w writer \<Rightarrow> (nat \<Rightarrow> time) \<Rightarrow> nat \<Rightarrow> Reader \<Rightarrow> 'w \<times> Status \<Rightarrow> ('w \<times> Status) \<times> proto_error" where
  "readControl cd wr clock i r ws =
     (case ReadMessage r (int MaxControlSize) of
        (r1, Inl e) \<Rightarrow> (ws, e)
      | (r1, Inr (typ, payload)) \<Rightarrow>
          (case controlStep cd wr (clock i) typ payload ws of
             (ws1, Some e) \<Rightarrow> (ws1, e)
           | (ws1, None) \<Rightarrow> readControl cd wr clock (Suc i) r1 ws1))"
  by pat_completeness auto
termination
  by (relation "measure (\<lambda>(cd, wr, clock, i, r, ws). length (rd_data r))") (auto dest: sym ReadMessage_progress)

declare readControl.simps [simp del]

section \<open>The probe table\<close>

definition lat_table :: "Status \<Rightarrow> (string, PeerLatency) gomap" where
  "lat_table s = (case st_peerLatency s of None \<Rightarrow> [] | Some m \<Rightarrow> m)"

lemma lat_table_set [simp]: "lat_table (s\<lparr>st_peerLatency := Some m, st_updatedAt := t\<rparr>) = m"
  by (simp add: lat_table_def)

text \<open>The keys of the table are distinct, and once there is a table they are the ids of the peer list.\<close>

definition status_wf :: "Status \<Rightarrow> bool" where
  "status_wf s \<longleftrightarrow>
     (case st_peerLatency s of None \<Rightarrow> True | Some m \<Rightarrow> distinct (map fst m) \<and> fst ` set m = pi_ID ` set (st_peers s))"

lemma map_of_update: "map_of (AList.update k v al) i = (if i = k then Some v else map_of al i)"
  by (simp add: update_conv')

lemma lat_of_update [simp]: "lat_of (AList.update k v m) i = (if i = k then v else lat_of m i)"
  by (simp add: lat_of_def map_of_update)

lemma keepEach_keys:
  "distinct (map fst m) \<Longrightarrow> distinct (map fst (keepEach k ps m))" "fst ` set (keepEach k ps m) = fst ` set m \<union> pi_ID ` set ps"
  by (induction ps arbitrary: k m) (auto simp: distinct_update dom_update)

text \<open>Keeping the table in step with a peer list changes none of the fields that govern the probes.\<close>

definition same_probe :: "PeerLatency \<Rightarrow> PeerLatency \<Rightarrow> bool" where
  "same_probe a b \<longleftrightarrow> lat_Pending a = lat_Pending b \<and> lat_ProbeID a = lat_ProbeID b \<and> lat_SentAt a = lat_SentAt b
     \<and> lat_NextProbe a = lat_NextProbe b \<and> lat_RTT a = lat_RTT b"

lemma same_probe_refl [simp]: "same_probe a a"
  by (simp add: same_probe_def)

lemma keepEach_same: "same_probe (lat_of (keepEach k ps m) i) (lat_of m i)"
proof (induction ps arbitrary: k m)
  case (Cons peer ps)
  have "same_probe (lat_of (AList.update (pi_ID peer) (keepPeer k (lat_of m (pi_ID peer))) m) i) (lat_of m i)"
    by (simp add: same_probe_def keepPeer_def)
  then show ?case using Cons.IH by (simp add: same_probe_def)
qed simp

lemma lat_of_filter: "P i \<Longrightarrow> lat_of (filter (\<lambda>(j, l). P j) m) i = lat_of m i"
proof -
  assume "P i"
  then have "map_of (filter (\<lambda>(j, l). P j) m) i = map_of m i" by (induction m) auto
  then show ?thesis by (simp add: lat_of_def)
qed

lemma filter_keys: "fst ` set (filter (\<lambda>(j, l). j \<in> A) m) = fst ` set m \<inter> A"
  by force

lemma keepLatency:
  shows "status_wf s \<Longrightarrow> status_wf (keepLatencyPeersLocked s)"
    and "i \<in> pi_ID ` set (st_peers s) \<Longrightarrow> same_probe (lat_of (lat_table (keepLatencyPeersLocked s)) i) (lat_of (lat_table s) i)"
    and "st_peers (keepLatencyPeersLocked s) = st_peers s" "st_state (keepLatencyPeersLocked s) = st_state s"
    and "st_peerID (keepLatencyPeersLocked s) = st_peerID s"
proof -
  let ?m = "keepEach 0 (st_peers s) (lat_table s)"
  have k: "keepLatencyPeersLocked s = s\<lparr>st_peerLatency := Some (filter (\<lambda>(j, l). j \<in> pi_ID ` set (st_peers s)) ?m)\<rparr>"
    by (simp add: keepLatencyPeersLocked_def lat_table_def Let_def)
  show "status_wf (keepLatencyPeersLocked s)" if "status_wf s"
  proof -
    have "distinct (map fst (lat_table s))" using that by (simp add: status_wf_def lat_table_def split: option.splits)
    then have "distinct (map fst ?m)" by (rule keepEach_keys(1))
    moreover have "pi_ID ` set (st_peers s) \<subseteq> fst ` set ?m" using keepEach_keys(2) by blast
    ultimately show ?thesis using filter_keys [of "pi_ID ` set (st_peers s)" ?m]
      by (simp add: k status_wf_def distinct_map_filter Int_absorb1)
  qed
  show "same_probe (lat_of (lat_table (keepLatencyPeersLocked s)) i) (lat_of (lat_table s) i)" if "i \<in> pi_ID ` set (st_peers s)"
    using lat_of_filter [of "\<lambda>j. j \<in> pi_ID ` set (st_peers s)" i ?m] that keepEach_same [of 0 "st_peers s" "lat_table s" i]
    by (simp add: k lat_table_def)
qed (simp_all add: keepLatencyPeersLocked_def Let_def)

section \<open>Whose turn it is\<close>

definition eligible :: "Status \<Rightarrow> time \<Rightarrow> PeerInfo \<Rightarrow> bool" where
  "eligible s now peer \<longleftrightarrow> pi_ID peer \<noteq> st_peerID s \<and> FeaturePeerLatency \<in> set (pi_Features peer)
     \<and> \<not> lat_Pending (lat_of (lat_table s) (pi_ID peer)) \<and> lat_NextProbe (lat_of (lat_table s) (pi_ID peer)) \<le> now"

definition probe_order :: "Status \<Rightarrow> PeerInfo \<Rightarrow> int" where
  "probe_order s peer = lat_Order (lat_of (lat_table s) (pi_ID peer))"

lemma hasFeature_iff: "hasFeature fs f \<longleftrightarrow> f \<in> set fs"
  by (induction fs) auto

lemma bestProbe_step:
  "bestProbe s now (lat_table s) (peer # ps) (b, ord) =
     bestProbe s now (lat_table s) ps
       (if eligible s now peer \<and> (b = '''' \<or> probe_order s peer < ord) then (pi_ID peer, probe_order s peer) else (b, ord))"
  by (auto simp: eligible_def probe_order_def hasFeature_iff Let_def)

declare bestProbe.simps(2) [simp del]

lemma bestProbe_spec:
  assumes "'''' \<notin> pi_ID ` set ps" and "bestProbe s now (lat_table s) ps (b, ord) = (b', ord')"
  shows "(b' = '''' \<longrightarrow> b = '''' \<and> (\<forall>peer \<in> set ps. \<not> eligible s now peer))
    \<and> (b' \<noteq> '''' \<longrightarrow> (b', ord') = (b, ord) \<or> (\<exists>peer \<in> set ps. eligible s now peer \<and> pi_ID peer = b' \<and> ord' = probe_order s peer))
    \<and> (b \<noteq> '''' \<longrightarrow> ord' \<le> ord) \<and> (\<forall>peer \<in> set ps. eligible s now peer \<longrightarrow> ord' \<le> probe_order s peer)"
  using assms
proof (induction ps arbitrary: b ord)
  case (Cons peer ps)
  let ?take = "eligible s now peer \<and> (b = '''' \<or> probe_order s peer < ord)"
  have ne: "'''' \<notin> pi_ID ` set ps" "pi_ID peer \<noteq> ''''" using Cons.prems(1) by auto
  show ?case
  proof (cases ?take)
    case True
    then have "bestProbe s now (lat_table s) ps (pi_ID peer, probe_order s peer) = (b', ord')"
      using Cons.prems(2) by (simp add: bestProbe_step)
    note ih = Cons.IH [OF ne(1) this]
    show ?thesis using ih ne(2) True by (auto intro: order_trans)
  next
    case False
    then have "bestProbe s now (lat_table s) ps (b, ord) = (b', ord')"
      using Cons.prems(2) by (simp only: bestProbe_step False if_False)
    note ih = Cons.IH [OF ne(1) this]
    show ?thesis using ih False by (auto intro: order_trans)
  qed
qed simp

lemma nextLatencyProbe_unfold:
  assumes "st_state s = ''connected''" and "st_peerID s \<noteq> ''''" and "st_peerLatency s \<noteq> None"
  shows "nextLatencyProbe rnd now s =
    (let b = fst (bestProbe s now (lat_table s) (st_peers s) ('''', 0)) in
     if b = '''' then (s, None)
     else case nonceHex rnd of
       None \<Rightarrow> (s, None)
     | Some probeID \<Rightarrow>
         (s\<lparr>st_peerLatency := Some (AList.update b ((lat_of (lat_table s) b)
              \<lparr>lat_Pending := True, lat_ProbeID := probeID, lat_SentAt := now,
               lat_NextProbe := now + peerLatencyProbeInterval, lat_State := ''pending'',
               lat_UpdatedAt := now, lat_Order := UnixNano now\<rparr>) (lat_table s)), st_updatedAt := now\<rparr>,
          Some \<lparr>probe_PeerID = b, probe_ID = probeID, probe_SentAt = now\<rparr>))"
  using assms by (auto simp: nextLatencyProbe_def lat_table_def Let_def split: option.splits)

text \<open>Where a peer list puts its peers in the order of the probes.\<close>

lemma keepEach_order:
  assumes "distinct (map pi_ID ps)" and "j < length ps"
  shows "lat_Order (lat_of (keepEach k ps m) (pi_ID (ps ! j))) = int (k + j)"
  using assms
proof (induction ps arbitrary: j k m)
  case (Cons peer ps)
  show ?case
  proof (cases j)
    case 0
    have "lat_of (keepEach (Suc k) ps m') i = lat_of m' i" if "i \<notin> pi_ID ` set ps" for m' i
      using that by (induction ps arbitrary: k m') auto
    then show ?thesis using Cons.prems(1) 0 by (simp add: keepPeer_def)
  next
    case (Suc j')
    then show ?thesis using Cons.IH [of j' "Suc k"] Cons.prems by simp
  qed
qed simp

lemma updatePeers_order:
  assumes "distinct (map pi_ID (pl_Peers pl))" and "j < length (pl_Peers pl)"
  shows "probe_order (updatePeers now pl s) (pl_Peers pl ! j) = int j"
proof -
  have "pi_ID (pl_Peers pl ! j) \<in> pi_ID ` set (pl_Peers pl)" using assms(2) by simp
  from lat_of_filter [of "\<lambda>i. i \<in> pi_ID ` set (pl_Peers pl)", OF this]
  show ?thesis
    using keepEach_order [OF assms, of 0]
    by (simp add: probe_order_def updatePeers_def keepLatencyPeersLocked_def lat_table_def Let_def split: option.splits)
qed

text \<open>C34. A latency probe goes to the right peer at the right time: to a listed peer other than
  the client itself that supports probing, has no probe outstanding and was last probed at
  least ten seconds ago, and among those to one that is first in the order of the probes.
  That order rotates: a probe puts its peer at the instant it was sent, in nanoseconds, and
  until a peer is probed it stands at its place in the peer list (each new peer list puts
  all its peers back to their places, also those probed since the last one). The probe is
  then outstanding for that peer with its id and time, and the entries of all other peers stay
  as they were. If no such peer exists, nothing is sent and nothing changes.\<close>

theorem probe_turn:
  assumes "st_state s = ''connected''" and "st_peerID s \<noteq> ''''" and "st_peerLatency s \<noteq> None"
    and "'''' \<notin> pi_ID ` set (st_peers s)"
  shows "(case nextLatencyProbe (Some rnd) now s of
      (s', None) \<Rightarrow> s' = s \<and> (\<forall>peer \<in> set (st_peers s). \<not> eligible s now peer)
    | (s', Some probe) \<Rightarrow>
        (\<exists>peer \<in> set (st_peers s). pi_ID peer = probe_PeerID probe \<and> eligible s now peer
           \<and> (\<forall>other \<in> set (st_peers s). eligible s now other \<longrightarrow> probe_order s peer \<le> probe_order s other))
        \<and> probe_ID probe = hex_bytes rnd \<and> probe_SentAt probe = now
        \<and> (\<forall>i. i \<noteq> probe_PeerID probe \<longrightarrow> lat_of (lat_table s') i = lat_of (lat_table s) i)
        \<and> (let l = lat_of (lat_table s') (probe_PeerID probe)
            in lat_Pending l \<and> lat_ProbeID l = probe_ID probe \<and> lat_SentAt l = now \<and> lat_NextProbe l = now + 10 * second
              \<and> lat_Order l = UnixNano now \<and> lat_State l = ''pending''))
    \<and> (\<forall>t pl j. distinct (map pi_ID (pl_Peers pl)) \<and> j < length (pl_Peers pl) \<longrightarrow>
        probe_order (updatePeers t pl s) (pl_Peers pl ! j) = int j)"
proof (intro conjI)
  obtain b ord where bp: "bestProbe s now (lat_table s) (st_peers s) ('''', 0) = (b, ord)" by fastforce
  note spec = bestProbe_spec [OF assms(4) bp]
  note nx = nextLatencyProbe_unfold [OF assms(1-3), of "Some rnd" now, unfolded bp fst_conv nonceHex_def option.case Let_def]
  show "case nextLatencyProbe (Some rnd) now s of
      (s', None) \<Rightarrow> s' = s \<and> (\<forall>peer \<in> set (st_peers s). \<not> eligible s now peer)
    | (s', Some probe) \<Rightarrow>
        (\<exists>peer \<in> set (st_peers s). pi_ID peer = probe_PeerID probe \<and> eligible s now peer
           \<and> (\<forall>other \<in> set (st_peers s). eligible s now other \<longrightarrow> probe_order s peer \<le> probe_order s other))
        \<and> probe_ID probe = hex_bytes rnd \<and> probe_SentAt probe = now
        \<and> (\<forall>i. i \<noteq> probe_PeerID probe \<longrightarrow> lat_of (lat_table s') i = lat_of (lat_table s) i)
        \<and> (let l = lat_of (lat_table s') (probe_PeerID probe)
            in lat_Pending l \<and> lat_ProbeID l = probe_ID probe \<and> lat_SentAt l = now \<and> lat_NextProbe l = now + 10 * second
              \<and> lat_Order l = UnixNano now \<and> lat_State l = ''pending'')"
  proof (cases "b = ''''")
    case True
    then show ?thesis using spec nx by simp
  next
    case False
    then have "\<exists>peer \<in> set (st_peers s). eligible s now peer \<and> pi_ID peer = b \<and> ord = probe_order s peer"
      and "\<forall>other \<in> set (st_peers s). eligible s now other \<longrightarrow> ord \<le> probe_order s other"
      using spec by auto
    then show ?thesis
      using False by (auto simp: nx peerLatencyProbeInterval_def)
  qed
qed (simp add: updatePeers_order)

definition demo_info :: "string \<Rightarrow> PeerInfo" where
  "demo_info i = \<lparr>pi_ID = i, pi_DisplayName = '''', pi_IPv4 = '''', pi_MAC = '''', pi_Features = [FeaturePeerLatency]\<rparr>"

definition demo_accept :: JoinAccept where
  "demo_accept = \<lparr>ja_Version = 1, ja_Room = ''lobby'', ja_PeerID = ''a'', ja_IPv4 = ''10.66.0.2'', ja_CIDR = ''10.66.0.2/24'',
     ja_MAC = ''02:01:02:03:04:01'', ja_MTU = 1300, ja_RoomCreatedAt = 1, ja_Peers = [demo_info ''a'', demo_info ''b''], ja_Features = []\<rparr>"

definition demo_config :: Config where
  "demo_config = \<lparr>cfg_Server = ''s:4433'', cfg_Room = ''lobby'', cfg_DisplayName = ''ann'', cfg_DeviceName = ''tap0'',
     cfg_InsecureSkipVerify = False, cfg_PrioritizeVirtualAdapter = True\<rparr>"

definition demo_status :: Status where
  "demo_status = joined_status 5 demo_accept (newStatus 1 demo_config)"

theorem probe_turn_witness:
  "(\<exists>s'. nextLatencyProbe (Some [1]) 7 demo_status = (s', Some \<lparr>probe_PeerID = ''b'', probe_ID = ''01'', probe_SentAt = 7\<rparr>))
   \<and> (\<exists>peer \<in> set (st_peers demo_status). pi_ID peer = ''b'' \<and> eligible demo_status 7 peer)"
proof -
  have "snd (nextLatencyProbe (Some [1]) 7 demo_status) = Some \<lparr>probe_PeerID = ''b'', probe_ID = ''01'', probe_SentAt = 7\<rparr>"
    by code_simp
  then obtain s' where p: "nextLatencyProbe (Some [1]) 7 demo_status = (s', Some \<lparr>probe_PeerID = ''b'', probe_ID = ''01'', probe_SentAt = 7\<rparr>)"
    by (metis prod.collapse)
  have h: "st_state demo_status = ''connected''" "st_peerID demo_status \<noteq> ''''" "st_peerLatency demo_status \<noteq> None"
    "'''' \<notin> pi_ID ` set (st_peers demo_status)" by code_simp+
  then show ?thesis using probe_turn [OF h, of 7 "[1]"] p by auto
qed

section \<open>How often a peer is probed\<close>

text \<open>What touches the table while a session lasts: a tick of the tracker, a pong and a new peer list.\<close>

datatype lat_event = LatTick "bytes option" time | LatPong PeerPong time | LatPeers PeerList time

fun lat_run :: "lat_event list \<Rightarrow> Status \<Rightarrow> Status \<times> peerProbe list" where
  "lat_run [] s = (s, [])"
| "lat_run (LatTick rnd now # evs) s =
     (case nextLatencyProbe rnd now (expireLatencyProbes now s) of
        (s1, None) \<Rightarrow> lat_run evs s1
      | (s1, Some probe) \<Rightarrow> (case lat_run evs s1 of (s2, probes) \<Rightarrow> (s2, probe # probes)))"
| "lat_run (LatPong pong now # evs) s = lat_run evs (handlePong now pong s)"
| "lat_run (LatPeers pl now # evs) s = lat_run evs (updatePeers now pl s)"

definition next_probe :: "Status \<Rightarrow> string \<Rightarrow> time" where
  "next_probe s i = lat_NextProbe (lat_of (lat_table s) i)"

lemma next_probe_pong: "next_probe (handlePong now pong s) i = next_probe s i"
  by (auto simp: next_probe_def handlePong_def recordLatencyPong_def lat_table_def lat_of_def map_of_update Let_def
      split: option.splits)

lemma next_probe_expire: "next_probe (expireLatencyProbes now s) i = next_probe s i"
proof -
  have "map_of (map (\<lambda>(j, l). (j, f l)) m) i = map_option f (map_of m i)" for f :: "PeerLatency \<Rightarrow> PeerLatency" and m
    by (induction m) auto
  then show ?thesis
    by (auto simp: next_probe_def expireLatencyProbes_def lat_table_def lat_of_def Let_def split: option.splits)
qed

lemma next_probe_peers:
  assumes "i \<in> pi_ID ` set (pl_Peers pl)"
  shows "next_probe (updatePeers now pl s) i = next_probe s i"
proof -
  let ?s = "s\<lparr>st_roomCreatedAt := pl_RoomCreatedAt pl, st_peers := pl_Peers pl\<rparr>"
  have "same_probe (lat_of (lat_table (keepLatencyPeersLocked ?s)) i) (lat_of (lat_table ?s) i)"
    using keepLatency(2) [of i ?s] assms by simp
  moreover have "lat_table (updatePeers now pl s) = lat_table (keepLatencyPeersLocked ?s)" "lat_table ?s = lat_table s"
    by (simp_all add: updatePeers_def lat_table_def)
  ultimately show ?thesis by (simp add: next_probe_def same_probe_def)
qed

lemma bestProbe_from:
  "fst (bestProbe s now (lat_table s) ps (b, ord)) = b
     \<or> (\<exists>peer \<in> set ps. eligible s now peer \<and> pi_ID peer = fst (bestProbe s now (lat_table s) ps (b, ord)))"
proof (induction ps arbitrary: b ord)
  case (Cons peer ps)
  show ?case
  proof (cases "eligible s now peer \<and> (b = '''' \<or> probe_order s peer < ord)")
    case True
    then show ?thesis using Cons.IH [of "pi_ID peer" "probe_order s peer"] by (auto simp: bestProbe_step)
  next
    case False
    then show ?thesis using Cons.IH [of b ord] by (simp only: bestProbe_step False if_False) auto
  qed
qed simp

text \<open>A table is made up for a status that has none, without any effect on when a peer may be probed.\<close>

lemma nextLatencyProbe_prepared:
  obtains s1 where "nextLatencyProbe rnd now s = nextLatencyProbe rnd now s1" and "st_peers s1 = st_peers s"
    and "\<And>i. i \<in> pi_ID ` set (st_peers s) \<Longrightarrow> next_probe s1 i = next_probe s i"
    and "st_state s1 = ''connected'' \<and> st_peerID s1 \<noteq> '''' \<and> st_peerLatency s1 \<noteq> None \<or> nextLatencyProbe rnd now s = (s, None)"
proof (cases "st_peerLatency s = None \<and> st_state s = ''connected'' \<and> st_peerID s \<noteq> ''''")
  case True
  have "nextLatencyProbe rnd now s = nextLatencyProbe rnd now (keepLatencyPeersLocked s)"
    using True by (simp add: nextLatencyProbe_def keepLatency(4,5)) (simp add: keepLatencyPeersLocked_def Let_def)
  moreover have "st_peerLatency (keepLatencyPeersLocked s) \<noteq> None" by (simp add: keepLatencyPeersLocked_def Let_def)
  ultimately show thesis
    using that [of "keepLatencyPeersLocked s"] keepLatency(2) [of _ s] True
    by (auto simp: keepLatency(3-5) next_probe_def same_probe_def)
next
  case False
  then show thesis using that [of s] by (auto simp: nextLatencyProbe_def)
qed

lemma next_probe_tick:
  assumes "nextLatencyProbe rnd now s = (s', res)" and "i \<in> pi_ID ` set (st_peers s)"
  shows "st_peers s' = st_peers s"
    and "next_probe s' i = (if \<exists>p. res = Some p \<and> probe_PeerID p = i then now + 10 * second else next_probe s i)"
    and "res = Some p \<Longrightarrow> probe_SentAt p = now \<and> (probe_PeerID p = i \<longrightarrow> next_probe s i \<le> now)"
proof -
  obtain s1 where eq: "nextLatencyProbe rnd now s = nextLatencyProbe rnd now s1" and peers: "st_peers s1 = st_peers s"
    and np: "next_probe s1 i = next_probe s i"
    and ok: "st_state s1 = ''connected'' \<and> st_peerID s1 \<noteq> '''' \<and> st_peerLatency s1 \<noteq> None \<or> nextLatencyProbe rnd now s = (s, None)"
    using nextLatencyProbe_prepared [of rnd now s] assms(2) by metis
  define b where "b = fst (bestProbe s1 now (lat_table s1) (st_peers s1) ('''', 0))"
  have el: "next_probe s1 b \<le> now" if "b \<noteq> ''''"
    using bestProbe_from [of s1 now "st_peers s1" "''''" 0] that by (auto simp: b_def [symmetric] eligible_def next_probe_def)
  have "st_peers s' = st_peers s
    \<and> next_probe s' i = (if \<exists>p. res = Some p \<and> probe_PeerID p = i then now + 10 * second else next_probe s i)
    \<and> (\<forall>p. res = Some p \<longrightarrow> probe_SentAt p = now \<and> (probe_PeerID p = i \<longrightarrow> next_probe s i \<le> now))"
  proof (cases "nextLatencyProbe rnd now s = (s, None)")
    case True
    then show ?thesis using assms(1) by auto
  next
    case False
    then have ok': "st_state s1 = ''connected''" "st_peerID s1 \<noteq> ''''" "st_peerLatency s1 \<noteq> None" using ok by auto
    show ?thesis
      using assms(1) el np peers unfolding eq nextLatencyProbe_unfold [OF ok'] b_def [symmetric] Let_def
      by (auto simp: next_probe_def peerLatencyProbeInterval_def split: if_splits option.splits)
  qed
  then show "st_peers s' = st_peers s"
    "next_probe s' i = (if \<exists>p. res = Some p \<and> probe_PeerID p = i then now + 10 * second else next_probe s i)"
    "res = Some p \<Longrightarrow> probe_SentAt p = now \<and> (probe_PeerID p = i \<longrightarrow> next_probe s i \<le> now)" by auto
qed

abbreviation probes_of :: "string \<Rightarrow> lat_event list \<Rightarrow> Status \<Rightarrow> time list" where
  "probes_of i evs s \<equiv> map probe_SentAt (filter (\<lambda>p. probe_PeerID p = i) (snd (lat_run evs s)))"

lemma lat_peers: "st_peers (handlePong now pong s) = st_peers s" "st_peers (expireLatencyProbes now s) = st_peers s"
  "st_peers (updatePeers now pl s) = pl_Peers pl"
  by (simp_all add: handlePong_def recordLatencyPong_def expireLatencyProbes_def updatePeers_def keepLatency(3) Let_def split: option.splits)

lemma probes_spaced_from:
  assumes "i \<in> pi_ID ` set (st_peers s)" and "\<forall>pl now. LatPeers pl now \<in> set evs \<longrightarrow> i \<in> pi_ID ` set (pl_Peers pl)"
  shows "sorted_wrt (\<lambda>t u. t + 10 * second \<le> u) (probes_of i evs s) \<and> (\<forall>t \<in> set (probes_of i evs s). next_probe s i \<le> t)"
  using assms
proof (induction evs arbitrary: s)
  case (Cons ev evs)
  have rest: "\<forall>pl now. LatPeers pl now \<in> set evs \<longrightarrow> i \<in> pi_ID ` set (pl_Peers pl)" using Cons.prems(2) by simp
  show ?case
  proof (cases ev)
    case (LatTick rnd now)
    let ?e = "expireLatencyProbes now s"
    obtain s1 res where tick: "nextLatencyProbe rnd now ?e = (s1, res)" by fastforce
    have mem: "i \<in> pi_ID ` set (st_peers ?e)" using Cons.prems(1) lat_peers by simp
    note nt = next_probe_tick [OF tick mem]
    have "i \<in> pi_ID ` set (st_peers s1)" using nt(1) mem by simp
    note ih = Cons.IH [OF this rest]
    show ?thesis
    proof (cases "\<exists>p. res = Some p \<and> probe_PeerID p = i")
      case True
      then obtain p where p: "res = Some p" "probe_PeerID p = i" by blast
      have "probes_of i (ev # evs) s = now # probes_of i evs s1"
        using p tick LatTick nt(3) [OF p(1)] by (simp split: prod.splits)
      moreover have "next_probe s1 i = now + 10 * second" "next_probe s i \<le> now"
        using nt(2) nt(3) [OF p(1)] p next_probe_expire by auto
      moreover have "0 \<le> second" by (simp add: second_def)
      ultimately show ?thesis using ih by fastforce
    next
      case False
      then have "probes_of i (ev # evs) s = probes_of i evs s1" "next_probe s1 i = next_probe s i"
        using tick LatTick nt(2) next_probe_expire by (auto split: prod.splits option.splits)
      then show ?thesis using ih by simp
    qed
  next
    case (LatPong pong now)
    then show ?thesis using Cons.IH [OF _ rest, of "handlePong now pong s"] Cons.prems(1) by (simp add: lat_peers next_probe_pong)
  next
    case (LatPeers pl now)
    then have "i \<in> pi_ID ` set (pl_Peers pl)" using Cons.prems(2) by auto
    then show ?thesis using Cons.IH [OF _ rest, of "updatePeers now pl s"] LatPeers by (simp add: lat_peers next_probe_peers)
  qed
qed simp

text \<open>C35. A peer is never probed more often than once in ten seconds, whatever pongs and peer
  lists arrive in between, as long as it stays in the list.\<close>

theorem probes_spaced:
  assumes "i \<in> pi_ID ` set (st_peers s)" and "\<forall>pl now. LatPeers pl now \<in> set evs \<longrightarrow> i \<in> pi_ID ` set (pl_Peers pl)"
  shows "sorted_wrt (\<lambda>t u. t + 10000000000 \<le> u) (probes_of i evs s)"
  using probes_spaced_from [OF assms] by (simp add: second_def)

theorem probes_spaced_witness:
  "probes_of ''b'' [LatTick (Some [1]) 7, LatPeers \<lparr>pl_RoomCreatedAt = 1, pl_Peers = [demo_info ''b'']\<rparr> 8, LatTick (Some [2]) 20000000007] demo_status
     = [7, 20000000007]
   \<and> sorted_wrt (\<lambda>t u. t + 10000000000 \<le> u) [7, 20000000007 :: time]"
proof -
  let ?evs = "[LatTick (Some [1]) 7, LatPeers \<lparr>pl_RoomCreatedAt = 1, pl_Peers = [demo_info ''b'']\<rparr> 8, LatTick (Some [2]) 20000000007]"
  have r: "probes_of ''b'' ?evs demo_status = [7, 20000000007]" by code_simp
  have m: "''b'' \<in> pi_ID ` set (st_peers demo_status)" by code_simp
  have "\<forall>pl now. LatPeers pl now \<in> set ?evs \<longrightarrow> ''b'' \<in> pi_ID ` set (pl_Peers pl)" by (auto simp: demo_info_def)
  then show ?thesis using probes_spaced [OF m, of ?evs] r by (simp only: simp_thms)
qed

end
