(* ===== verification/Client_Loops.thy ===== *)
theory Client_Loops
  imports Client_IP Client_Latency
begin

text \<open>
  The four goroutines of a session that carry frames between the device and the data stream:
  \<^verbatim>\<open>readTAP\<close>, \<^verbatim>\<open>writeTAP\<close>, \<^verbatim>\<open>readIPAsEthernet\<close> and \<^verbatim>\<open>writeEthernetAsIP\<close> of
  \<^verbatim>\<open>src/internal/client/client.go\<close>. The results of \<^verbatim>\<open>device.Read\<close> are a list; when it is used up
  the goroutine still waits, and no error is returned. The clock gives the time of the i-th
  iteration. None is a panic.
\<close>

section \<open>The state of the data path\<close>

record ('w, 'd) Link =
  lk_stream :: 'w
  lk_device :: 'd
  lk_status :: Status
  lk_capture :: "CaptureRecorder option"

datatype link_error = LDevice ioerr | LProto proto_error

type_synonym ('w, 'd) loop_result = "(('w, 'd) Link \<times> link_error option) option"

definition recordLink :: "time \<Rightarrow> Metadata \<Rightarrow> string \<Rightarrow> bytes \<Rightarrow> ('w, 'd) Link \<Rightarrow> ('w, 'd) Link option" where
  "recordLink now meta dir frame lk =
     map_option (\<lambda>c. lk\<lparr>lk_capture := c\<rparr>) (Record now (meta\<lparr>md_Direction := dir\<rparr>) frame (lk_capture lk))"

text \<open>A frame to the server is written, counted and captured; a frame from the server is passed to the device likewise.\<close>

definition sendFrame :: "'w writer \<Rightarrow> time \<Rightarrow> Metadata \<Rightarrow> bytes \<Rightarrow> ('w, 'd) Link \<Rightarrow> ('w, 'd) loop_result" where
  "sendFrame wr now meta frame lk =
     (case WriteMessage wr (lk_stream lk) TypeEthernetFrame frame of
        (w1, Some e) \<Rightarrow> Some (lk\<lparr>lk_stream := w1\<rparr>, Some (LProto e))
      | (w1, None) \<Rightarrow>
          map_option (\<lambda>lk1. (lk1, None))
            (recordLink now meta ''tx'' frame (lk\<lparr>lk_stream := w1, lk_status := recordTx (length frame) (lk_status lk)\<rparr>)))"

definition deliver :: "'d writer \<Rightarrow> time \<Rightarrow> Metadata \<Rightarrow> bytes \<Rightarrow> bytes \<Rightarrow> ('w, 'd) Link \<Rightarrow> ('w, 'd) loop_result" where
  "deliver dwr now meta packet frame lk =
     (case dwr (lk_device lk) packet of
        (d1, Some e) \<Rightarrow> Some (lk\<lparr>lk_device := d1\<rparr>, Some (LDevice e))
      | (d1, None) \<Rightarrow>
          map_option (\<lambda>lk1. (lk1, None))
            (recordLink now meta ''rx'' frame (lk\<lparr>lk_device := d1, lk_status := recordRx (length frame) (lk_status lk)\<rparr>)))"

section \<open>From the device\<close>

fun readTAP ::
  "'w writer \<Rightarrow> Metadata \<Rightarrow> (nat \<Rightarrow> time) \<Rightarrow> nat \<Rightarrow> (ioerr + bytes) list \<Rightarrow> ('w, 'd) Link \<Rightarrow> ('w, 'd) loop_result" where
  "readTAP wr meta clock i [] lk = Some (lk, None)"
| "readTAP wr meta clock i (Inl e # rs) lk = Some (lk, Some (LDevice e))"
| "readTAP wr meta clock i (Inr frame # rs) lk =
     (if frame = [] then readTAP wr meta clock (Suc i) rs lk
      else case sendFrame wr (clock i) meta frame lk of
        None \<Rightarrow> None
      | Some (lk1, Some e) \<Rightarrow> Some (lk1, Some e)
      | Some (lk1, None) \<Rightarrow> readTAP wr meta clock (Suc i) rs lk1)"

definition packetFrame :: "bytes \<Rightarrow> bytes \<Rightarrow> Status \<Rightarrow> bytes option" where
  "packetFrame ownMAC packet s = do {
     dst \<leftarrow> ipv4Dst packet;
     let dstMAC = peerMACForIPv4 dst s;
     ethernetFrameFromIPv4 packet (if dstMAC = [] then broadcastMAC else dstMAC) ownMAC
   }"

fun readIPAsEthernet ::
  "'w writer \<Rightarrow> bytes \<Rightarrow> Metadata \<Rightarrow> (nat \<Rightarrow> time) \<Rightarrow> nat \<Rightarrow> (ioerr + bytes) list \<Rightarrow> ('w, 'd) Link \<Rightarrow> ('w, 'd) loop_result" where
  "readIPAsEthernet wr ownMAC meta clock i [] lk = Some (lk, None)"
| "readIPAsEthernet wr ownMAC meta clock i (Inl e # rs) lk = Some (lk, Some (LDevice e))"
| "readIPAsEthernet wr ownMAC meta clock i (Inr packet # rs) lk =
     (case (if packet = [] then Some False else isIPv4Packet packet) of
        None \<Rightarrow> None
      | Some ipv4 \<Rightarrow>
      if \<not> ipv4 then readIPAsEthernet wr ownMAC meta clock (Suc i) rs lk
      else case packetFrame ownMAC packet (lk_status lk) of
        None \<Rightarrow> None
      | Some frame \<Rightarrow>
          (case sendFrame wr (clock i) meta frame lk of
             None \<Rightarrow> None
           | Some (lk1, Some e) \<Rightarrow> Some (lk1, Some e)
           | Some (lk1, None) \<Rightarrow> readIPAsEthernet wr ownMAC meta clock (Suc i) rs lk1))"

section \<open>To the device\<close>

text \<open>One message of the data stream, for a TAP and for a TUN device.\<close>

definition tapMessage ::
  "'d writer \<Rightarrow> Metadata \<Rightarrow> time \<Rightarrow> MessageType \<Rightarrow> bytes \<Rightarrow> ('w, 'd) Link \<Rightarrow> ('w, 'd) loop_result" where
  "tapMessage dwr meta now typ payload lk =
     (if typ = TypeEthernetFrame then deliver dwr now meta payload payload lk else Some (lk, None))"

definition tunMessage ::
  "'w writer \<Rightarrow> 'd writer \<Rightarrow> bytes \<Rightarrow> bytes \<Rightarrow> bytes \<Rightarrow> Metadata \<Rightarrow> time \<Rightarrow> MessageType \<Rightarrow> bytes \<Rightarrow> ('w, 'd) Link
     \<Rightarrow> ('w, 'd) loop_result" where
  "tunMessage wr dwr ownMAC ownIP roomBroadcast meta now typ payload lk =
     (if typ \<noteq> TypeEthernetFrame then Some (lk, None)
      else do {
        arp \<leftarrow> isARPRequestForIPv4 payload ownIP;
        if arp then
          do {
            reply \<leftarrow> arpReply payload ownMAC ownIP;
            (case WriteMessage wr (lk_stream lk) TypeEthernetFrame reply of
               (w1, e) \<Rightarrow> Some (lk\<lparr>lk_stream := w1\<rparr>, map_option LProto e))
          }
        else do {
          ipv4 \<leftarrow> isIPv4EthernetFrame payload;
          if \<not> ipv4 then Some (lk, None)
          else do {
            packet \<leftarrow> slice_from 14 payload;
            ok \<leftarrow> shouldDeliverIPv4ToTUN packet ownIP roomBroadcast;
            if ok then deliver dwr now meta packet payload lk else Some (lk, None)
          }
        }
      })"

text \<open>The loops, over any handler of one message.\<close>

function readFrames ::
  "(time \<Rightarrow> MessageType \<Rightarrow> bytes \<Rightarrow> ('w, 'd) Link \<Rightarrow> ('w, 'd) loop_result) \<Rightarrow> (nat \<Rightarrow> time) \<Rightarrow> nat \<Rightarrow> Reader \<Rightarrow> ('w, 'd) Link
     \<Rightarrow> ('w, 'd) loop_result" where
  "readFrames handle clock i r lk =
     (case ReadMessage r (int MaxFrameSize) of
        (r1, Inl e) \<Rightarrow> Some (lk, Some (LProto e))
      | (r1, Inr (typ, payload)) \<Rightarrow>
          (case handle (clock i) typ payload lk of
             None \<Rightarrow> None
           | Some (lk1, Some e) \<Rightarrow> Some (lk1, Some e)
           | Some (lk1, None) \<Rightarrow> readFrames handle clock (Suc i) r1 lk1))"
  by pat_completeness auto
termination
  by (relation "measure (\<lambda>(handle, clock, i, r, lk). length (rd_data r))") (auto dest: sym ReadMessage_progress)

declare readFrames.simps [simp del]

definition writeTAP :: "'d writer \<Rightarrow> Metadata \<Rightarrow> (nat \<Rightarrow> time) \<Rightarrow> Reader \<Rightarrow> ('w, 'd) Link \<Rightarrow> ('w, 'd) loop_result" where
  "writeTAP dwr meta clock r lk = readFrames (tapMessage dwr meta) clock 0 r lk"

definition writeEthernetAsIP ::
  "'w writer \<Rightarrow> 'd writer \<Rightarrow> bytes \<Rightarrow> bytes \<Rightarrow> string \<Rightarrow> Metadata \<Rightarrow> (nat \<Rightarrow> time) \<Rightarrow> Reader \<Rightarrow> ('w, 'd) Link
     \<Rightarrow> ('w, 'd) loop_result" where
  "writeEthernetAsIP wr dwr ownMAC ownIP cidr meta clock r lk =
     do {
       roomBroadcast \<leftarrow> broadcastIPv4 cidr;
       readFrames (tunMessage wr dwr ownMAC ownIP roomBroadcast meta) clock 0 r lk
     }"

end
