(* ===== verification/Client_Loops_Props.thy ===== *)
theory Client_Loops_Props
  imports Client_Loops
begin

text \<open>
  The data path of the client: it survives every frame and packet, and what a TUN device sends
  comes out of the TUN device of the receiver unchanged.
\<close>

section \<open>No input makes a loop panic\<close>

lemma copy_at_total: "i \<le> j \<Longrightarrow> j \<le> length xs \<Longrightarrow> \<exists>ys. copy_at i j src xs = Some ys \<and> length ys = length xs"
  by (auto simp: copy_at_def Let_def)

lemma put_at_total: "i < length xs \<Longrightarrow> \<exists>ys. put_at i v xs = Some ys \<and> length ys = length xs"
  by (simp add: put_at_def)

lemma copy_at_bind: "i \<le> j \<Longrightarrow> j \<le> length xs \<Longrightarrow> (\<And>ys. length ys = length xs \<Longrightarrow> f ys \<noteq> None) \<Longrightarrow> copy_at i j src xs \<bind> f \<noteq> None"
  using copy_at_total [of i j xs src] by auto

lemma put_at_bind: "i < length xs \<Longrightarrow> (\<And>ys. length ys = length xs \<Longrightarrow> f ys \<noteq> None) \<Longrightarrow> put_at i v xs \<bind> f \<noteq> None"
  using put_at_total [of i xs v] by auto

lemma slice_bind: "i \<le> j \<Longrightarrow> j \<le> length xs \<Longrightarrow> (\<And>ys. length ys = j - i \<Longrightarrow> f ys \<noteq> None) \<Longrightarrow> slice i j xs \<bind> f \<noteq> None"
  by (simp add: slice_def)

lemma copy_at_ok: "i \<le> j \<Longrightarrow> j \<le> length xs \<Longrightarrow> copy_at i j src xs \<noteq> None"
  using copy_at_total [of i j xs src] by auto

lemmas bind_total = copy_at_bind put_at_bind slice_bind copy_at_ok

lemma arpReply_total: "42 \<le> length request \<Longrightarrow> arpReply request mac ip \<noteq> None"
  unfolding arpReply_def Let_def
  by (intro bind_total) simp_all

lemma ethernetFrame_total: "ethernetFrameFromIPv4 packet dst src \<noteq> None"
  unfolding ethernetFrameFromIPv4_def Let_def
  by (intro bind_total) simp_all

lemma sendFrame_total: "sendFrame wr now meta frame lk \<noteq> None"
  using Record_total by (auto simp: sendFrame_def recordLink_def split: prod.splits option.splits)

lemma deliver_total: "deliver dwr now meta packet frame lk \<noteq> None"
  using Record_total by (auto simp: deliver_def recordLink_def split: prod.splits option.splits)

lemma packetFrame_total: "isIPv4Packet packet = Some True \<Longrightarrow> packetFrame mac packet s \<noteq> None"
  by (simp add: packetFrame_def ipv4Dst_def slice_def isIPv4Packet_eq Let_def ethernetFrame_total)

lemma tunMessage_total: "tunMessage wr dwr mac ip bc meta now typ payload lk \<noteq> None"
proof -
  obtain arp v4 where b: "isARPRequestForIPv4 payload ip = Some arp" "isIPv4EthernetFrame payload = Some v4"
    using isARPRequestForIPv4_eq isIPv4EthernetFrame_eq by blast
  have "arpReply payload mac ip \<noteq> None" if arp
    using that b(1) arpReply_total by (simp add: isARPRequestForIPv4_eq)
  moreover have "14 \<le> length payload" "slice 16 20 (drop 14 payload) \<noteq> None" if v4
    using that b(2) by (auto simp: isIPv4EthernetFrame_eq slice_def)
  ultimately show ?thesis
    by (auto simp: tunMessage_def b slice_from_def shouldDeliverIPv4ToTUN_def ipv4Dst_def deliver_total [simplified] split: prod.splits)
qed

lemma readFrames_total:
  assumes total: "\<And>now typ payload lk. handle now typ payload lk \<noteq> None"
  shows "readFrames handle clock i r lk \<noteq> None"
proof (induction "length (rd_data r)" arbitrary: i r lk rule: less_induct)
  case less
  obtain r1 res where rm: "ReadMessage r (int MaxFrameSize) = (r1, res)" by fastforce
  show ?case
  proof (cases res)
    case (Inr m)
    obtain ty payload where m: "m = (ty, payload)" by fastforce
    obtain lk1 e where h: "handle (clock i) ty payload lk = Some (lk1, e)" using total by fastforce
    have "length (rd_data r1) < length (rd_data r)" using ReadMessage_progress rm Inr by blast
    then have "readFrames handle clock (Suc i) r1 lk1 \<noteq> None" by (rule less)
    then show ?thesis by (subst readFrames.simps) (simp add: rm Inr m h split: option.splits)
  qed (subst readFrames.simps, simp add: rm)
qed

lemma readTAP_total: "readTAP wr meta clock i rs lk \<noteq> None"
proof (induction wr meta clock i rs lk rule: readTAP.induct)
  case (3 wr meta clock i frame rs lk)
  obtain lk1 e where "sendFrame wr (clock i) meta frame lk = Some (lk1, e)" using sendFrame_total by fastforce
  then show ?case using 3 by (cases e) auto
qed simp_all

lemma readIP_total: "readIPAsEthernet wr mac meta clock i rs lk \<noteq> None"
proof (induction wr mac meta clock i rs lk rule: readIPAsEthernet.induct)
  case (3 wr mac meta clock i packet rs lk)
  obtain ipv4 where v: "(if packet = [] then Some False else isIPv4Packet packet) = Some ipv4"
    using isIPv4Packet_eq by (cases packet) auto
  show ?case
  proof (cases ipv4)
    case True
    then have "isIPv4Packet packet = Some True" using v by (simp split: if_splits)
    then obtain frame where f: "packetFrame mac packet (lk_status lk) = Some frame" using packetFrame_total by fastforce
    obtain lk1 e where "sendFrame wr (clock i) meta frame lk = Some (lk1, e)" using sendFrame_total by fastforce
    then show ?thesis using 3(2) v True f by (cases e) auto
  qed (use 3(1) v in auto)
qed simp_all

text \<open>C33. No frame from the network and no packet from the operating system makes the client panic:
  all four goroutines of the data path run until a stream or the device fails, whatever bytes
  they read. This covers every index and every slice of the ARP and IPv4 code, in the checks
  that classify a frame too, and the packet capture.\<close>

theorem data_path_never_panics:
  "readTAP wr meta clock i reads lk \<noteq> None \<and> readIPAsEthernet wr ownMAC meta clock i reads lk \<noteq> None
   \<and> writeTAP dwr meta clock r lk \<noteq> None \<and> writeEthernetAsIP wr dwr ownMAC ownIP cidr meta clock r lk \<noteq> None"
proof (intro conjI)
  show "writeTAP dwr meta clock r lk \<noteq> None"
    unfolding writeTAP_def by (rule readFrames_total) (simp add: tapMessage_def deliver_total del: not_None_eq)
  show "writeEthernetAsIP wr dwr ownMAC ownIP cidr meta clock r lk \<noteq> None"
    unfolding writeEthernetAsIP_def broadcastIPv4_eq bind.bind_lunit by (rule readFrames_total) (rule tunMessage_total)
qed (rule readTAP_total readIP_total)+

section \<open>Examples\<close>

definition demo_packet :: bytes where
  "demo_packet = [0x45, 0, 0, 20, 0, 0, 0, 0, 64, 17, 0, 0, 10, 66, 0, 2, 10, 66, 0, 3]"

definition demo_link :: "(bytes, bytes) Link" where
  "demo_link = \<lparr>lk_stream = [], lk_device = [], lk_status = demo_status, lk_capture = None\<rparr>"

section \<open>ARP requests\<close>

text \<open>C32. A TUN client answers an Ethernet frame with an ARP reply exactly if it is an ARP request
  for the client's own IPv4 address (with whatever padding after it), as it stands in the
  bytes: then it writes one reply to its stream, to the requester, that tells the client's
  MAC for that address and repeats the requester's addresses as the target, and it does nothing
  else. For any other message it writes nothing to its stream. The packet capture reads the
  reply as that ARP reply, and no client takes it for a request, so replies are never answered.\<close>

theorem arp_answered:
  assumes "length ownIP = 4" and "length ownMAC = 6"
  shows "(if \<exists>dst src sm si tm rest. frame = arp_frame dst src 1 sm si tm ownIP @ rest
           \<and> length dst = 6 \<and> length src = 6 \<and> length sm = 6 \<and> length si = 4 \<and> length tm = 6
      then \<exists>reply e. reply = arp_frame (take 6 (drop 6 frame)) ownMAC 2 ownMAC ownIP (take 6 (drop 22 frame)) (take 4 (drop 28 frame))
        \<and> tunMessage buf_Write dwr ownMAC ownIP bc meta now TypeEthernetFrame frame lk
            = Some (lk\<lparr>lk_stream := lk_stream lk @ frame_bytes (TypeEthernetFrame, reply)\<rparr>, None)
        \<and> parseFrame reply = Some e \<and> ev_Summary e = ''ARP reply '' @ IP_String ownIP @ '' is-at '' @ HardwareAddr_String ownMAC
        \<and> (\<forall>ip. isARPRequestForIPv4 reply ip = Some False)
      else \<exists>lk' e. tunMessage buf_Write dwr ownMAC ownIP bc meta now TypeEthernetFrame frame lk = Some (lk', e)
        \<and> lk_stream lk' = lk_stream lk)"
    (is "if ?request then _ else _")
proof -
  note iff = arp_request_iff [OF assms(1), of frame]
  show ?thesis
  proof (cases ?request)
    case req: True
    then have True: "isARPRequestForIPv4 frame ownIP = Some True" using iff by simp
    obtain dst src sm si tm rest where f: "frame = arp_frame dst src 1 sm si tm ownIP @ rest"
      and len: "length dst = 6" "length src = 6" "length sm = 6" "length si = 4" "length tm = 6"
      using req by blast
    let ?r = "arp_frame src ownMAC 2 ownMAC ownIP sm si"
    have parts: "take 6 (drop 6 frame) = src" "take 6 (drop 22 frame) = sm" "take 4 (drop 28 frame) = si"
      using len assms by (simp_all add: f arp_frame_def)
    have reply: "arpReply frame ownMAC ownIP = Some ?r" unfolding f by (rule arpReply_frame [OF len(1-4) assms])
    have "writable (TypeEthernetFrame, ?r)" "length ?r = 42"
      using len assms by (simp_all add: writable_def Valid_def message_type_defs size_defs arp_frame_def)
    then have "tunMessage buf_Write dwr ownMAC ownIP bc meta now TypeEthernetFrame frame lk
        = Some (lk\<lparr>lk_stream := lk_stream lk @ frame_bytes (TypeEthernetFrame, ?r)\<rparr>, None)"
      by (simp add: tunMessage_def True reply WriteMessage_buf)
    moreover obtain e where "parseFrame ?r = Some e"
      "ev_Summary e = ''ARP reply '' @ IP_String ownIP @ '' is-at '' @ HardwareAddr_String ownMAC"
      using parse_arp_frame [of src ownMAC ownMAC ownIP sm si] len assms by auto
    moreover have "isARPRequestForIPv4 ?r ip = Some False" for ip by (rule reply_no_request [OF len(2) assms(2)])
    ultimately show ?thesis unfolding if_P [OF req] parts by blast
  next
    case False
    then have no: "isARPRequestForIPv4 frame ownIP = Some False" using iff by (simp only: False)
    obtain lk' e where run: "tunMessage buf_Write dwr ownMAC ownIP bc meta now TypeEthernetFrame frame lk = Some (lk', e)"
      using tunMessage_total by fastforce
    then have "lk_stream lk' = lk_stream lk"
      by (auto simp: tunMessage_def no deliver_def recordLink_def split: if_splits bind_splits prod.splits option.splits)
    then show ?thesis unfolding if_not_P [OF False] using run by blast
  qed
qed

theorem arp_answered_witness:
  "\<exists>reply. tunMessage buf_Write buf_Write [2, 2, 2, 2, 2, 2] [10, 66, 0, 3] [] demo_meta 1 TypeEthernetFrame
      (arp_frame [255, 255, 255, 255, 255, 255] [2, 1, 1, 1, 1, 1] 1 [2, 1, 1, 1, 1, 1] [10, 66, 0, 2] [0, 0, 0, 0, 0, 0] [10, 66, 0, 3])
      demo_link = Some (demo_link\<lparr>lk_stream := frame_bytes (TypeEthernetFrame, reply)\<rparr>, None)
    \<and> take 6 reply = [2, 1, 1, 1, 1, 1]"
proof -
  let ?f = "arp_frame [255, 255, 255, 255, 255, 255] [2, 1, 1, 1, 1, 1] 1 [2, 1, 1, 1, 1, 1] [10, 66, 0, 2] [0, 0, 0, 0, 0, 0] [10, 66, 0, 3]"
  have req: "\<exists>dst src sm si tm rest. ?f = arp_frame dst src 1 sm si tm [10, 66, 0, 3] @ rest
      \<and> length dst = 6 \<and> length src = 6 \<and> length sm = 6 \<and> length si = 4 \<and> length tm = 6"
    by (rule exI [of _ "[255, 255, 255, 255, 255, 255]"], rule exI [of _ "[2, 1, 1, 1, 1, 1]"], rule exI [of _ "[2, 1, 1, 1, 1, 1]"],
        rule exI [of _ "[10, 66, 0, 2]"], rule exI [of _ "[0, 0, 0, 0, 0, 0]"], rule exI [of _ "[]"]) simp
  have "take 6 (arp_frame (take 6 (drop 6 ?f)) [2, 2, 2, 2, 2, 2] 2 [2, 2, 2, 2, 2, 2] [10, 66, 0, 3] (take 6 (drop 22 ?f)) (take 4 (drop 28 ?f)))
      = [2, 1, 1, 1, 1, 1]"
    by code_simp
  then show ?thesis
    using arp_answered [of "[10, 66, 0, 3]" "[2, 2, 2, 2, 2, 2]" ?f buf_Write "[]" demo_meta 1 demo_link]
    unfolding if_P [OF req] by (auto simp: demo_link_def)
qed

section \<open>From one TUN device to another\<close>

lemma bridge_frame:
  assumes "isIPv4Packet packet = Some True" and "length dst = 6" and "length src = 6"
  shows "isIPv4EthernetFrame (dst @ src @ [0x08, 0x00] @ packet) = Some True"
    and "isARPRequestForIPv4 (dst @ src @ [0x08, 0x00] @ packet) ip = Some False"
  using assms by (simp_all add: isIPv4EthernetFrame_eq isARPRequestForIPv4_eq isIPv4Packet_eq nth_append)

definition wanted :: "bytes \<Rightarrow> bytes \<Rightarrow> bytes \<Rightarrow> bool" where
  "wanted ownIP roomBroadcast dst \<longleftrightarrow> dst = ownIP \<or> dst = [255, 255, 255, 255] \<or> dst ! 0 AND 0xf0 = 0xe0 \<or> dst = roomBroadcast"

lemma deliver_written:
  "\<exists>lk'. deliver buf_Write now meta packet frame lk = Some (lk', None) \<and> lk_device lk' = lk_device lk @ packet
    \<and> lk_status lk' = recordRx (length frame) (lk_status lk) \<and> lk_stream lk' = lk_stream lk"
proof -
  obtain c where "Record now (meta\<lparr>md_Direction := ''rx''\<rparr>) frame (lk_capture lk) = Some c" using Record_total by blast
  then show ?thesis by (simp add: deliver_def recordLink_def buf_Write_def)
qed

lemma tun_step:
  assumes "isIPv4Packet packet = Some True" and "length ownMAC = 6" and "packetFrame ownMAC packet s = Some frame"
    and "length (peerMACForIPv4 (take 4 (drop 16 packet)) s) \<in> {0, 6}"
    and "length ip = 4" and "length bc \<in> {0, 4}"
  shows "tunMessage wr dwr mac ip bc meta now TypeEthernetFrame frame lk =
    (if wanted ip bc (take 4 (drop 16 packet)) then deliver dwr now meta packet frame lk else Some (lk, None))"
proof -
  let ?d = "take 4 (drop 16 packet)" and ?m = "peerMACForIPv4 (take 4 (drop 16 packet)) s"
  let ?dst = "if ?m = [] then broadcastMAC else ?m"
  have l: "20 \<le> length packet" using assms(1) by (simp add: isIPv4Packet_eq)
  then have dst: "ipv4Dst packet = Some ?d" "length ?d = 4" by (simp_all add: ipv4Dst_def slice_def drop_take)
  have "length ?dst = 6" using assms(4) by (auto simp: broadcastMAC_def)
  then have f: "frame = ?dst @ ownMAC @ [0x08, 0x00] @ packet"
    using assms(3) ethernetFrame_bytes [OF _ assms(2)] dst by (simp add: packetFrame_def Let_def)
  note b = bridge_frame [OF assms(1) \<open>length ?dst = 6\<close> assms(2), folded f]
  have "drop 14 frame = packet" "14 \<le> length frame" using f \<open>length ?dst = 6\<close> assms(2) by simp_all
  moreover have "IP_Equal ?d ip \<longleftrightarrow> ?d = ip" "IP_Equal ?d IPv4bcast \<longleftrightarrow> ?d = [255, 255, 255, 255]"
    "IsMulticast ?d \<longleftrightarrow> ?d ! 0 AND 0xf0 = 0xe0" "bc \<noteq> [] \<and> IP_Equal ?d bc \<longleftrightarrow> ?d = bc"
    using dst(2) assms(5,6) by (auto simp: IP_Equal_def IPv4bcast_def v4InV6Prefix_def IsMulticast_def To4_def)
  ultimately show ?thesis
    using b dst(1) by (simp add: tunMessage_def slice_from_def shouldDeliverIPv4ToTUN_def wanted_def)
qed

text \<open>C31. What a TUN client sends arrives unchanged: the IPv4 packet it reads from its device is
  put into an Ethernet frame that a receiving TUN client unpacks to the very same packet. The
  receiver passes it to its own device exactly if the packet is addressed to it, to everyone,
  to a multicast group or to the broadcast address of the room, and otherwise ignores it; it
  never mistakes it for an ARP request, and counts exactly what it passes on.\<close>

theorem tun_bridge:
  assumes "isIPv4Packet packet = Some True" and "length ownMAC = 6" and "packetFrame ownMAC packet s = Some frame"
    and "length (peerMACForIPv4 (take 4 (drop 16 packet)) s) \<in> {0, 6}"
    and "length ip = 4" and "length bc \<in> {0, 4}" and "dst = take 4 (drop 16 packet)"
  shows "\<exists>lk'. tunMessage wr buf_Write mac ip bc meta now TypeEthernetFrame frame lk = Some (lk', None)
    \<and> lk_device lk' = lk_device lk @ (if wanted ip bc dst then packet else []) \<and> lk_stream lk' = lk_stream lk
    \<and> lk_status lk' = (if wanted ip bc dst then recordRx (length frame) (lk_status lk) else lk_status lk)"
  using tun_step [OF assms(1-6), of wr buf_Write mac meta now lk] deliver_written [of now meta packet frame lk]
  by (auto simp: assms(7))

theorem tun_bridge_witness:
  "\<exists>frame lk'. packetFrame [2, 1, 2, 3, 4, 1] demo_packet demo_status = Some frame
     \<and> tunMessage buf_Write buf_Write [2, 1, 2, 3, 4, 2] [10, 66, 0, 3] [10, 66, 0, 255] demo_meta 1 TypeEthernetFrame frame demo_link
       = Some (lk', None) \<and> lk_device lk' = demo_packet"
proof -
  have p: "isIPv4Packet demo_packet = Some True" by code_simp
  have d: "[10, 66, 0, 3] = take 4 (drop 16 demo_packet)" by code_simp
  have m: "length (peerMACForIPv4 (take 4 (drop 16 demo_packet)) demo_status) \<in> {0, 6}" by code_simp
  obtain frame where f: "packetFrame [2, 1, 2, 3, 4, 1] demo_packet demo_status = Some frame" using packetFrame_total [OF p] by blast
  have "wanted [10, 66, 0, 3] [10, 66, 0, 255] [10, 66, 0, 3]" "lk_device demo_link = []" by (simp_all add: wanted_def demo_link_def)
  then show ?thesis
    using tun_bridge [OF p _ f m _ _ d, of "[10, 66, 0, 3]" "[10, 66, 0, 255]" buf_Write "[2, 1, 2, 3, 4, 2]" demo_meta 1 demo_link] f by auto
qed

end
