(* ===== verification/Tap.thy ===== *)
theory Tap
  imports Netparse Capture
begin

text \<open>
  The virtual network adapter, \<^verbatim>\<open>src/internal/tap\<close>: the list of devices, opening one and
  configuring it with the commands of the operating system, for Linux, macOS, Windows and the
  rest. The \<^verbatim>\<open>water\<close> package, the list of interfaces, the file system and the execution of
  commands are arguments.
\<close>

section \<open>Paths (path/filepath on Unix)\<close>

fun clean_elems :: "bool \<Rightarrow> string list \<Rightarrow> string list \<Rightarrow> string list" where
  "clean_elems rooted out [] = rev out"
| "clean_elems rooted out (e # es) =
     (if e = '''' \<or> e = ''.'' then clean_elems rooted out es
      else if e = ''..'' then
        (case out of
           [] \<Rightarrow> clean_elems rooted (if rooted then [] else [''..'']) es
         | o1 # os \<Rightarrow> if o1 = ''..'' then clean_elems rooted (''..'' # out) es else clean_elems rooted os es)
      else clean_elems rooted (e # out) es)"

definition path_Clean :: "string \<Rightarrow> string" where
  "path_Clean p =
     (let rooted = (p \<noteq> '''' \<and> hd p = CHR ''/'');
          body = join_strings ''/'' (clean_elems rooted [] (split_on (CHR ''/'') p))
      in if rooted then CHR ''/'' # body else if body = '''' then ''.'' else body)"

definition path_IsAbs :: "string \<Rightarrow> bool" where
  "path_IsAbs p \<longleftrightarrow> p \<noteq> '''' \<and> hd p = CHR ''/''"

definition path_Join :: "string list \<Rightarrow> string" where
  "path_Join es = (let es1 = filter (\<lambda>e. e \<noteq> '''') es in if es1 = [] then '''' else path_Clean (join_strings ''/'' es1))"

definition path_Dir :: "string \<Rightarrow> string" where
  "path_Dir p = path_Clean (rev (dropWhile (\<lambda>c. c \<noteq> CHR ''/'') (rev p)))"

definition path_Base :: "string \<Rightarrow> string" where
  "path_Base p =
     (if p = '''' then ''.''
      else let q = rev (dropWhile (\<lambda>c. c = CHR ''/'') (rev p))
           in if q = '''' then ''/'' else rev (takeWhile (\<lambda>c. c \<noteq> CHR ''/'') (rev q)))"

definition Itoa :: "int \<Rightarrow> string" where
  "Itoa n = (if n < 0 then CHR ''-'' # dec_string (nat (- n)) else dec_string (nat n))"

section \<open>Devices\<close>

record DeviceInfo =
  dv_Name :: string
  dv_Display :: string
  dv_Default :: bool
  dv_Virtual :: bool
  dv_Selectable :: bool

datatype Layer = LayerUnset | LayerEthernet | LayerIP

definition Layer_String :: "Layer \<Rightarrow> string" where
  "Layer_String l = (case l of LayerEthernet \<Rightarrow> ''ethernet'' | LayerIP \<Rightarrow> ''ip'' | LayerUnset \<Rightarrow> ''unknown'')"

record 'i Device =
  dev_iface :: 'i
  dev_layer :: Layer

definition Device_Layer :: "'i Device \<Rightarrow> Layer" where
  "Device_Layer d = (if dev_layer d = LayerUnset then LayerEthernet else dev_layer d)"

text \<open>\<^verbatim>\<open>net.InterfaceByName\<close> gives the address of an interface, or an error.\<close>

definition HardwareAddr :: "(string \<Rightarrow> string + bytes) \<Rightarrow> string \<Rightarrow> string + bytes" where
  "HardwareAddr byName name =
     (case byName name of
        Inl e \<Rightarrow> Inl e
      | Inr mac \<Rightarrow> if length mac \<noteq> 6 then Inl (''interface '' @ name @ '' has no ethernet MAC address'') else Inr mac)"

section \<open>Configuration texts\<close>

datatype cidr_error = ErrBadCIDR string | ErrNotIPv4CIDR string | ErrNotIPv4Mask string

definition IPv4AndMask :: "string \<Rightarrow> cidr_error + (string \<times> string)" where
  "IPv4AndMask cidr =
     (case ParseCIDR cidr of
        None \<Rightarrow> Inl (ErrBadCIDR cidr)
      | Some (ip, network) \<Rightarrow>
          (let ipv4 = To4 ip in
           if ipv4 = [] then Inl (ErrNotIPv4CIDR cidr)
           else if length (net_Mask network) \<noteq> 4 then Inl (ErrNotIPv4Mask cidr)
           else Inr (IP_String ipv4, IP_String (net_Mask network))))"

section \<open>The operating systems\<close>

datatype os = Linux | Darwin | Windows | OtherOS

definition DefaultDeviceName :: "os \<Rightarrow> string" where
  "DefaultDeviceName os = (case os of Linux \<Rightarrow> ''anylan0'' | _ \<Rightarrow> '''')"

definition ShouldAdvertiseMAC :: "os \<Rightarrow> bool" where
  "ShouldAdvertiseMAC os = (case os of Windows \<Rightarrow> True | _ \<Rightarrow> False)"

definition AdvertiseMAC :: "os \<Rightarrow> (string \<Rightarrow> string + bytes) \<Rightarrow> string \<Rightarrow> string + string" where
  "AdvertiseMAC os byName name =
     (case os of
        Windows \<Rightarrow> (case HardwareAddr byName name of Inl e \<Rightarrow> Inl e | Inr mac \<Rightarrow> Inr (HardwareAddr_String mac))
      | _ \<Rightarrow> Inr '''')"

text \<open>\<^verbatim>\<open>water.New\<close>, called with the kind of device, its name and, on Windows, the component id.\<close>

datatype water_kind = TAP | TUN

type_synonym 'i water = "water_kind \<Rightarrow> string \<Rightarrow> string \<Rightarrow> string + 'i"

definition unsupported :: string where
  "unsupported = ''anylan client TAP devices are only supported on Linux, macOS, and Windows''"

definition openLinux :: "'i water \<Rightarrow> string \<Rightarrow> string + 'i Device" where
  "openLinux water name =
     (case water TAP (if name = '''' then DefaultDeviceName Linux else name) '''' of
        Inl e \<Rightarrow> Inl e | Inr i \<Rightarrow> Inr \<lparr>dev_iface = i, dev_layer = LayerEthernet\<rparr>)"

definition openDarwin :: "'i water \<Rightarrow> string \<Rightarrow> string + 'i Device" where
  "openDarwin water name =
     (case water TUN (TrimSpace name) '''' of
        Inl e \<Rightarrow> Inl e | Inr i \<Rightarrow> Inr \<lparr>dev_iface = i, dev_layer = LayerIP\<rparr>)"

text \<open>On Windows the interface name stays empty and the component ids are tried in turn; the name asked for is not used.\<close>

fun openComponents :: "'i water \<Rightarrow> string list \<Rightarrow> string \<Rightarrow> string + 'i Device" where
  "openComponents water [] lastErr =
     Inl (''open Windows TAP adapter failed: '' @ lastErr
          @ ''; install an OpenVPN/tap-windows6 compatible TAP driver and run anylan-client from an Administrator shell'')"
| "openComponents water (c # cs) lastErr =
     (case water TAP '''' c of
        Inl e \<Rightarrow> openComponents water cs e
      | Inr i \<Rightarrow> Inr \<lparr>dev_iface = i, dev_layer = LayerEthernet\<rparr>)"

definition openWindows :: "'i water \<Rightarrow> string \<Rightarrow> string + 'i Device" where
  "openWindows water name = openComponents water [''tap0901'', ''root'' @ [CHR 0x5C] @ ''tap0901''] ''''"

definition openUnsupported :: "'i water \<Rightarrow> string \<Rightarrow> string + 'i Device" where
  "openUnsupported water name = Inl unsupported"

definition Tap_Open :: "os \<Rightarrow> 'i water \<Rightarrow> string \<Rightarrow> string + 'i Device" where
  "Tap_Open os = (case os of Linux \<Rightarrow> openLinux | Darwin \<Rightarrow> openDarwin | Windows \<Rightarrow> openWindows | OtherOS \<Rightarrow> openUnsupported)"

section \<open>The list of devices\<close>

text \<open>On Linux a device is told apart by its files under \<^verbatim>\<open>/sys/class/net\<close>.\<close>

definition linuxInterfaceKind :: "(string \<Rightarrow> bool) \<Rightarrow> (string \<Rightarrow> string option) \<Rightarrow> string \<Rightarrow> bool \<times> bool" where
  "linuxInterfaceKind stat readlink name =
     (if name = '''' then (False, False)
      else if stat (path_Join [''/sys/class/net'', name, ''tun_flags'']) then (True, True)
      else case readlink (path_Join [''/sys/class/net'', name]) of
        Some target \<Rightarrow>
          (path_IsAbs target \<and> path_Base (path_Dir target) = ''virtual'' \<or> path_Base (path_Dir (path_Dir target)) = ''virtual'', False)
      | None \<Rightarrow> (False, False))"

fun listEach :: "(string \<Rightarrow> bool \<times> bool) \<Rightarrow> string list \<Rightarrow> string list \<Rightarrow> DeviceInfo list" where
  "listEach kind seen [] = []"
| "listEach kind seen (name # names) =
     (if name \<in> set seen then listEach kind seen names
      else (case kind name of (virtual, selectable) \<Rightarrow>
        \<lparr>dv_Name = name, dv_Display = name, dv_Default = False, dv_Virtual = virtual, dv_Selectable = selectable\<rparr>
        # listEach kind (name # seen) names))"

text \<open>The devices, with the error of \<^verbatim>\<open>net.Interfaces\<close> beside what was found before it.\<close>

definition listLinux ::
  "(string \<Rightarrow> bool) \<Rightarrow> (string \<Rightarrow> string option) \<Rightarrow> string + string list \<Rightarrow> DeviceInfo list \<times> string option" where
  "listLinux stat readlink ifaces =
     (let defaultName = DefaultDeviceName Linux;
          device = \<lparr>dv_Name = defaultName, dv_Display = defaultName @ '' (default)'', dv_Default = True, dv_Virtual = True, dv_Selectable = True\<rparr>
      in case ifaces of
           Inl e \<Rightarrow> ([device], Some e)
         | Inr names \<Rightarrow> (device # listEach (linuxInterfaceKind stat readlink) [defaultName] names, None))"

definition listDarwin :: "string + string list \<Rightarrow> DeviceInfo list \<times> string option" where
  "listDarwin ifaces =
     (let device = \<lparr>dv_Name = '''', dv_Display = ''Auto-detect utun adapter'', dv_Default = True, dv_Virtual = True, dv_Selectable = True\<rparr>
      in case ifaces of
           Inl e \<Rightarrow> ([device], Some e)
         | Inr names \<Rightarrow>
             (device # map (\<lambda>name. \<lparr>dv_Name = name, dv_Display = name, dv_Default = False,
                                    dv_Virtual = prefix ''utun'' name, dv_Selectable = prefix ''utun'' name\<rparr>) names, None))"

definition listWindows :: "string + string list \<Rightarrow> DeviceInfo list \<times> string option" where
  "listWindows ifaces =
     (let device = \<lparr>dv_Name = '''', dv_Display = ''Auto-detect TAP adapter'', dv_Default = True, dv_Virtual = True, dv_Selectable = True\<rparr>
      in case ifaces of
           Inl e \<Rightarrow> ([device], Some e)
         | Inr names \<Rightarrow>
             (device # map (\<lambda>name. \<lparr>dv_Name = name, dv_Display = name, dv_Default = False,
                                    dv_Virtual = False, dv_Selectable = True\<rparr>) names, None))"

definition ListDevices ::
  "os \<Rightarrow> (string \<Rightarrow> bool) \<Rightarrow> (string \<Rightarrow> string option) \<Rightarrow> string + string list \<Rightarrow> DeviceInfo list \<times> string option" where
  "ListDevices os stat readlink ifaces =
     (case os of
        Linux \<Rightarrow> listLinux stat readlink ifaces
      | Darwin \<Rightarrow> listDarwin ifaces
      | Windows \<Rightarrow> listWindows ifaces
      | OtherOS \<Rightarrow> ([], Some unsupported))"

section \<open>Configuring\<close>

text \<open>\<^verbatim>\<open>net.IPNet.String\<close>, with the length of a mask of leading ones.\<close>

definition leading_ones :: "byte \<Rightarrow> nat" where
  "leading_ones v = length (takeWhile (bit v) [7, 6, 5, 4, 3, 2, 1, 0])"

fun simpleMaskLength :: "bytes \<Rightarrow> nat option" where
  "simpleMaskLength [] = Some 0"
| "simpleMaskLength (v # m) =
     (if v = 0xff then map_option (\<lambda>n. n + 8) (simpleMaskLength m)
      else if push_bit (leading_ones v) v = 0 \<and> list_all (\<lambda>b. b = 0) m then Some (leading_ones v)
      else None)"

definition IPNet_String :: "IPNet \<Rightarrow> string" where
  "IPNet_String n =
     IP_String (net_IP n) @ ''/'' @ (case simpleMaskLength (net_Mask n) of Some l \<Rightarrow> dec_string l | None \<Rightarrow> hex_bytes (net_Mask n))"

definition networkCIDR :: "string \<Rightarrow> string" where
  "networkCIDR cidr = (case ParseCIDR cidr of None \<Rightarrow> cidr | Some (_, network) \<Rightarrow> IPNet_String network)"

text \<open>
  A command changes the system and may fail with an error and its output. On macOS the second
  one may report that the route exists already.
\<close>

type_synonym 's exec = "'s \<Rightarrow> string list \<Rightarrow> 's \<times> (string \<times> string) option"

datatype config_error = ErrCIDR cidr_error | ErrCommand "string list" string string | ErrUnsupported string

fun runCommands :: "(nat \<Rightarrow> string \<Rightarrow> bool) \<Rightarrow> 's exec \<Rightarrow> nat \<Rightarrow> string list list \<Rightarrow> 's \<Rightarrow> 's \<times> config_error option" where
  "runCommands tolerate exec i [] s = (s, None)"
| "runCommands tolerate exec i (args # cmds) s =
     (case exec s args of
        (s1, None) \<Rightarrow> runCommands tolerate exec (Suc i) cmds s1
      | (s1, Some (e, output)) \<Rightarrow>
          if tolerate i output then runCommands tolerate exec (Suc i) cmds s1 else (s1, Some (ErrCommand args e output)))"

definition configureLinux :: "'s exec \<Rightarrow> string \<Rightarrow> string \<Rightarrow> string \<Rightarrow> int \<Rightarrow> bool \<Rightarrow> 's \<Rightarrow> 's \<times> config_error option" where
  "configureLinux exec name mac cidr mtu prioritize s =
     runCommands (\<lambda>i output. False) exec 0
       [[''ip'', ''link'', ''set'', ''dev'', name, ''address'', mac],
        [''ip'', ''link'', ''set'', ''dev'', name, ''mtu'', Itoa mtu],
        [''ip'', ''addr'', ''add'', cidr, ''dev'', name],
        [''ip'', ''link'', ''set'', ''dev'', name, ''up'']] s"

definition configureDarwin :: "'s exec \<Rightarrow> string \<Rightarrow> string \<Rightarrow> string \<Rightarrow> int \<Rightarrow> bool \<Rightarrow> 's \<Rightarrow> 's \<times> config_error option" where
  "configureDarwin exec name mac cidr mtu prioritize s =
     (case IPv4AndMask cidr of
        Inl e \<Rightarrow> (s, Some (ErrCIDR e))
      | Inr (ip, nm) \<Rightarrow>
          runCommands (\<lambda>i output. i = 1 \<and> sublist ''File exists'' output) exec 0
            ([[''ifconfig'', name, ''inet'', ip, ip, ''netmask'', nm, ''mtu'', Itoa mtu, ''up''],
              [''route'', ''add'', ''-net'', networkCIDR cidr, ''-interface'', name]]
             @ (if prioritize then [[''ifconfig'', name, ''metric'', ''1'']] else [])) s)"

definition configureWindows :: "'s exec \<Rightarrow> string \<Rightarrow> string \<Rightarrow> string \<Rightarrow> int \<Rightarrow> bool \<Rightarrow> 's \<Rightarrow> 's \<times> config_error option" where
  "configureWindows exec name mac cidr mtu prioritize s =
     (case IPv4AndMask cidr of
        Inl e \<Rightarrow> (s, Some (ErrCIDR e))
      | Inr (ip, nm) \<Rightarrow>
          runCommands (\<lambda>i output. False) exec 0
            ([[''netsh'', ''interface'', ''ip'', ''set'', ''address'', name, ''static'', ip, nm],
              [''netsh'', ''interface'', ''ipv4'', ''set'', ''subinterface'', name, ''mtu='' @ Itoa mtu, ''store=active'']]
             @ (if prioritize
                then [[''netsh'', ''interface'', ''ipv4'', ''set'', ''interface'', name, ''metric=1'', ''store=active'']] else [])) s)"

definition Configure :: "os \<Rightarrow> 's exec \<Rightarrow> string \<Rightarrow> string \<Rightarrow> string \<Rightarrow> int \<Rightarrow> bool \<Rightarrow> 's \<Rightarrow> 's \<times> config_error option" where
  "Configure os =
     (case os of
        Linux \<Rightarrow> configureLinux
      | Darwin \<Rightarrow> configureDarwin
      | Windows \<Rightarrow> configureWindows
      | OtherOS \<Rightarrow> (\<lambda>exec name mac cidr mtu prioritize s. (s, Some (ErrUnsupported unsupported))))"

section \<open>Set-up of the Windows driver\<close>

text \<open>
  \<^verbatim>\<open>src/cmd/tapsetup/main_windows.go\<close>. The registry is the list of the \<^verbatim>\<open>ComponentId\<close> values of
  the adapter class (None where a key cannot be read), or None where the class itself cannot be read.
\<close>

definition componentID :: string where "componentID = ''tap0901''"

text \<open>
  \<^verbatim>\<open>strings.EqualFold\<close> with the component id: only k and s have letters beyond ASCII that fold
  to them, and the id has neither.
\<close>

definition lower_ascii :: "char \<Rightarrow> char" where
  "lower_ascii c = (let n = (of_char c :: nat) in if 65 \<le> n \<and> n \<le> 90 then char_of (n + 32) else c)"

definition EqualFold_ascii :: "string \<Rightarrow> string \<Rightarrow> bool" where
  "EqualFold_ascii a b \<longleftrightarrow> map lower_ascii a = map lower_ascii b"

definition hasAdapter :: "string option list option \<Rightarrow> bool" where
  "hasAdapter reg =
     (case reg of
        None \<Rightarrow> False
      | Some vals \<Rightarrow>
          list_ex (\<lambda>v. case v of None \<Rightarrow> False
                     | Some x \<Rightarrow> EqualFold_ascii x componentID \<or> EqualFold_ascii x (''root'' @ [CHR 0x5C] @ componentID)) vals)"

datatype setup_error = ErrExecutable string | ErrDriverFile string string | ErrDevcon "string list" string string | ErrNotFoundAfter

definition driverFiles :: "string list" where
  "driverFiles = [''devcon.exe'', ''OemVista.inf'', ''tap0901.cat'', ''tap0901.sys'']"

text \<open>\<^verbatim>\<open>filepath.Join\<close> and \<^verbatim>\<open>filepath.Dir\<close> of Windows are arguments, as are the file system and \<^verbatim>\<open>devcon.exe\<close>.\<close>

record filepath =
  fp_Join :: "string list \<Rightarrow> string"
  fp_Dir :: "string \<Rightarrow> string"

fun missingFile :: "filepath \<Rightarrow> (string \<Rightarrow> string option) \<Rightarrow> string \<Rightarrow> string list \<Rightarrow> setup_error option" where
  "missingFile fp stat dir [] = None"
| "missingFile fp stat dir (name # names) =
     (case stat (fp_Join fp [dir, name]) of
        Some e \<Rightarrow> Some (ErrDriverFile (fp_Join fp [dir, name]) e)
      | None \<Rightarrow> missingFile fp stat dir names)"

definition driverDir :: "filepath \<Rightarrow> (string + string) \<Rightarrow> (string \<Rightarrow> string option) \<Rightarrow> setup_error + string" where
  "driverDir fp executable stat =
     (case executable of
        Inl e \<Rightarrow> Inl (ErrExecutable e)
      | Inr exe \<Rightarrow>
          (let dir = fp_Join fp [fp_Dir fp exe, ''tap-windows6'', ''amd64'']
           in case missingFile fp stat dir driverFiles of Some e \<Rightarrow> Inl e | None \<Rightarrow> Inr dir))"

definition ensureAdapter ::
  "filepath \<Rightarrow> (string + string) \<Rightarrow> (string \<Rightarrow> string option) \<Rightarrow> ('s \<Rightarrow> string option list option) \<Rightarrow> 's exec \<Rightarrow> 's
     \<Rightarrow> 's \<times> setup_error option" where
  "ensureAdapter fp executable stat reg exec s =
     (if hasAdapter (reg s) then (s, None)
      else case driverDir fp executable stat of
        Inl e \<Rightarrow> (s, Some e)
      | Inr dir \<Rightarrow>
          (let cmd = [fp_Join fp [dir, ''devcon.exe''], ''install'', fp_Join fp [dir, ''OemVista.inf''], componentID]
           in case exec s cmd of
                (s1, Some (e, output)) \<Rightarrow> (s1, Some (ErrDevcon cmd e output))
              | (s1, None) \<Rightarrow> if \<not> hasAdapter (reg s1) then (s1, Some ErrNotFoundAfter) else (s1, None)))"

text \<open>The exit status of the program: 2 for a wrong call, 1 for an error, else 0.\<close>

definition tapsetup_main ::
  "filepath \<Rightarrow> (string + string) \<Rightarrow> (string \<Rightarrow> string option) \<Rightarrow> ('s \<Rightarrow> string option list option) \<Rightarrow> 's exec \<Rightarrow> string list \<Rightarrow> 's
     \<Rightarrow> 's \<times> nat" where
  "tapsetup_main fp executable stat reg exec args s =
     (if length args \<noteq> 2 \<or> args ! 1 \<noteq> ''ensure'' then (s, 2)
      else case ensureAdapter fp executable stat reg exec s of
        (s1, Some e) \<Rightarrow> (s1, 1)
      | (s1, None) \<Rightarrow> (s1, 0))"

end
