(* ===== verification/Client_Session.thy ===== *)
theory Client_Session
  imports Client_Loops Tap
begin

text \<open>
  A session of the client and the loop around it, \<^verbatim>\<open>src/internal/client/client.go\<close> and
  \<^verbatim>\<open>src/internal/client/local_config.go\<close>: the stored configuration, the join conversation
  (\<^verbatim>\<open>runSession\<close>), and reconnecting (\<^verbatim>\<open>runLoop\<close>). QUIC, the adapter, the file system and the
  JSON codec are arguments.
\<close>

section \<open>Configuration\<close>

record JoinRequest =
  jq_Server :: string
  jq_Room :: string
  jq_DisplayName :: string
  jq_DeviceName :: string
  jq_InsecureSkipVerify :: bool
  jq_PrioritizeVirtualAdapter :: bool

definition configFromJoinRequest :: "JoinRequest \<Rightarrow> Config" where
  "configFromJoinRequest req =
     \<lparr>cfg_Server = jq_Server req, cfg_Room = jq_Room req, cfg_DisplayName = jq_DisplayName req,
      cfg_DeviceName = jq_DeviceName req, cfg_InsecureSkipVerify = jq_InsecureSkipVerify req,
      cfg_PrioritizeVirtualAdapter = jq_PrioritizeVirtualAdapter req\<rparr>"

definition normalizeConfig :: "os \<Rightarrow> Config \<Rightarrow> string + Config" where
  "normalizeConfig os cfg =
     (let c1 = cfg\<lparr>cfg_Server := TrimSpace (cfg_Server cfg)\<rparr> in
      if cfg_Server c1 = '''' then Inl ''server is required''
      else
        (let c2 = c1\<lparr>cfg_Room := TrimSpace (cfg_Room c1)\<rparr> in
         if cfg_Room c2 = '''' then Inl ''room is required''
         else
           (let c3 = c2\<lparr>cfg_DisplayName := TrimSpace (cfg_DisplayName c2), cfg_DeviceName := TrimSpace (cfg_DeviceName c2)\<rparr>
            in Inr (if cfg_DeviceName c3 = '''' then c3\<lparr>cfg_DeviceName := DefaultDeviceName os\<rparr> else c3))))"

definition defaultControlConfig :: "os \<Rightarrow> Config" where
  "defaultControlConfig os =
     \<lparr>cfg_Server = '''', cfg_Room = '''', cfg_DisplayName = '''', cfg_DeviceName = DefaultDeviceName os,
      cfg_InsecureSkipVerify = False, cfg_PrioritizeVirtualAdapter = True\<rparr>"

record localClientConfig =
  lc_Server :: string
  lc_Room :: string
  lc_DisplayName :: string
  lc_DeviceName :: string
  lc_InsecureSkipVerify :: bool
  lc_PrioritizeVirtualAdapter :: "bool option"

text \<open>
  The file system as the code uses it: the result of reading a file, and the steps of writing
  one. The path of the user's configuration directory may be unknown.
\<close>

datatype read_result = NotExist | ReadErr string | Contents bytes

type_synonym config_codec = "(localClientConfig \<Rightarrow> string + bytes) \<times> (bytes \<Rightarrow> string + localClientConfig)"

definition configPath :: "string + string \<Rightarrow> string \<Rightarrow> string + string" where
  "configPath userDir path =
     (if path \<noteq> '''' then Inr path
      else case userDir of Inl e \<Rightarrow> Inl e | Inr dir \<Rightarrow> Inr (path_Join [dir, ''anylan'', ''client.json'']))"

definition loadClientConfig :: "os \<Rightarrow> config_codec \<Rightarrow> string + string \<Rightarrow> (string \<Rightarrow> read_result) \<Rightarrow> string \<Rightarrow> Config \<times> string option" where
  "loadClientConfig os cc userDir readFile path =
     (let cfg = defaultControlConfig os in
      case configPath userDir path of
        Inl e \<Rightarrow> (cfg, Some e)
      | Inr p \<Rightarrow>
          (case readFile p of
             NotExist \<Rightarrow> (cfg, None)
           | ReadErr e \<Rightarrow> (cfg, Some e)
           | Contents data \<Rightarrow>
               (case snd cc data of
                  Inl e \<Rightarrow> (cfg, Some e)
                | Inr stored \<Rightarrow>
                    (let c1 = cfg\<lparr>cfg_Server := lc_Server stored, cfg_Room := lc_Room stored,
                                  cfg_DisplayName := lc_DisplayName stored, cfg_DeviceName := lc_DeviceName stored,
                                  cfg_InsecureSkipVerify := lc_InsecureSkipVerify stored\<rparr>;
                         c2 = (case lc_PrioritizeVirtualAdapter stored of
                                 None \<Rightarrow> c1 | Some b \<Rightarrow> c1\<lparr>cfg_PrioritizeVirtualAdapter := b\<rparr>)
                     in (if cfg_DeviceName c2 = '''' then c2\<lparr>cfg_DeviceName := DefaultDeviceName os\<rparr> else c2, None)))))"

text \<open>\<^verbatim>\<open>os.MkdirAll\<close> and \<^verbatim>\<open>os.WriteFile\<close> act on the file system and may fail.\<close>

definition saveClientConfig ::
  "config_codec \<Rightarrow> string + string \<Rightarrow> ('f \<Rightarrow> string \<Rightarrow> 'f \<times> string option) \<Rightarrow> ('f \<Rightarrow> string \<Rightarrow> bytes \<Rightarrow> 'f \<times> string option)
     \<Rightarrow> string \<Rightarrow> Config \<Rightarrow> 'f \<Rightarrow> 'f \<times> string option" where
  "saveClientConfig cc userDir mkdirAll writeFile path cfg fs =
     (case configPath userDir path of
        Inl e \<Rightarrow> (fs, Some e)
      | Inr p \<Rightarrow>
          (case fst cc \<lparr>lc_Server = cfg_Server cfg, lc_Room = cfg_Room cfg, lc_DisplayName = cfg_DisplayName cfg,
                        lc_DeviceName = cfg_DeviceName cfg, lc_InsecureSkipVerify = cfg_InsecureSkipVerify cfg,
                        lc_PrioritizeVirtualAdapter = Some (cfg_PrioritizeVirtualAdapter cfg)\<rparr> of
             Inl e \<Rightarrow> (fs, Some e)
           | Inr data \<Rightarrow>
               (case mkdirAll fs (path_Dir p) of
                  (fs1, Some e) \<Rightarrow> (fs1, Some e)
                | (fs1, None) \<Rightarrow> writeFile fs1 p (data @ [10]))))"

section \<open>Errors of a session\<close>

text \<open>
  A fatal error carries its text; the others are those of the protocol, of a device and the
  remaining ones by their text, among them the cancelled context.
\<close>

datatype client_err = Fatal string | CProto proto_error | CDevice ioerr | CCancelled | COther string

definition isFatal :: "client_err option \<Rightarrow> bool" where
  "isFatal e = (case e of Some (Fatal _) \<Rightarrow> True | _ \<Rightarrow> False)"

definition errorString :: "(client_err \<Rightarrow> string) \<Rightarrow> client_err option \<Rightarrow> string" where
  "errorString errText e =
     (case e of
        None \<Rightarrow> ''closed''
      | Some err \<Rightarrow>
          if err = CCancelled then ''cancelled''
          else if err = CProto (ErrIO EOF) \<or> err = CDevice EOF then ''eof''
          else errText err)"

section \<open>Joining\<close>

datatype dial_error = ErrCertificate string | ErrDial string

text \<open>What the surroundings answer during the join: the connection, the streams, the adapter and the random bytes.\<close>

record ('i, 's) SessionEnv =
  env_dial :: "dial_error option"
  env_water :: "'i water"
  env_byName :: "string \<Rightarrow> string + bytes"
  env_ifName :: "'i \<Rightarrow> string"
  env_openStream :: "string option"
  env_nonce :: "bytes option"
  env_exec :: "'s exec"
  env_acceptStream :: "string option"

definition clientJoin :: "Config \<Rightarrow> string \<Rightarrow> string \<Rightarrow> JoinRoom" where
  "clientJoin cfg mac nonce =
     \<lparr>jr_Version = Version, jr_Room = cfg_Room cfg, jr_DisplayName = cfg_DisplayName cfg, jr_MAC = mac, jr_Nonce = nonce,
      jr_Features = [FeaturePeerLatency]\<rparr>"

text \<open>The answer to the request. The texts of errors within a fatal error are arguments.\<close>

definition readAnswer :: "Codec \<Rightarrow> Reader \<Rightarrow> Reader \<times> (client_err + JoinAccept)" where
  "readAnswer cd r =
     (case ReadMessage r (int MaxControlSize) of
        (r1, Inl e) \<Rightarrow> (r1, Inl (CProto e))
      | (r1, Inr (typ, payload)) \<Rightarrow>
          (r1,
           if typ = TypeJoinReject then
             (case snd (cd_JoinReject cd) payload of
                Inl e \<Rightarrow> Inl (Fatal (''decode join reject: '' @ e))
              | Inr rej \<Rightarrow> Inl (Fatal (''join rejected: '' @ rj_Reason rej)))
           else if typ \<noteq> TypeJoinAccept then Inl (Fatal (''unexpected join response type '' @ dec_string (unat typ)))
           else
             (case snd (cd_JoinAccept cd) payload of
                Inl e \<Rightarrow> Inl (Fatal (''decode join accept: '' @ e))
              | Inr accept \<Rightarrow> Inr accept)))"

text \<open>How the goroutines of the session are started: on which layer and with which addresses.\<close>

datatype started = StartTAP | StartTUN bytes bytes

definition startLayer :: "Layer \<Rightarrow> JoinAccept \<Rightarrow> client_err + started" where
  "startLayer layer accept =
     (if layer = LayerIP then
        (case ParseMAC (ja_MAC accept) of
           None \<Rightarrow> Inl (Fatal (''parse assigned MAC: address '' @ ja_MAC accept @ '': invalid MAC address''))
         | Some ownMAC \<Rightarrow>
             (let ownIP = To4 (ParseIP (ja_IPv4 accept)) in
              if ownIP = [] then Inl (Fatal (''parse assigned IPv4: '' @ ja_IPv4 accept)) else Inr (StartTUN ownMAC ownIP)))
      else Inr StartTAP)"

text \<open>The adapter is opened before the join where its MAC is to be advertised, else after it.\<close>

definition openAdvertised :: "os \<Rightarrow> ('i, 's) SessionEnv \<Rightarrow> Config \<Rightarrow> client_err + ('i Device option \<times> string)" where
  "openAdvertised os env cfg =
     (if \<not> ShouldAdvertiseMAC os then Inr (None, '''')
      else case Tap_Open os (env_water env) (cfg_DeviceName cfg) of
        Inl e \<Rightarrow> Inl (Fatal (''open TAP device: '' @ e))
      | Inr d \<Rightarrow>
          (case AdvertiseMAC os (env_byName env) (env_ifName env (dev_iface d)) of
             Inl e \<Rightarrow> Inl (Fatal (''read TAP MAC address: '' @ e))
           | Inr mac \<Rightarrow> Inr (Some d, mac)))"

definition openDevice :: "os \<Rightarrow> ('i, 's) SessionEnv \<Rightarrow> Config \<Rightarrow> 'i Device option \<Rightarrow> client_err + 'i Device" where
  "openDevice os env cfg device =
     (case device of
        Some d \<Rightarrow> Inr d
      | None \<Rightarrow>
          (case Tap_Open os (env_water env) (cfg_DeviceName cfg) of
             Inl e \<Rightarrow> Inl (Fatal (''open TAP device: '' @ e)) | Inr d \<Rightarrow> Inr d))"

text \<open>After the accept message: the adapter, its configuration, the data stream and the layer.\<close>

definition setUpSession ::
  "os \<Rightarrow> ('i, 's) SessionEnv \<Rightarrow> (config_error \<Rightarrow> string) \<Rightarrow> Config \<Rightarrow> 'i Device option \<Rightarrow> JoinAccept \<Rightarrow> 's \<Rightarrow> 's \<times> (client_err + started)" where
  "setUpSession os env cfgText cfg device accept sys =
     (case openDevice os env cfg device of
        Inl e \<Rightarrow> (sys, Inl e)
      | Inr d \<Rightarrow>
          (case Configure os (env_exec env) (env_ifName env (dev_iface d)) (ja_MAC accept) (ja_CIDR accept) (ja_MTU accept)
                  (cfg_PrioritizeVirtualAdapter cfg) sys of
             (sys1, Some e) \<Rightarrow> (sys1, Inl (Fatal (''configure TAP device: '' @ cfgText e)))
           | (sys1, None) \<Rightarrow>
               (case env_acceptStream env of
                  Some e \<Rightarrow> (sys1, Inl (COther e))
                | None \<Rightarrow> (sys1, startLayer (Device_Layer d) accept))))"

text \<open>
  The session up to the start of its goroutines. The result holds the status, the bytes written
  to the control stream, the system and how the session goes on.
\<close>

definition startSessionConn ::
  "os \<Rightarrow> Codec \<Rightarrow> ('i, 's) SessionEnv \<Rightarrow> (config_error \<Rightarrow> string) \<Rightarrow> time \<Rightarrow> 'w writer \<Rightarrow> Config \<Rightarrow> Reader \<Rightarrow> 'w \<Rightarrow> 's \<Rightarrow> Status
     \<Rightarrow> Status \<times> 'w \<times> 's \<times> (client_err + started)" where
  "startSessionConn os cd env cfgText now wr cfg r w sys s =
     (case env_dial env of
        Some (ErrCertificate e) \<Rightarrow> (s, w, sys, Inl (Fatal (''TLS certificate verification failed: '' @ e)))
      | Some (ErrDial e) \<Rightarrow> (s, w, sys, Inl (COther e))
      | None \<Rightarrow>
          (case openAdvertised os env cfg of
             Inl e \<Rightarrow> (s, w, sys, Inl e)
           | Inr (device, mac) \<Rightarrow>
               (case env_openStream env of
                  Some e \<Rightarrow> (s, w, sys, Inl (COther e))
                | None \<Rightarrow>
                    (case nonceHex (env_nonce env) of
                       None \<Rightarrow> (s, w, sys, Inl (COther ''rand''))
                     | Some nonce \<Rightarrow>
                         (case WriteJSON (fst (cd_JoinRoom cd)) wr w TypeJoinRoom (clientJoin cfg mac nonce) of
                            (w1, Some e) \<Rightarrow> (s, w1, sys, Inl (CProto e))
                          | (w1, None) \<Rightarrow>
                              (case readAnswer cd r of
                                 (r1, Inl e) \<Rightarrow> (s, w1, sys, Inl e)
                               | (r1, Inr accept) \<Rightarrow>
                                   (case setUpSession os env cfgText cfg device accept sys of
                                      (sys1, res) \<Rightarrow> (joined_status now accept s, w1, sys1, res))))))))"

section \<open>Reconnecting\<close>

text \<open>
  One pass of the loop: what the session does to the status and the error it returns, and
  whether the context is done after it or during the pause.
\<close>

record Attempt =
  at_session :: "Status \<Rightarrow> Status \<times> client_err option"
  at_doneAfter :: bool
  at_doneWaiting :: bool

datatype loop_end = LoopCancelled | LoopStopped "client_err option" | LoopRunning

definition backoffNext :: "duration \<Rightarrow> duration" where
  "backoffNext backoff = (if backoff < 15 * second then backoff * 2 else backoff)"

definition addReconnect :: "Status \<Rightarrow> Status" where
  "addReconnect s = s\<lparr>st_reconnects := st_reconnects s + 1\<rparr>"

text \<open>The loop with the pauses it makes; when the attempts are used up it still runs.\<close>

fun runLoopFrom ::
  "(nat \<Rightarrow> time) \<Rightarrow> (client_err \<Rightarrow> string) \<Rightarrow> nat \<Rightarrow> Attempt list \<Rightarrow> duration \<Rightarrow> Status \<Rightarrow> Status \<times> duration list \<times> loop_end" where
  "runLoopFrom clock errText i [] backoff s = (s, [], LoopRunning)"
| "runLoopFrom clock errText i (a # as) backoff s =
     (case at_session a (setState (clock i) ''connecting'' s) of
        (s1, err) \<Rightarrow>
          if at_doneAfter a then (s1, [], LoopCancelled)
          else if isFatal err then (endSession (clock i) (map_option errText err) ''stopped'' s1, [], LoopStopped err)
          else
            (let s2 = endSession (clock i) (map_option errText err) ''reconnecting'' s1 in
             if at_doneWaiting a then (s2, [backoff], LoopCancelled)
             else (case runLoopFrom clock errText (Suc i) as (backoffNext backoff) (addReconnect s2) of
                     (s3, delays, e) \<Rightarrow> (s3, backoff # delays, e))))"

definition runLoop :: "(nat \<Rightarrow> time) \<Rightarrow> (client_err \<Rightarrow> string) \<Rightarrow> Attempt list \<Rightarrow> Status \<Rightarrow> Status \<times> duration list \<times> loop_end" where
  "runLoop clock errText as s = runLoopFrom clock errText 0 as second s"

section \<open>When the client tries again\<close>

definition retryable :: "Attempt \<Rightarrow> bool" where
  "retryable a \<longleftrightarrow> \<not> at_doneAfter a \<and> \<not> at_doneWaiting a \<and> (\<forall>s. \<not> isFatal (snd (at_session a s)))"

lemma backoff_power: "(backoffNext ^^ k) second = min (2 ^ k) 16 * second"
proof (induction k)
  case (Suc k)
  then have step: "(backoffNext ^^ Suc k) second = backoffNext (min (2 ^ k) 16 * second)" by simp
  consider "k < 4" | "4 \<le> k" by linarith
  then show ?case
  proof cases
    case 1
    then have "k = 0 \<or> k = 1 \<or> k = 2 \<or> k = 3" by linarith
    then show ?thesis unfolding step by (elim disjE) (simp_all add: backoffNext_def second_def)
  next
    case 2
    then have "(16 :: int) \<le> 2 ^ k" using power_increasing [OF 2, of "2 :: int"] by simp
    then show ?thesis unfolding step by (simp add: backoffNext_def second_def)
  qed
qed simp

lemma map_upt_Suc_shift: "map (\<lambda>k. (f ^^ k) (f b)) [0 ..< n] = map (\<lambda>k. (f ^^ k) b) [Suc 0 ..< Suc n]"
  by (simp add: map_Suc_upt [symmetric] funpow_swap1 del: upt_Suc)

lemma runLoop_retries:
  assumes "list_all retryable as"
  shows "\<exists>s1. runLoopFrom clock errText i (as @ bs) b s =
    (case runLoopFrom clock errText (i + length as) bs ((backoffNext ^^ length as) b) s1 of
       (s2, delays, e) \<Rightarrow> (s2, map (\<lambda>k. (backoffNext ^^ k) b) [0 ..< length as] @ delays, e))"
  using assms
proof (induction as arbitrary: i b s)
  case Nil
  show ?case by (rule exI [of _ s]) simp
next
  case (Cons a as)
  obtain s1 err where ses: "at_session a (setState (clock i) ''connecting'' s) = (s1, err)" by fastforce
  have "retryable a" "err = snd (at_session a (setState (clock i) ''connecting'' s))" using Cons.prems ses by simp_all
  then have ok: "\<not> at_doneAfter a" "\<not> at_doneWaiting a" "\<not> isFatal err" by (simp_all add: retryable_def)
  let ?s2 = "addReconnect (endSession (clock i) (map_option errText err) ''reconnecting'' s1)"
  obtain s3 where ih: "runLoopFrom clock errText (Suc i) (as @ bs) (backoffNext b) ?s2 =
      (case runLoopFrom clock errText (Suc i + length as) bs ((backoffNext ^^ length as) (backoffNext b)) s3 of
         (s2, delays, e) \<Rightarrow> (s2, map (\<lambda>k. (backoffNext ^^ k) (backoffNext b)) [0 ..< length as] @ delays, e))"
    using Cons.IH Cons.prems by fastforce
  have "map (\<lambda>k. (backoffNext ^^ k) b) [0 ..< length (a # as)]
      = b # map (\<lambda>k. (backoffNext ^^ k) (backoffNext b)) [0 ..< length as]"
    unfolding map_upt_Suc_shift by (simp add: upt_conv_Cons del: upt_Suc)
  then show ?case
    using ses ok ih by (intro exI [of _ s3]) (simp add: Let_def funpow_swap1 split: prod.splits)
qed

text \<open>The loop after a number of sessions that ended for a retry.\<close>

lemma runLoop_after:
  assumes "list_all retryable as"
  obtains s1 where "runLoop clock errText (as @ bs) s =
    (case runLoopFrom clock errText (length as) bs (min (2 ^ length as) 16 * second) s1 of
       (s2, delays, e) \<Rightarrow> (s2, map (\<lambda>k. min (2 ^ k) 16 * second) [0 ..< length as] @ delays, e))"
  using runLoop_retries [OF assms, of clock errText 0 bs second s] by (auto simp: runLoop_def backoff_power)

text \<open>C25. The client never gives up on its own, and stops when it should. As long as sessions end
  with errors that are not fatal and the user does not leave, it tries again, after pauses of
  1, 2, 4, 8 and then always 16 seconds. When the user has left by the end of a session, the
  loop ends there, whatever the error, without a pause and with the status as that session left
  it; when the user leaves during a pause, it ends with that pause and starts no other session,
  the status left at reconnecting without any address. A fatal error, such as a rejected join,
  ends the loop at once without a further pause and leaves the status stopped, with the error
  and without any address.\<close>

theorem reconnect_policy:
  assumes "list_all retryable as" and "pauses = map (\<lambda>k. min (2 ^ k) 16 * second) [0 ..< length as]"
  shows "snd (runLoop clock errText as s) = (pauses, LoopRunning)
    \<and> (\<forall>a bs msg. \<not> at_doneAfter a \<and> (\<forall>s. snd (at_session a s) = Some (Fatal msg)) \<longrightarrow>
        (\<exists>s'. runLoop clock errText (as @ a # bs) s = (s', pauses, LoopStopped (Some (Fatal msg)))
         \<and> st_state s' = ''stopped'' \<and> st_lastError s' = errText (Fatal msg) \<and> st_peerID s' = '''' \<and> st_ipv4 s' = ''''))
    \<and> (\<forall>a bs. at_doneAfter a \<longrightarrow>
        (\<exists>s1. st_state s1 = ''connecting'' \<and> runLoop clock errText (as @ a # bs) s = (fst (at_session a s1), pauses, LoopCancelled)))
    \<and> (\<forall>a bs. \<not> at_doneAfter a \<and> (\<forall>s. \<not> isFatal (snd (at_session a s))) \<and> at_doneWaiting a \<longrightarrow>
        (\<exists>s'. runLoop clock errText (as @ a # bs) s = (s', pauses @ [min (2 ^ length as) 16 * second], LoopCancelled)
         \<and> st_state s' = ''reconnecting'' \<and> st_peerID s' = '''' \<and> st_ipv4 s' = ''''))"
proof (intro conjI allI impI)
  obtain s1 where "runLoop clock errText (as @ []) s =
    (case runLoopFrom clock errText (length as) [] (min (2 ^ length as) 16 * second) s1 of
       (s2, delays, e) \<Rightarrow> (s2, map (\<lambda>k. min (2 ^ k) 16 * second) [0 ..< length as] @ delays, e))"
    using runLoop_after [OF assms(1)] .
  then show "snd (runLoop clock errText as s) = (pauses, LoopRunning)" by (simp add: assms(2))
next
  fix a :: Attempt and bs msg
  assume a: "\<not> at_doneAfter a \<and> (\<forall>s. snd (at_session a s) = Some (Fatal msg))"
  obtain s1 where r: "runLoop clock errText (as @ a # bs) s =
    (case runLoopFrom clock errText (length as) (a # bs) (min (2 ^ length as) 16 * second) s1 of
       (s2, delays, e) \<Rightarrow> (s2, map (\<lambda>k. min (2 ^ k) 16 * second) [0 ..< length as] @ delays, e))"
    using runLoop_after [OF assms(1)] .
  obtain s2 where "at_session a (setState (clock (length as)) ''connecting'' s1) = (s2, Some (Fatal msg))"
    using a by (metis prod.collapse)
  then show "\<exists>s'. runLoop clock errText (as @ a # bs) s = (s', pauses, LoopStopped (Some (Fatal msg)))
     \<and> st_state s' = ''stopped'' \<and> st_lastError s' = errText (Fatal msg) \<and> st_peerID s' = '''' \<and> st_ipv4 s' = ''''"
    using r a by (simp add: assms(2) isFatal_def endSession_def Let_def)
next
  fix a :: Attempt and bs
  assume a: "at_doneAfter a"
  obtain s1 where r: "runLoop clock errText (as @ a # bs) s =
    (case runLoopFrom clock errText (length as) (a # bs) (min (2 ^ length as) 16 * second) s1 of
       (s2, delays, e) \<Rightarrow> (s2, map (\<lambda>k. min (2 ^ k) 16 * second) [0 ..< length as] @ delays, e))"
    using runLoop_after [OF assms(1)] .
  show "\<exists>s1. st_state s1 = ''connecting'' \<and> runLoop clock errText (as @ a # bs) s = (fst (at_session a s1), pauses, LoopCancelled)"
    using r a by (intro exI [of _ "setState (clock (length as)) ''connecting'' s1"])
      (auto simp: assms(2) setState_def split: prod.splits)
next
  fix a :: Attempt and bs
  assume a: "\<not> at_doneAfter a \<and> (\<forall>s. \<not> isFatal (snd (at_session a s))) \<and> at_doneWaiting a"
  obtain s1 where r: "runLoop clock errText (as @ a # bs) s =
    (case runLoopFrom clock errText (length as) (a # bs) (min (2 ^ length as) 16 * second) s1 of
       (s2, delays, e) \<Rightarrow> (s2, map (\<lambda>k. min (2 ^ k) 16 * second) [0 ..< length as] @ delays, e))"
    using runLoop_after [OF assms(1)] .
  obtain s2 err where "at_session a (setState (clock (length as)) ''connecting'' s1) = (s2, err)" "\<not> isFatal err"
    using a by (metis prod.collapse)
  then show "\<exists>s'. runLoop clock errText (as @ a # bs) s = (s', pauses @ [min (2 ^ length as) 16 * second], LoopCancelled)
     \<and> st_state s' = ''reconnecting'' \<and> st_peerID s' = '''' \<and> st_ipv4 s' = ''''"
    using r a by (simp add: assms(2) endSession_def Let_def split: option.splits)
qed

theorem reconnect_policy_witness:
  "fst (snd (runLoop (\<lambda>i. 1) (\<lambda>e. ''x'') (replicate 6 \<lparr>at_session = \<lambda>s. (s, None), at_doneAfter = False, at_doneWaiting = False\<rparr>) demo_status))
     = [second, 2 * second, 4 * second, 8 * second, 16 * second, 16 * second]"
proof -
  let ?as = "replicate 6 \<lparr>at_session = \<lambda>s :: Status. (s, None :: client_err option), at_doneAfter = False, at_doneWaiting = False\<rparr>"
  have "list_all retryable ?as" by (simp add: retryable_def isFatal_def list_all_iff)
  then have "snd (runLoop (\<lambda>i. 1) (\<lambda>e. ''x'') ?as demo_status) = (map (\<lambda>k. min (2 ^ k) 16 * second) [0 ..< length ?as], LoopRunning)"
    by (rule conjunct1 [OF reconnect_policy [OF _ refl]])
  then show ?thesis by (simp add: upt_rec)
qed

section \<open>The stored configuration\<close>

text \<open>C37. What the client saves when it joins is what it loads the next time it starts. Required
  is only that the codec gives this one structure back from its own text with a line break
  (\<^verbatim>\<open>encoding/json\<close> does where the strings are valid UTF-8) and that the file system gives
  back what was written: then saving a normalised configuration and loading returns that
  configuration, with no error.\<close>

theorem config_roundtrip:
  assumes "normalizeConfig os raw = Inr cfg"
    and "saveClientConfig cc userDir mkdirAll writeFile path cfg fs = (fs', None)"
    and "stored = \<lparr>lc_Server = cfg_Server cfg, lc_Room = cfg_Room cfg, lc_DisplayName = cfg_DisplayName cfg,
      lc_DeviceName = cfg_DeviceName cfg, lc_InsecureSkipVerify = cfg_InsecureSkipVerify cfg,
      lc_PrioritizeVirtualAdapter = Some (cfg_PrioritizeVirtualAdapter cfg)\<rparr>"
    and "\<And>bs. fst cc stored = Inr bs \<Longrightarrow> snd cc (bs @ [10]) = Inr stored"
    and "\<And>f p bs f'. writeFile f p bs = (f', None) \<Longrightarrow> readFile f' p = Contents bs"
  shows "loadClientConfig os cc userDir (readFile fs') path = (cfg, None)"
proof -
  obtain p bs fs1 where p: "configPath userDir path = Inr p" and bs: "fst cc stored = Inr bs"
    and w: "writeFile fs1 p (bs @ [10]) = (fs', None)"
    using assms(2,3) by (auto simp: saveClientConfig_def split: sum.splits prod.splits option.splits)
  have dev: "cfg_DeviceName cfg = '''' \<Longrightarrow> DefaultDeviceName os = ''''"
    using assms(1) by (auto simp: normalizeConfig_def Let_def split: if_splits)
  have "readFile fs' p = Contents (bs @ [10])" "snd cc (bs @ [10]) = Inr stored"
    using assms(5) [OF w] assms(4) [OF bs] by simp_all
  then show ?thesis
    using p dev by (auto simp: assms(3) loadClientConfig_def defaultControlConfig_def Let_def)
qed

text \<open>
  A codec for the example: each string ends in a zero byte and the flags follow; it gives back
  every structure whose strings have no zero byte, and only those.
\<close>

definition flag_byte :: "bool option \<Rightarrow> byte" where
  "flag_byte b = (case b of None \<Rightarrow> 3 | Some v \<Rightarrow> if v then 2 else 1)"

definition byte_flag :: "byte \<Rightarrow> bool option" where
  "byte_flag v = (if v = 3 then None else Some (v = 2))"

definition text_of :: "bytes \<Rightarrow> string" where
  "text_of bs = map (\<lambda>b. char_of (unat b)) bs"

definition demo_cc :: config_codec where
  "demo_cc =
     (\<lambda>v. Inr (concat (map (\<lambda>s. map of_char s @ [0]) [lc_Server v, lc_Room v, lc_DisplayName v, lc_DeviceName v])
               @ [flag_byte (Some (lc_InsecureSkipVerify v)), flag_byte (lc_PrioritizeVirtualAdapter v)]),
      \<lambda>bs. case split_on 0 bs of
             [s, r, n, d, flags] \<Rightarrow>
               if length flags < 2 then Inl ''flags''
               else Inr \<lparr>lc_Server = text_of s, lc_Room = text_of r, lc_DisplayName = text_of n, lc_DeviceName = text_of d,
                         lc_InsecureSkipVerify = byte_flag (flags ! 0) = Some True,
                         lc_PrioritizeVirtualAdapter = byte_flag (flags ! 1)\<rparr>
           | _ \<Rightarrow> Inl ''strings'')"

definition one_file_write :: "(string \<times> bytes) option \<Rightarrow> string \<Rightarrow> bytes \<Rightarrow> (string \<times> bytes) option \<times> string option" where
  "one_file_write f p bs = (Some (p, bs), None)"

definition one_file_read :: "(string \<times> bytes) option \<Rightarrow> string \<Rightarrow> read_result" where
  "one_file_read f p = (case f of Some (q, bs) \<Rightarrow> if q = p then Contents bs else NotExist | None \<Rightarrow> NotExist)"

theorem config_roundtrip_witness:
  "\<exists>fs'. saveClientConfig demo_cc (Inr ''/home/a/.config'') (\<lambda>f d. (f, None)) one_file_write '''' demo_config None = (fs', None)
     \<and> loadClientConfig Linux demo_cc (Inr ''/home/a/.config'') (one_file_read fs') '''' = (demo_config, None)"
proof -
  let ?v = "\<lparr>lc_Server = cfg_Server demo_config, lc_Room = cfg_Room demo_config, lc_DisplayName = cfg_DisplayName demo_config,
    lc_DeviceName = cfg_DeviceName demo_config, lc_InsecureSkipVerify = cfg_InsecureSkipVerify demo_config,
    lc_PrioritizeVirtualAdapter = Some (cfg_PrioritizeVirtualAdapter demo_config)\<rparr>"
  have n: "normalizeConfig Linux demo_config = Inr demo_config" by code_simp
  have ok: "snd (saveClientConfig demo_cc (Inr ''/home/a/.config'') (\<lambda>f d. (f, None)) one_file_write '''' demo_config None) = None"
    by code_simp
  then obtain fs' where s: "saveClientConfig demo_cc (Inr ''/home/a/.config'') (\<lambda>f d. (f, None)) one_file_write '''' demo_config None = (fs', None)"
    by (metis prod.collapse)
  have "snd demo_cc (projr (fst demo_cc ?v) @ [10]) = Inr ?v" by code_simp
  then have c: "snd demo_cc (bs @ [10]) = Inr ?v" if "fst demo_cc ?v = Inr bs" for bs using that by simp
  have "loadClientConfig Linux demo_cc (Inr ''/home/a/.config'') (one_file_read fs') '''' = (demo_config, None)"
    by (rule config_roundtrip [OF n s refl c]) (auto simp: one_file_write_def one_file_read_def)
  then show ?thesis using s by blast
qed

end
