(* ===== verification/Client_Controller.thy ===== *)
theory Client_Controller
  imports Client_Session
begin

text \<open>
  The controller behind the client's web page, \<^verbatim>\<open>Controller\<close> of
  \<^verbatim>\<open>src/internal/client/client.go\<close>: joining and leaving start and cancel the goroutine that
  runs \<^verbatim>\<open>runLoop\<close>. What happens between the critical sections interleaves, so the controller
  is a step relation.
\<close>

section \<open>State\<close>

text \<open>
  The n-th session is known by its number, which stands for its \<^verbatim>\<open>done\<close> channel; \<^verbatim>\<open>cancel\<close> and
  \<^verbatim>\<open>done\<close> are set and cleared together. The sets hold the goroutines that are inside \<^verbatim>\<open>runLoop\<close>,
  those that have left the critical section after it, the sessions whose context is
  cancelled and the calls of \<^verbatim>\<open>Leave\<close> that are about to cancel. The last field says that the
  context of the program is done.
\<close>

record Controller =
  ct_status :: Status
  ct_current :: "nat option"
  ct_next :: nat
  ct_loops :: "nat set"
  ct_ended :: "nat set"
  ct_cancelled :: "nat set"
  ct_leaving :: "nat set"
  ct_down :: bool

datatype api_error = APIError int string

definition NewController :: "os \<Rightarrow> time \<Rightarrow> config_codec \<Rightarrow> string + string \<Rightarrow> (string \<Rightarrow> read_result) \<Rightarrow> string \<Rightarrow> Controller" where
  "NewController os now cc userDir readFile path =
     (let cfg = (case loadClientConfig os cc userDir readFile path of (cfg, None) \<Rightarrow> cfg | (_, Some e) \<Rightarrow> defaultControlConfig os)
      in \<lparr>ct_status = newIdleStatus now cfg, ct_current = None, ct_next = 0, ct_loops = {}, ct_ended = {}, ct_cancelled = {},
          ct_leaving = {}, ct_down = False\<rparr>)"

definition ctx_done :: "Controller \<Rightarrow> nat \<Rightarrow> bool" where
  "ctx_done c n \<longleftrightarrow> ct_down c \<or> n \<in> ct_cancelled c"

section \<open>Joining\<close>

definition zeroRequest :: JoinRequest where
  "zeroRequest = \<lparr>jq_Server = '''', jq_Room = '''', jq_DisplayName = '''', jq_DeviceName = '''', jq_InsecureSkipVerify = False,
     jq_PrioritizeVirtualAdapter = False\<rparr>"

definition joinConfig :: "os \<Rightarrow> (bytes \<Rightarrow> string + JoinRequest) \<Rightarrow> bytes \<Rightarrow> api_error + Config" where
  "joinConfig os dec payload =
     (case (if payload = [] then Inr zeroRequest else dec payload) of
        Inl e \<Rightarrow> Inl (APIError 400 ''invalid join request'')
      | Inr req \<Rightarrow>
          (case normalizeConfig os (configFromJoinRequest req) of
             Inl e \<Rightarrow> Inl (APIError 400 e)
           | Inr cfg \<Rightarrow> Inr cfg))"

text \<open>The critical section; the result of saving the configuration is an argument.\<close>

definition joinLocked :: "time \<Rightarrow> string option \<Rightarrow> Config \<Rightarrow> Controller \<Rightarrow> Controller \<times> (api_error + nat)" where
  "joinLocked now saveErr cfg c =
     (if ct_current c \<noteq> None then (c, Inl (APIError 409 ''already joined; leave the current room first''))
      else case saveErr of
        Some e \<Rightarrow> (c, Inl (APIError 500 (''save client config: '' @ e)))
      | None \<Rightarrow>
          (c\<lparr>ct_current := Some (ct_next c), ct_next := Suc (ct_next c), ct_loops := insert (ct_next c) (ct_loops c),
             ct_status := startSession now cfg (ct_status c)\<rparr>, Inr (ct_next c)))"

definition Controller_Join ::
  "os \<Rightarrow> (bytes \<Rightarrow> string + JoinRequest) \<Rightarrow> (Config \<Rightarrow> string option) \<Rightarrow> time \<Rightarrow> bytes \<Rightarrow> Controller \<Rightarrow> Controller \<times> (api_error + ClientSnapshot)" where
  "Controller_Join os dec save now payload c =
     (case joinConfig os dec payload of
        Inl e \<Rightarrow> (c, Inl e)
      | Inr cfg \<Rightarrow>
          (case joinLocked now (save cfg) cfg c of
             (c1, Inl e) \<Rightarrow> (c1, Inl e)
           | (c1, Inr n) \<Rightarrow> (c1, Inr (Status_Snapshot now (ct_status c1)))))"

section \<open>Leaving\<close>

text \<open>\<^verbatim>\<open>Leave\<close> reads \<^verbatim>\<open>cancel\<close> under the mutex and acts on it afterwards.\<close>

definition leaveStart :: "Controller \<Rightarrow> Controller" where
  "leaveStart c = (case ct_current c of None \<Rightarrow> c | Some n \<Rightarrow> c\<lparr>ct_leaving := insert n (ct_leaving c)\<rparr>)"

definition leaveFinish :: "time \<Rightarrow> nat \<Rightarrow> Controller \<Rightarrow> Controller" where
  "leaveFinish now n c =
     c\<lparr>ct_status := setState now ''leaving'' (ct_status c), ct_cancelled := insert n (ct_cancelled c), ct_leaving := ct_leaving c - {n}\<rparr>"

section \<open>The goroutine of a session\<close>

definition loopReturn :: "nat \<Rightarrow> Controller \<Rightarrow> Controller" where
  "loopReturn n c =
     c\<lparr>ct_loops := ct_loops c - {n}, ct_ended := insert n (ct_ended c),
       ct_current := (if ct_current c = Some n then None else ct_current c)\<rparr>"

definition sessionOver :: "time \<Rightarrow> nat \<Rightarrow> Controller \<Rightarrow> Controller" where
  "sessionOver now n c =
     (if ctx_done c n then c\<lparr>ct_status := endSession now None ''idle'' (ct_status c), ct_ended := ct_ended c - {n}\<rparr>
      else c\<lparr>ct_ended := ct_ended c - {n}\<rparr>)"

text \<open>Every interleaving; while a loop runs, it may do anything to the status.\<close>

inductive ctl_step :: "Controller \<Rightarrow> Controller \<Rightarrow> bool" where
  step_join: "joinLocked now saveErr cfg c = (c', res) \<Longrightarrow> ctl_step c c'"
| step_leave: "ctl_step c (leaveStart c)"
| step_cancel: "n \<in> ct_leaving c \<Longrightarrow> ctl_step c (leaveFinish now n c)"
| step_status: "n \<in> ct_loops c \<Longrightarrow> ctl_step c (c\<lparr>ct_status := f (ct_status c)\<rparr>)"
| step_return: "n \<in> ct_loops c \<Longrightarrow> ctl_step c (loopReturn n c)"
| step_over: "n \<in> ct_ended c \<Longrightarrow> ctl_step c (sessionOver now n c)"
| step_down: "ctl_step c (c\<lparr>ct_down := True\<rparr>)"

inductive ctl_reachable :: "Controller \<Rightarrow> bool" where
  ctl_init: "ctl_reachable (NewController os now cc userDir readFile path)"
| ctl_next: "ctl_reachable c \<Longrightarrow> ctl_step c c' \<Longrightarrow> ctl_reachable c'"

inductive_cases ctl_stepE: "ctl_step c c'"

definition ctl_inv :: "Controller \<Rightarrow> bool" where
  "ctl_inv c \<longleftrightarrow> ct_loops c = (case ct_current c of None \<Rightarrow> {} | Some n \<Rightarrow> {n})
     \<and> (\<forall>n \<in> ct_loops c \<union> ct_ended c \<union> ct_cancelled c \<union> ct_leaving c. n < ct_next c)"

lemma ctl_inv_step:
  assumes "ctl_inv c" and "ctl_step c c'"
  shows "ctl_inv c'"
  using assms(2,1)
proof (cases rule: ctl_step.cases)
  case (step_join now saveErr cfg res)
  then show ?thesis using assms(1) by (auto simp: joinLocked_def ctl_inv_def less_Suc_eq split: if_splits option.splits)
next
  case (step_return n)
  then show ?thesis using assms(1) by (auto simp: loopReturn_def ctl_inv_def split: option.splits if_splits)
qed (use assms(1) in \<open>auto simp: ctl_inv_def leaveStart_def leaveFinish_def sessionOver_def split: option.splits\<close>)

lemma ctl_reachable_inv: "ctl_reachable c \<Longrightarrow> ctl_inv c"
  by (induction rule: ctl_reachable.induct)
    (auto simp: ctl_inv_step, simp add: ctl_inv_def NewController_def Let_def)

text \<open>C28. However joins, leaves and ending sessions interleave, the client runs at most one session
  at a time, and it refuses to join exactly while one runs: a join is answered with a conflict
  if and only if a session loop is still active, and otherwise starts the one new loop.\<close>

theorem single_session:
  assumes "ctl_reachable c" and "joinLocked now None cfg c = (c', res)"
  shows "card (ct_loops c) \<le> 1
    \<and> (ct_loops c \<noteq> {} \<longrightarrow> c' = c \<and> (\<exists>msg. res = Inl (APIError 409 msg)))
    \<and> (ct_loops c = {} \<longrightarrow> (\<exists>n. res = Inr n \<and> ct_loops c' = {n} \<and> ct_current c' = Some n \<and> n \<notin> ct_ended c \<union> ct_cancelled c)
         \<and> st_state (ct_status c') = ''starting'' \<and> st_room (ct_status c') = cfg_Room cfg)"
  using ctl_reachable_inv [OF assms(1)] assms(2)
  by (auto simp: ctl_inv_def joinLocked_def startSession_def split: option.splits if_splits)

definition demo_ctl :: Controller where
  "demo_ctl = NewController Linux 1 demo_cc (Inr ''/c'') (\<lambda>p. NotExist) ''''"

theorem single_session_witness:
  "\<exists>c' msg. ct_loops (fst (joinLocked 2 None demo_config demo_ctl)) = {0}
     \<and> joinLocked 3 None demo_config (fst (joinLocked 2 None demo_config demo_ctl)) = (c', Inl (APIError 409 msg))"
proof -
  let ?c = "fst (joinLocked 2 None demo_config demo_ctl)"
  have r0: "ctl_reachable demo_ctl" unfolding demo_ctl_def by (rule ctl_init)
  then have r: "ctl_reachable ?c" by (rule ctl_next) (rule step_join [where res = "snd (joinLocked 2 None demo_config demo_ctl)"], simp)
  have l: "ct_loops ?c = {0}" by (simp add: joinLocked_def demo_ctl_def NewController_def Let_def)
  obtain c' res where j: "joinLocked 3 None demo_config ?c = (c', res)" by fastforce
  then show ?thesis using single_session [OF r j] l by auto
qed

text \<open>
  The critical section at the end of a session and the reset of the status are two steps. A new
  session that starts in between is connected, and then loses its status.
\<close>

definition rejoined :: Controller where
  "rejoined =
     (let c1 = fst (joinLocked 2 None demo_config demo_ctl);
          c2 = loopReturn 0 (leaveFinish 3 0 (leaveStart c1));
          c3 = fst (joinLocked 4 None demo_config c2)
      in c3\<lparr>ct_status := joined_status 5 demo_accept (ct_status c3)\<rparr>)"

lemma rejoined_state:
  "ct_loops rejoined = {1}" "ct_ended rejoined = {0}" "ct_cancelled rejoined = {0}" "\<not> ct_down rejoined"
  "st_state (ct_status rejoined) = ''connected''"
  by (simp_all add: rejoined_def joinLocked_def leaveStart_def leaveFinish_def loopReturn_def demo_ctl_def NewController_def
      Let_def joined_status_def keepLatencyPeersLocked_def)

lemma rejoined_reachable: "ctl_reachable rejoined"
proof -
  let ?c1 = "fst (joinLocked 2 None demo_config demo_ctl)"
  let ?c2 = "loopReturn 0 (leaveFinish 3 0 (leaveStart ?c1))"
  let ?c3 = "fst (joinLocked 4 None demo_config ?c2)"
  have join: "ctl_step c (fst (joinLocked now None cfg c))" for now cfg c
    by (rule step_join [where res = "snd (joinLocked now None cfg c)"]) simp
  have "ctl_reachable demo_ctl" unfolding demo_ctl_def by (rule ctl_init)
  then have "ctl_reachable (leaveStart ?c1)" using join step_leave by (meson ctl_next)
  then have "ctl_reachable (leaveFinish 3 0 (leaveStart ?c1))"
    by (rule ctl_next) (rule step_cancel, simp add: joinLocked_def leaveStart_def demo_ctl_def NewController_def Let_def)
  then have "ctl_reachable ?c2"
    by (rule ctl_next)
      (rule step_return, simp add: joinLocked_def leaveStart_def leaveFinish_def demo_ctl_def NewController_def Let_def)
  then have r3: "ctl_reachable ?c3" by (rule ctl_next) (rule join)
  have "1 \<in> ct_loops ?c3"
    using rejoined_state(1) by (simp add: rejoined_def Let_def)
  then have "ctl_step ?c3 rejoined" unfolding rejoined_def Let_def by (rule step_status)
  then show ?thesis by (rule ctl_next [OF r3])
qed

text \<open>C29. The reset of the status after a session is not tied to that session: there is an
  interleaving in which a second session is connected and the goroutine of the first one then
  turns the status to idle and forgets the addresses, although the second session goes on.\<close>

theorem stale_reset_race:
  "\<exists>c c'. ctl_reachable c \<and> ctl_step c c' \<and> ct_loops c = {1} \<and> st_state (ct_status c) = ''connected''
     \<and> ct_loops c' = {1} \<and> \<not> ctx_done c' 1 \<and> st_state (ct_status c') = ''idle'' \<and> st_ipv4 (ct_status c') = ''''"
proof -
  have "ctl_step rejoined (sessionOver 9 0 rejoined)" by (rule step_over) (simp add: rejoined_state)
  moreover have "ctx_done rejoined 0" by (simp add: ctx_done_def rejoined_state)
  ultimately show ?thesis
    using rejoined_reachable rejoined_state
    by (intro exI [of _ rejoined] exI [of _ "sessionOver 9 0 rejoined"])
      (simp add: sessionOver_def ctx_done_def endSession_def Let_def)
qed

end
