(* ===== verification/Webui.thy ===== *)
theory Webui
  imports Client_Controller Relay_Snapshot Logmem
begin

text \<open>
  The web page of both programs, \<^verbatim>\<open>src/internal/webui/server.go\<close>: routing, authentication,
  the guards on method and body, and the answers. A handler acts on a state of its program.
  Encoding an answer as JSON and serving the embedded files are left to the answer's value.
\<close>

section \<open>Requests, answers and handlers\<close>

record Request =
  rq_Method :: string
  rq_Path :: string
  rq_Authorization :: string
  rq_Body :: "bytes option"

datatype 'v Reply =
    JSON "'v option"
  | APIFailure int string
  | HTTPError int string
  | NotFound
  | Unauthorized
  | Index
  | AssetFile string
  | Redirect string

datatype handler_error = HAPI api_error | HOther string

type_synonym ('s, 'v) APIHandler = "bytes \<Rightarrow> 's \<Rightarrow> 's \<times> (handler_error + 'v option)"

record ('s, 'v) WebServer =
  ws_Token :: string
  ws_Snapshot :: "'s \<Rightarrow> 'v"
  ws_Devices :: "('s, 'v) APIHandler option"
  ws_Join :: "('s, 'v) APIHandler option"
  ws_Leave :: "('s, 'v) APIHandler option"
  ws_Logs :: "('s \<Rightarrow> 'v) option"
  ws_Capture :: "('s \<Rightarrow> 'v) option"
  ws_CaptureEnable :: "('s, 'v) APIHandler option"
  ws_CaptureDisable :: "('s, 'v) APIHandler option"

definition methodNotAllowed :: "'v Reply" where
  "methodNotAllowed = HTTPError 405 ''method not allowed''"

section \<open>Handlers\<close>

definition handleIndex :: "Request \<Rightarrow> 'v Reply" where
  "handleIndex r = (if rq_Path r \<noteq> ''/'' then NotFound else Index)"

definition handleAsset :: "Request \<Rightarrow> 'v Reply" where
  "handleAsset r =
     (if rq_Method r \<noteq> ''GET'' then methodNotAllowed
      else
        (let name = (if prefix ''/'' (rq_Path r) then drop 1 (rq_Path r) else rq_Path r) in
         if name = rq_Path r \<or> sublist ''..'' name then NotFound else AssetFile (''dist/'' @ name)))"

definition handleStatus :: "('s, 'v) WebServer \<Rightarrow> Request \<Rightarrow> 's \<Rightarrow> 'v Reply" where
  "handleStatus srv r s = (if rq_Method r \<noteq> ''GET'' then methodNotAllowed else JSON (Some (ws_Snapshot srv s)))"

definition handleView :: "('s \<Rightarrow> 'v) option \<Rightarrow> Request \<Rightarrow> 's \<Rightarrow> 'v Reply" where
  "handleView view r s =
     (case view of
        None \<Rightarrow> NotFound
      | Some f \<Rightarrow> if rq_Method r \<noteq> ''GET'' then methodNotAllowed else JSON (Some (f s)))"

definition writeAPIError :: "handler_error \<Rightarrow> 'v Reply" where
  "writeAPIError e =
     (case e of
        HAPI (APIError status message) \<Rightarrow> APIFailure (if status = 0 then 500 else status) message
      | HOther message \<Rightarrow> APIFailure 500 message)"

definition maxBody :: nat where "maxBody = 64 * 1024"

definition handleAPI :: "string \<Rightarrow> ('s, 'v) APIHandler option \<Rightarrow> Request \<Rightarrow> 's \<Rightarrow> 's \<times> 'v Reply" where
  "handleAPI meth handler r s =
     (case handler of
        None \<Rightarrow> (s, NotFound)
      | Some h \<Rightarrow>
          if rq_Method r \<noteq> meth then (s, methodNotAllowed)
          else
            (case rq_Body r of
               None \<Rightarrow> (s, HTTPError 413 ''request body too large'')
             | Some body \<Rightarrow>
                 if maxBody < length body then (s, HTTPError 413 ''request body too large'')
                 else
                   (case h body s of
                      (s1, Inl e) \<Rightarrow> (s1, writeAPIError e)
                    | (s1, Inr result) \<Rightarrow> (s1, JSON result))))"

definition withAuth :: "('s, 'v) WebServer \<Rightarrow> (Request \<Rightarrow> 's \<Rightarrow> 's \<times> 'v Reply) \<Rightarrow> Request \<Rightarrow> 's \<Rightarrow> 's \<times> 'v Reply" where
  "withAuth srv next_handler r s =
     (if ws_Token srv \<noteq> '''' \<and> rq_Authorization r \<noteq> ''Bearer '' @ ws_Token srv then (s, Unauthorized)
      else next_handler r s)"

section \<open>Routing (http.ServeMux)\<close>

text \<open>
  The multiplexer sends a request whose path is not clean to the clean one, and one for the
  subtree of the assets without the final slash to the subtree, before any handler runs.
\<close>

definition cleanPath :: "string \<Rightarrow> string" where
  "cleanPath p =
     (if p = '''' then ''/''
      else let p1 = (if hd p \<noteq> CHR ''/'' then CHR ''/'' # p else p); np = path_Clean p1
           in if last p1 = CHR ''/'' \<and> np \<noteq> ''/'' then np @ ''/'' else np)"

definition route :: "('s, 'v) WebServer \<Rightarrow> Request \<Rightarrow> 's \<Rightarrow> 's \<times> 'v Reply" where
  "route srv r s =
     (let p = rq_Path r; view = (\<lambda>f r s. (s, f r s)) in
      if p = ''/api/status'' then withAuth srv (view (handleStatus srv)) r s
      else if p = ''/api/devices'' then withAuth srv (handleAPI ''GET'' (ws_Devices srv)) r s
      else if p = ''/api/join'' then withAuth srv (handleAPI ''POST'' (ws_Join srv)) r s
      else if p = ''/api/leave'' then withAuth srv (handleAPI ''POST'' (ws_Leave srv)) r s
      else if p = ''/api/logs'' then withAuth srv (view (handleView (ws_Logs srv))) r s
      else if p = ''/api/capture'' then withAuth srv (view (handleView (ws_Capture srv))) r s
      else if p = ''/api/capture/enable'' then withAuth srv (handleAPI ''POST'' (ws_CaptureEnable srv)) r s
      else if p = ''/api/capture/disable'' then withAuth srv (handleAPI ''POST'' (ws_CaptureDisable srv)) r s
      else if prefix ''/assets/'' p then withAuth srv (view (\<lambda>r s. handleAsset r)) r s
      else withAuth srv (view (\<lambda>r s. handleIndex r)) r s)"

definition web_Handler :: "('s, 'v) WebServer \<Rightarrow> Request \<Rightarrow> 's \<Rightarrow> 's \<times> 'v Reply" where
  "web_Handler srv r s =
     (if rq_Method r \<noteq> ''CONNECT'' \<and> cleanPath (rq_Path r) \<noteq> rq_Path r then (s, Redirect (cleanPath (rq_Path r)))
      else if rq_Path r = ''/assets'' then (s, Redirect ''/assets/'')
      else route srv r s)"

section \<open>The pages of the two programs\<close>

datatype view_value =
    VClient ClientSnapshot | VServer ManagerSnapshot | VCapture CaptureSnapshot | VDevices "DeviceInfo list" | VLogs "Entry list"

definition captureEnableHandler :: "time \<Rightarrow> ('s \<Rightarrow> CaptureRecorder option) \<Rightarrow> (CaptureRecorder option \<Rightarrow> 's \<Rightarrow> 's) \<Rightarrow> ('s, view_value) APIHandler" where
  "captureEnableHandler now get put body s = (case Enable now (get s) of (c, snap) \<Rightarrow> (put c s, Inr (Some (VCapture snap))))"

definition captureDisableHandler :: "time \<Rightarrow> ('s \<Rightarrow> CaptureRecorder option) \<Rightarrow> (CaptureRecorder option \<Rightarrow> 's \<Rightarrow> 's) \<Rightarrow> ('s, view_value) APIHandler" where
  "captureDisableHandler now get put body s = (case Disable now (get s) of (c, snap) \<Rightarrow> (put c s, Inr (Some (VCapture snap))))"

text \<open>
  The client: its state is the controller with the capture. \<^verbatim>\<open>Leave\<close> is both of its steps, as
  they happen when nothing comes in between.
\<close>

type_synonym client_state = "Controller \<times> CaptureRecorder option"

definition Controller_Leave :: "time \<Rightarrow> Controller \<Rightarrow> Controller \<times> ClientSnapshot" where
  "Controller_Leave now c =
     (case ct_current c of
        None \<Rightarrow> (c, Status_Snapshot now (ct_status c))
      | Some n \<Rightarrow> (let c1 = leaveFinish now n (leaveStart c) in (c1, Status_Snapshot now (ct_status c1))))"

definition Controller_Devices :: "DeviceInfo list \<times> string option \<Rightarrow> string + DeviceInfo list" where
  "Controller_Devices found = (case found of (devices, Some e) \<Rightarrow> Inl e | (devices, None) \<Rightarrow> Inr devices)"

definition clientWeb ::
  "os \<Rightarrow> (bytes \<Rightarrow> string + JoinRequest) \<Rightarrow> (Config \<Rightarrow> string option) \<Rightarrow> DeviceInfo list \<times> string option \<Rightarrow> time \<Rightarrow> string
     \<Rightarrow> (LogRecorder option) \<Rightarrow> (client_state, view_value) WebServer" where
  "clientWeb os dec save devices now token logs =
     \<lparr>ws_Token = token,
      ws_Snapshot = (\<lambda>(c, cap). VClient (Status_Snapshot now (ct_status c))),
      ws_Devices = Some (\<lambda>body s. (s, case Controller_Devices devices of Inl e \<Rightarrow> Inl (HOther e) | Inr ds \<Rightarrow> Inr (Some (VDevices ds)))),
      ws_Join = Some (\<lambda>body (c, cap). case Controller_Join os dec save now body c of
                   (c1, Inl e) \<Rightarrow> ((c1, cap), Inl (HAPI e)) | (c1, Inr snap) \<Rightarrow> ((c1, cap), Inr (Some (VClient snap)))),
      ws_Leave = Some (\<lambda>body (c, cap). case Controller_Leave now c of (c1, snap) \<Rightarrow> ((c1, cap), Inr (Some (VClient snap)))),
      ws_Logs = map_option (\<lambda>l s. VLogs (log_Snapshot l)) logs,
      ws_Capture = Some (\<lambda>(c, cap). VCapture (Recorder_Snapshot now cap)),
      ws_CaptureEnable = Some (captureEnableHandler now snd (\<lambda>cap (c, _). (c, cap))),
      ws_CaptureDisable = Some (captureDisableHandler now snd (\<lambda>cap (c, _). (c, cap)))\<rparr>"

section \<open>What a request can do\<close>

definition api_table :: "('s, 'v) WebServer \<Rightarrow> (string \<times> string \<times> ('s, 'v) APIHandler option) list" where
  "api_table srv =
     [(''/api/devices'', ''GET'', ws_Devices srv), (''/api/join'', ''POST'', ws_Join srv), (''/api/leave'', ''POST'', ws_Leave srv),
      (''/api/capture/enable'', ''POST'', ws_CaptureEnable srv), (''/api/capture/disable'', ''POST'', ws_CaptureDisable srv)]"

definition handled :: "('s, 'v) WebServer \<Rightarrow> Request \<Rightarrow> 's \<Rightarrow> 's \<Rightarrow> bool" where
  "handled srv r s s' \<longleftrightarrow>
     (\<exists>h body. (rq_Path r, rq_Method r, Some h) \<in> set (api_table srv) \<and> rq_Body r = Some body \<and> length body \<le> maxBody
        \<and> s' = fst (h body s))"

lemma handleAPI_handled:
  assumes "(rq_Path r, meth, h) \<in> set (api_table srv)"
  shows "fst (handleAPI meth h r s) = s \<or> handled srv r s (fst (handleAPI meth h r s))"
  using assms by (auto simp: handleAPI_def handled_def split: option.splits if_splits prod.splits sum.splits)

lemma withAuth_cases:
  "withAuth srv f r s = (s, Unauthorized) \<or> withAuth srv f r s = f r s \<and> (ws_Token srv = '''' \<or> rq_Authorization r = ''Bearer '' @ ws_Token srv)"
  by (simp add: withAuth_def)

lemma route_shape:
  obtains (view) "fst (route srv r s) = s"
  | (api) meth h where "(rq_Path r, meth, h) \<in> set (api_table srv)" and "route srv r s = withAuth srv (handleAPI meth h) r s"
proof (cases "rq_Path r \<in> fst ` set (api_table srv)")
  case True
  then obtain meth h where m: "(rq_Path r, meth, h) \<in> set (api_table srv)" by force
  then have "route srv r s = withAuth srv (handleAPI meth h) r s" by (auto simp: api_table_def route_def Let_def)
  then show thesis using api m by blast
next
  case False
  then have "fst (route srv r s) = s" by (auto simp: route_def api_table_def withAuth_def Let_def)
  then show thesis by (rule view)
qed

lemma route_handled:
  assumes "route srv r s = (s', rep)"
  shows "s' = s \<or> handled srv r s s' \<and> (ws_Token srv = '''' \<or> rq_Authorization r = ''Bearer '' @ ws_Token srv)"
proof -
  have that_api: "fst (withAuth srv (handleAPI meth h) r s) = s
      \<or> handled srv r s (fst (withAuth srv (handleAPI meth h) r s)) \<and> (ws_Token srv = '''' \<or> rq_Authorization r = ''Bearer '' @ ws_Token srv)"
    if "(rq_Path r, meth, h) \<in> set (api_table srv)" for meth h
    using withAuth_cases [of srv "handleAPI meth h" r s] handleAPI_handled [OF that, of s] by auto
  show ?thesis
  proof (cases rule: route_shape [of srv r s])
    case view
    then show ?thesis using assms by simp
  next
    case (api meth h)
    then have "s' = fst (withAuth srv (handleAPI meth h) r s)" using assms by (metis fst_conv)
    then show ?thesis using that_api [OF api(1)] by simp
  qed
qed

lemma route_unauthorized:
  "ws_Token srv \<noteq> '''' \<Longrightarrow> rq_Authorization r \<noteq> ''Bearer '' @ ws_Token srv \<Longrightarrow> route srv r s = (s, Unauthorized)"
  by (simp add: route_def withAuth_def Let_def)

lemma route_asset:
  assumes "route srv r s = (s', AssetFile f)"
  shows "\<exists>name. f = ''dist/'' @ name \<and> prefix ''assets/'' name \<and> \<not> sublist ''..'' name"
proof -
  have api: "snd (handleAPI meth h r s) \<noteq> AssetFile f" for meth and h :: "('a, 'b) APIHandler option"
    by (auto simp: handleAPI_def methodNotAllowed_def writeAPIError_def split: option.splits prod.splits sum.splits handler_error.splits api_error.splits)
  have "snd (route srv r s) = AssetFile f" using assms by simp
  then have p: "prefix ''/assets/'' (rq_Path r)" and h: "handleAsset r = (AssetFile f :: 'b Reply)"
    using api by (auto simp: route_def withAuth_def Let_def handleStatus_def handleView_def handleIndex_def methodNotAllowed_def
        split: if_splits option.splits)
  obtain rest where "rq_Path r = ''/assets/'' @ rest" using p by (auto simp: prefix_def)
  then show ?thesis using h by (auto simp: handleAsset_def methodNotAllowed_def Let_def split: if_splits)
qed

text \<open>C38. The web page guards what it can do. With a token set, a request that does not carry
  exactly that token changes nothing and is told nothing but unauthorized, or where the clean
  path is. A request changes the state only through one of the registered actions, with that
  action's method and a body of at most 64 KiB, and then exactly as that action says. A file
  that is served lies below the embedded assets, and its name leads nowhere else.\<close>

theorem web_guarded:
  assumes "web_Handler srv r s = (s', rep)"
  shows "(ws_Token srv \<noteq> '''' \<and> rq_Authorization r \<noteq> ''Bearer '' @ ws_Token srv \<longrightarrow>
            s' = s \<and> (rep = Unauthorized \<or> (\<exists>u. rep = Redirect u)))
    \<and> (s' \<noteq> s \<longrightarrow> (\<exists>h body. (rq_Path r, rq_Method r, Some h) \<in> set (api_table srv) \<and> rq_Body r = Some body
            \<and> length body \<le> 65536 \<and> s' = fst (h body s)))
    \<and> (\<forall>f. rep = AssetFile f \<longrightarrow> (\<exists>name. f = ''dist/'' @ name \<and> prefix ''assets/'' name \<and> \<not> sublist ''..'' name))"
proof (cases "web_Handler srv r s = route srv r s")
  case True
  then have run: "route srv r s = (s', rep)" using assms by simp
  then show ?thesis
    using route_handled [OF run] route_unauthorized [of srv r s] route_asset [of srv r s s']
    by (auto simp: handled_def maxBody_def)
next
  case False
  then have "s' = s \<and> (\<exists>u. rep = Redirect u)" using assms by (auto simp: web_Handler_def split: if_splits)
  then show ?thesis by auto
qed

definition demo_web :: "(client_state, view_value) WebServer" where
  "demo_web = clientWeb Linux (\<lambda>bs. Inl '''') (\<lambda>cfg. None) ([], None) 1 ''secret'' None"

definition demo_request :: Request where
  "demo_request = \<lparr>rq_Method = ''POST'', rq_Path = ''/api/leave'', rq_Authorization = ''Bearer guess'', rq_Body = Some []\<rparr>"

theorem web_guarded_witness:
  "\<exists>rep. web_Handler demo_web demo_request (demo_ctl, None) = ((demo_ctl, None), rep) \<and> (rep = Unauthorized \<or> (\<exists>u. rep = Redirect u))"
proof -
  obtain s' rep where run: "web_Handler demo_web demo_request (demo_ctl, None) = (s', rep)" by fastforce
  have "ws_Token demo_web \<noteq> ''''" "rq_Authorization demo_request \<noteq> ''Bearer '' @ ws_Token demo_web"
    by (simp_all add: demo_web_def clientWeb_def demo_request_def)
  then show ?thesis using web_guarded [OF run] run by auto
qed

end
