(* ===== verification/System.thy ===== *)
theory System
  imports Control_Traffic Client_Loops_Props Webui
begin

text \<open>
  Both ends together: the lemmas from which the properties of the whole system follow. A stream
  between client and server is what one side has written since and the other side reads.
\<close>

section \<open>Frames\<close>

lemma sendFrame_written:
  assumes "writable (TypeEthernetFrame, frame)"
  shows "\<exists>lk'. sendFrame buf_Write now meta frame lk = Some (lk', None)
    \<and> lk_stream lk' = lk_stream lk @ frame_bytes (TypeEthernetFrame, frame)
    \<and> lk_status lk' = recordTx (length frame) (lk_status lk) \<and> lk_device lk' = lk_device lk"
proof -
  obtain c where "Record now (meta\<lparr>md_Direction := ''tx''\<rparr>) frame (lk_capture lk) = Some c" using Record_total by blast
  then show ?thesis using assms by (simp add: sendFrame_def recordLink_def WriteMessage_buf)
qed

lemma frame_readable: "length frame \<le> MaxFrameSize \<Longrightarrow> writable (TypeEthernetFrame, frame) \<and> readable (int MaxFrameSize) (TypeEthernetFrame, frame)"
  by (simp add: writable_def readable_def Valid_def message_type_defs size_defs)

text \<open>One frame on the data stream, and then its end.\<close>

lemma writeTAP_one:
  assumes "length frame \<le> MaxFrameSize"
  shows "\<exists>lk'. writeTAP buf_Write meta clock \<lparr>rd_data = frame_bytes (TypeEthernetFrame, frame), rd_end = e\<rparr> lk
      = Some (lk', Some (LProto (ErrIO e))) \<and> lk_device lk' = lk_device lk @ frame
    \<and> lk_status lk' = recordRx (length frame) (lk_status lk)"
proof -
  obtain lk' where d: "deliver buf_Write (clock 0) meta frame frame lk = Some (lk', None)" "lk_device lk' = lk_device lk @ frame"
    "lk_status lk' = recordRx (length frame) (lk_status lk)"
    using deliver_written by blast
  have rm: "ReadMessage \<lparr>rd_data = frame_bytes (TypeEthernetFrame, frame), rd_end = e\<rparr> (int MaxFrameSize)
      = (\<lparr>rd_data = [], rd_end = e\<rparr>, Inr (TypeEthernetFrame, frame))"
    using ReadMessage_frame [of "int MaxFrameSize" "(TypeEthernetFrame, frame)" "[]" e] frame_readable [OF assms] by simp
  have "readFrames (tapMessage buf_Write meta) clock 0 \<lparr>rd_data = frame_bytes (TypeEthernetFrame, frame), rd_end = e\<rparr> lk
      = readFrames (tapMessage buf_Write meta) clock (Suc 0) \<lparr>rd_data = [], rd_end = e\<rparr> lk'"
    by (subst readFrames.simps) (simp add: rm tapMessage_def d(1))
  also have "\<dots> = Some (lk', Some (LProto (ErrIO e)))"
    by (subst readFrames.simps) (simp add: ReadMessage_def ReadFull_def)
  finally show ?thesis using d by (simp add: writeTAP_def)
qed

lemma target_of:
  assumes "store_inv s" and "k < length (roomHeap s)" and "p \<in> live (roomHeap s ! k)" and "q \<in> live (roomHeap s ! k)" and "q \<noteq> p"
    and "14 \<le> length frame" and "take 6 (drop 6 frame) = p_MAC (peerHeap s ! p)"
    and "take 6 frame = p_MAC (peerHeap s ! q) \<or> isBroadcast (take 6 frame) \<or> isMulticast (take 6 frame)"
  obtains ts where "Forward k p frame s = Some (s, Inr ts)" and "q \<in> frameTargets (Inr ts)"
  using Forward_delivery [OF assms(1-3,6,7)] assms(4,5,8) by (auto simp: frameTargets_def Let_def split: if_splits)

lemma frame_out:
  assumes "ss_store st = s" and "ss_writer st" and "chan_buf (p_Frames (peerHeap s ! q)) = [frame]" and "length frame \<le> MaxFrameSize"
  shows "\<exists>st'. sessionEvent cd wr buf_Write q EvFrameOut st = Running st'
    \<and> ss_data st' = ss_data st @ frame_bytes (TypeEthernetFrame, frame) \<and> ss_control st' = ss_control st"
  using assms frame_readable [OF assms(4)] by (simp add: sessionEvent_def Let_def WriteMessage_buf)

section \<open>Trimmed names\<close>

lemma trim_left_fix: "strip_rune rs s = None \<Longrightarrow> trim_left rs s = s"
  by (subst trim_left.simps) simp

lemma trim_left_spec:
  assumes "\<forall>r \<in> set rs. r \<noteq> []"
  shows "strip_rune rs (trim_left rs s) = None \<and> suffix (trim_left rs s) s"
proof (induction "length s" arbitrary: s rule: less_induct)
  case less
  show ?case
  proof (cases "strip_rune rs s")
    case None
    then show ?thesis using trim_left_fix by simp
  next
    case (Some t)
    then have "length t < length s" "suffix t s"
      using strip_rune_shorter [OF assms Some] by (auto simp: strip_rune_def suffix_drop split: option.splits)
    then show ?thesis using less [of t] Some assms by (subst (1 2) trim_left.simps) (auto intro: suffix_order.trans)
  qed
qed

lemma strip_rune_prefix: "strip_rune rs s = None \<Longrightarrow> prefix t s \<Longrightarrow> strip_rune rs t = None"
  by (auto simp: strip_rune_def find_None_iff split: option.splits)

lemma TrimSpace_idem: "TrimSpace (TrimSpace s) = TrimSpace s"
proof -
  let ?u = "trim_left space_runes s" and ?R = "map rev space_runes"
  let ?v = "trim_left ?R (rev ?u)"
  have ne: "\<forall>r \<in> set ?R. r \<noteq> []" using space_runes_nonempty by auto
  have u: "strip_rune space_runes ?u = None" using trim_left_spec [OF space_runes_nonempty] by blast
  have v: "strip_rune ?R ?v = None" "suffix ?v (rev ?u)" using trim_left_spec [OF ne] by blast+
  then have "prefix (rev ?v) ?u" by (simp add: suffix_to_prefix)
  then have "strip_rune space_runes (rev ?v) = None" by (rule strip_rune_prefix [OF u])
  then have "trim_left space_runes (rev ?v) = rev ?v" by (rule trim_left_fix)
  then show ?thesis using trim_left_fix [OF v(1)] by (simp add: TrimSpace_def)
qed

lemma normalizeConfig_room: "normalizeConfig os raw = Inr cfg \<Longrightarrow> TrimSpace (cfg_Room cfg) = cfg_Room cfg \<and> cfg_Room cfg \<noteq> ''''"
  by (auto simp: normalizeConfig_def Let_def TrimSpace_idem split: if_splits)

section \<open>Joining\<close>

lemma readAnswer_accept:
  assumes "sendable (cd_JoinAccept cd) a"
  shows "\<exists>w. WriteJSON (fst (cd_JoinAccept cd)) buf_Write [] TypeJoinAccept a = (w, None)
    \<and> readAnswer cd \<lparr>rd_data = w @ rest, rd_end = e\<rparr> = (\<lparr>rd_data = rest, rd_end = e\<rparr>, Inr a)"
proof -
  have v: "Valid TypeJoinAccept" "TypeJoinAccept \<noteq> TypeEthernetFrame" "TypeJoinAccept \<noteq> TypeJoinReject"
    by (simp_all add: Valid_def message_type_defs)
  obtain bs where bs: "fst (cd_JoinAccept cd) a = Inr bs" "snd (cd_JoinAccept cd) bs = Inr a" "length bs \<le> MaxControlSize"
    "readable (int MaxControlSize) (TypeJoinAccept, bs)"
    using MarshalMessage_sendable [OF assms v(1,2)] by blast
  then have "writable (TypeJoinAccept, bs)" using v by (simp add: writable_def)
  then have "WriteJSON (fst (cd_JoinAccept cd)) buf_Write [] TypeJoinAccept a = (frame_bytes (TypeJoinAccept, bs), None)"
    by (simp add: WriteJSON_def bs(1) WriteMessage_buf)
  then show ?thesis
    using ReadMessage_frame [OF bs(4), of rest e] bs(2) v(3) by (auto simp: readAnswer_def)
qed

lemma ParseCIDR_masked: "ParseCIDR c = Some (ip, n) \<Longrightarrow> net_IP n = IP_Mask ip (net_Mask n)"
  by (auto simp: ParseCIDR_def Let_def split: option.splits if_splits)

lemma byte_and_or: "(x :: byte) AND 255 = x" "x AND 0 = 0" "NOT (255 :: byte) = 0" "NOT (0 :: byte) = 255"
proof -
  have "(255 :: byte) = - 1" by simp
  then show "x AND 255 = x" by (simp only: and.right_neutral)
qed simp_all

text \<open>What the client derives from the CIDR of the accept message.\<close>

lemma cidr_texts:
  assumes "ParseCIDR c = Some (As16 (Addr4 w), \<lparr>net_IP = b, net_Mask = [255, 255, 255, 0]\<rparr>)"
  shows "IPv4AndMask c = Inr (string4 w, ''255.255.255.0'')" and "broadcastIPv4 c = Some (take 3 (PutUint32 w) @ [255])"
proof -
  have t4: "To4 (As16 (Addr4 w)) = PutUint32 w" by (simp add: As16_def To4_mapped)
  have m: "IP_String [255, 255, 255, 0] = ''255.255.255.0''" by code_simp
  show "IPv4AndMask c = Inr (string4 w, ''255.255.255.0'')"
    using assms by (simp add: IPv4AndMask_def t4 IP_String_4 m Let_def) (simp add: PutUint32_def)
  have "b = IP_Mask (As16 (Addr4 w)) [255, 255, 255, 0]" using ParseCIDR_masked [OF assms] by simp
  then have "b = map2 (AND) (PutUint32 w) [255, 255, 255, 0]" by (simp add: IP_Mask_def As16_def v4InV6Prefix_def)
  then have b: "b = take 3 (PutUint32 w) @ [0]" by (simp add: PutUint32_def byte_and_or)
  have u: "[0..<4] = [0, 1, 2, 3 :: nat]" by code_simp
  obtain x y z v where w: "PutUint32 w = [x, y, z, v]" by (simp add: PutUint32_def)
  have "(- 256 :: byte) = 0" by simp
  then have "i OR (- 256) = i" for i :: byte by (simp only: or.right_neutral)
  then show "broadcastIPv4 c = Some (take 3 (PutUint32 w) @ [255])"
    using assms w b by (simp add: broadcastIPv4_eq To4_def u)
qed


lemma startLayer_assigned:
  assumes "ParseMAC (ja_MAC a) = Some mac" and "ja_IPv4 a = string4 w"
  shows "startLayer LayerIP a = Inr (StartTUN mac (PutUint32 w))"
  using assms by (simp add: startLayer_def ParseIP_string4) (simp add: PutUint32_def)

lemma joined_status_tells [simp]:
  "st_state (joined_status now a status) = ''connected''" "st_peerID (joined_status now a status) = ja_PeerID a"
  "st_ipv4 (joined_status now a status) = ja_IPv4 a" "st_cidr (joined_status now a status) = ja_CIDR a" "st_peers (joined_status now a status) = ja_Peers a"
  by (simp_all add: joined_status_def keepLatencyPeersLocked_def Let_def)

lemma live_ip4:
  assumes "store_inv s" and "k < length (roomHeap s)" and "p \<in> live (roomHeap s ! k)"
  shows "\<exists>x. p_IP (peerHeap s ! p) = Addr4 x"
proof -
  have "p_IP (peerHeap s ! p) = Addr4 (room_base (roomHeap s ! k) + ucast (peer_host (peerHeap s ! p)))"
    using store_room_inv [OF assms(1,2)] assms(3) by (auto simp: room_inv_def peer_ok_def)
  then show ?thesis ..
qed

lemma openSession_writes:
  assumes "openSession cd wr dwr opened h join p w d0 s = Running st"
    and "WriteJSON (fst (cd_JoinAccept cd)) wr w TypeJoinAccept (buildAccept h join p s) = (w1, None)"
  shows "ss_control st = w1"
  using assms by (auto simp: openSession_def Let_def split: prod.splits option.splits sum.splits)

text \<open>The whole conversation, as the client reads it.\<close>

lemma join_told:
  assumes "store_inv s" and "unused_draw d s" and "normalizeConfig os raw = Inr cfg"
    and "sendable (cd_JoinRoom cd) (clientJoin cfg mac nonce)"
    and "WriteJSON (fst (cd_JoinRoom cd)) buf_Write [] TypeJoinRoom (clientJoin cfg mac nonce) = (w, None)"
    and "handleJoin cd rt (d # ds) \<lparr>rd_data = w, rd_end = e\<rparr> s = (s', Some (Joined p join))"
    and "sendable (cd_JoinAccept cd) (buildAccept h join p s')"
    and "openSession cd buf_Write dwr opened h join p [] d0 s' = Running st"
  shows "\<exists>room a. Manager_Room (cfg_Room cfg) s' = Some room \<and> p \<in> live (roomHeap s' ! room)
    \<and> readAnswer cd \<lparr>rd_data = ss_control st, rd_end = e\<rparr> = (\<lparr>rd_data = [], rd_end = e\<rparr>, Inr a)
    \<and> ja_PeerID a = p_ID (peerHeap s' ! p) \<and> ParseAddr (ja_IPv4 a) = Some (p_IP (peerHeap s' ! p))
    \<and> pi_ID ` set (ja_Peers a) = (\<lambda>q. p_ID (peerHeap s' ! q)) ` live (roomHeap s' ! room)
    \<and> startLayer LayerIP a = Inr (StartTUN (p_MAC (peerHeap s' ! p)) (As4 (p_IP (peerHeap s' ! p))))
    \<and> IPv4AndMask (ja_CIDR a) = Inr (ja_IPv4 a, ''255.255.255.0'')
    \<and> broadcastIPv4 (ja_CIDR a) = Some (take 3 (As4 (p_IP (peerHeap s' ! p))) @ [255])"
proof -
  let ?jr = "clientJoin cfg mac nonce" and ?q = "peerHeap s' ! p"
  define a where "a = buildAccept h join p s'"
  have v: "Valid TypeJoinRoom" "TypeJoinRoom \<noteq> TypeEthernetFrame" by (simp_all add: Valid_def message_type_defs)
  have "ReadJSON (snd (cd_JoinRoom cd)) \<lparr>rd_data = w, rd_end = e\<rparr> TypeJoinRoom (int MaxControlSize)
      = (\<lparr>rd_data = [], rd_end = e\<rparr>, Inr ?jr)"
    using ReadJSON_WriteJSON [OF assms(4) v assms(5), of "[]" e] by simp
  moreover have "?jr\<lparr>jr_Room := TrimSpace (jr_Room ?jr)\<rparr> = ?jr"
    using normalizeConfig_room [OF assms(3)] by (simp add: clientJoin_def)
  ultimately have "admitJoin rt (d # ds) ?jr s = (s', Some (Joined p join))" using assms(6) by (simp add: handleJoin_def)
  then have "join = ?jr"
    by (auto simp: admitJoin_def split: prod.splits sum.splits if_splits option.splits simp del: Manager_Join.simps)
  then have room: "jr_Room join = cfg_Room cfg" by (simp add: clientJoin_def)
  obtain opts where mj: "fresh_join (cfg_Room cfg) opts d s" "Manager_Join (cfg_Room cfg) opts (d # ds) s = (s', Some (Inr p))"
    using handleJoin_joined [OF assms(1,2,6)] room by metis
  note J = Manager_Join_joined(1-5) [OF assms(1) mj]
  note A = buildAccept_facts [OF J(1,4,5) a_def]
  obtain x where ip: "p_IP ?q = Addr4 x" using live_ip4 [OF J(1,4,5)] by blast
  then have tx: "ja_IPv4 a = string4 x" "ja_PeerID a = p_ID ?q" by (simp_all add: Addr_String_def a_def buildAccept_def Let_def)
  have "readAnswer cd \<lparr>rd_data = ss_control st, rd_end = e\<rparr> = (\<lparr>rd_data = [], rd_end = e\<rparr>, Inr a)"
    using readAnswer_accept [OF assms(7), of "[]" e] openSession_writes [OF assms(8)] by (auto simp: a_def)
  moreover have "startLayer LayerIP a = Inr (StartTUN (p_MAC ?q) (As4 (p_IP ?q)))"
    using startLayer_assigned [OF _ tx(1)] A ip by simp
  moreover have "IPv4AndMask (ja_CIDR a) = Inr (ja_IPv4 a, ''255.255.255.0'')"
    and "broadcastIPv4 (ja_CIDR a) = Some (take 3 (As4 (p_IP ?q)) @ [255])"
    using cidr_texts [of "ja_CIDR a" x] A ip tx(1) by simp_all
  ultimately show ?thesis
    by (intro exI [of _ "p_Room ?q"] exI [of _ a]) (use J(3,5) A tx(2) in simp)
qed

text \<open>What the client writes does not depend on the answer; with an accept message it goes on to the set-up.\<close>

lemma startSessionConn_request:
  assumes "env_dial env = None" and "openAdvertised os env cfg = Inr (device, mac)" and "env_openStream env = None"
    and "nonceHex (env_nonce env) = Some nonce"
    and "WriteJSON (fst (cd_JoinRoom cd)) wr w TypeJoinRoom (clientJoin cfg mac nonce) = (w1, None)"
    and "startSessionConn os cd env cfgText now wr cfg r w sys s = (s', w', sys', res)"
  shows "w' = w1" and "readAnswer cd r = (r1, Inr a) \<Longrightarrow> s' = joined_status now a s \<and> setUpSession os env cfgText cfg device a sys = (sys', res)"
  using assms by (auto simp: startSessionConn_def split: prod.splits sum.splits)

lemma setUpSession_tun: "setUpSession os env cfgText cfg device a sys = (sys', Inr (StartTUN m i)) \<Longrightarrow> startLayer LayerIP a = Inr (StartTUN m i)"
  by (auto simp: setUpSession_def startLayer_def split: sum.splits prod.splits option.splits if_splits)

section \<open>The adapter\<close>

text \<open>The commands that are run, written down in order with their results.\<close>

type_synonym command_log = "(string list \<times> (string \<times> string) option) list"

definition logged :: "'s exec \<Rightarrow> ('s \<times> command_log) exec" where
  "logged exec sl args = (case exec (fst sl) args of (s1, r) \<Rightarrow> ((s1, snd sl @ [(args, r)]), r))"

lemma logged_step: "exec s args = (s1, r) \<Longrightarrow> logged exec (s, l) args = ((s1, l @ [(args, r)]), r)"
  by (simp add: logged_def)

text \<open>
  Fail-stop, as a statement about such a log: every command in it that failed either failed in
  the way that is tolerated, or is the last one and is what is reported.
\<close>

definition fail_stop :: "(nat \<Rightarrow> string \<Rightarrow> bool) \<Rightarrow> command_log \<Rightarrow> config_error option \<Rightarrow> bool" where
  "fail_stop tolerate tr res \<longleftrightarrow>
     (\<forall>n cmd e out. n < length tr \<and> tr ! n = (cmd, Some (e, out)) \<and> \<not> tolerate n out \<longrightarrow>
        Suc n = length tr \<and> res = Some (ErrCommand cmd e out))
     \<and> (\<forall>err. res = Some err \<longrightarrow>
         (\<exists>cmd e out. tr \<noteq> [] \<and> last tr = (cmd, Some (e, out)) \<and> err = ErrCommand cmd e out \<and> \<not> tolerate (length tr - 1) out))"

lemma fail_stop_Nil: "fail_stop tolerate [] None"
  by (simp add: fail_stop_def)

lemma fail_stop_failed: "\<not> tolerate 0 out \<Longrightarrow> fail_stop tolerate [(args, Some (e, out))] (Some (ErrCommand args e out))"
  by (auto simp: fail_stop_def)

lemma fail_stop_Cons:
  assumes "fail_stop (\<lambda>i. tolerate (Suc i)) tr res" and "r = None \<or> (\<exists>e out. r = Some (e, out) \<and> tolerate 0 out)"
  shows "fail_stop tolerate ((args, r) # tr) res"
proof -
  have "Suc n = length ((args, r) # tr) \<and> res = Some (ErrCommand cmd e out)"
    if "n < length ((args, r) # tr)" "((args, r) # tr) ! n = (cmd, Some (e, out))" "\<not> tolerate n out" for n cmd e out
    using that assms by (cases n) (auto simp: fail_stop_def)
  moreover have "\<exists>cmd e out. (args, r) # tr \<noteq> [] \<and> last ((args, r) # tr) = (cmd, Some (e, out))
      \<and> err = ErrCommand cmd e out \<and> \<not> tolerate (length ((args, r) # tr) - 1) out" if some: "res = Some err" for err
  proof -
    obtain cmd e out where l: "tr \<noteq> []" "last tr = (cmd, Some (e, out))" "err = ErrCommand cmd e out"
      "\<not> tolerate (Suc (length tr - 1)) out"
      using assms(1) some unfolding fail_stop_def by blast
    then have "Suc (length tr - 1) = length ((args, r) # tr) - 1" by (cases tr) auto
    then show ?thesis using l by auto
  qed
  ultimately show ?thesis unfolding fail_stop_def by blast
qed

lemma runCommands_trace:
  assumes "runCommands tolerate (logged exec) i cmds (s, l0) = ((s', l), res)"
  shows "\<exists>tr. l = l0 @ tr \<and> prefix (map fst tr) cmds \<and> (res = None \<longrightarrow> map fst tr = cmds)
    \<and> fail_stop (\<lambda>n. tolerate (i + n)) tr res"
  using assms
proof (induction cmds arbitrary: i s l0)
  case (Cons args cmds)
  obtain s1 r where x: "exec s args = (s1, r)" by fastforce
  show ?case
  proof (cases "r = None \<or> (\<exists>e out. r = Some (e, out) \<and> tolerate i out)")
    case True
    then have "runCommands tolerate (logged exec) (Suc i) cmds (s1, l0 @ [(args, r)]) = ((s', l), res)"
      using Cons.prems logged_step [of exec, OF x] by auto
    from Cons.IH [OF this] obtain tr where tr: "l = l0 @ (args, r) # tr" "prefix (map fst tr) cmds"
      "res = None \<longrightarrow> map fst tr = cmds" "fail_stop (\<lambda>n. tolerate (Suc i + n)) tr res" by auto
    have "fail_stop (\<lambda>n. tolerate (i + n)) ((args, r) # tr) res"
      using tr(4) True by (intro fail_stop_Cons) simp_all
    then show ?thesis using tr(1-3) by (intro exI [of _ "(args, r) # tr"]) simp
  next
    case False
    then obtain e out where r: "r = Some (e, out)" "\<not> tolerate i out" by (cases r) auto
    then have "l = l0 @ [(args, r)]" "res = Some (ErrCommand args e out)" using Cons.prems logged_step [of exec, OF x] by auto
    then show ?thesis
      using r fail_stop_failed [of "\<lambda>n. tolerate (i + n)"] by (intro exI [of _ "[(args, r)]"]) simp
  qed
qed (simp add: fail_stop_Nil)

text \<open>The commands that set up an adapter with an address and a mask.\<close>

definition adapterCommands :: "os \<Rightarrow> string \<Rightarrow> string \<Rightarrow> string \<Rightarrow> string \<Rightarrow> string \<Rightarrow> string \<Rightarrow> bool \<Rightarrow> string list list" where
  "adapterCommands os name mac cidr ip nm mtu prioritize =
     (case os of
        Linux \<Rightarrow>
          [[''ip'', ''link'', ''set'', ''dev'', name, ''address'', mac], [''ip'', ''link'', ''set'', ''dev'', name, ''mtu'', mtu],
           [''ip'', ''addr'', ''add'', cidr, ''dev'', name], [''ip'', ''link'', ''set'', ''dev'', name, ''up'']]
      | Darwin \<Rightarrow>
          [[''ifconfig'', name, ''inet'', ip, ip, ''netmask'', nm, ''mtu'', mtu, ''up''],
           [''route'', ''add'', ''-net'', networkCIDR cidr, ''-interface'', name]]
          @ (if prioritize then [[''ifconfig'', name, ''metric'', ''1'']] else [])
      | Windows \<Rightarrow>
          [[''netsh'', ''interface'', ''ip'', ''set'', ''address'', name, ''static'', ip, nm],
           [''netsh'', ''interface'', ''ipv4'', ''set'', ''subinterface'', name, ''mtu='' @ mtu, ''store=active'']]
          @ (if prioritize then [[''netsh'', ''interface'', ''ipv4'', ''set'', ''interface'', name, ''metric=1'', ''store=active'']] else [])
      | OtherOS \<Rightarrow> [])"

text \<open>The only failure that does not stop it: on macOS the route of the second command is there already.\<close>

definition route_exists :: "os \<Rightarrow> nat \<Rightarrow> string \<Rightarrow> bool" where
  "route_exists os n out \<longleftrightarrow> os = Darwin \<and> n = 1 \<and> sublist ''File exists'' out"

lemma Configure_commands:
  assumes "ParseCIDR c = Some (As16 (Addr4 w), \<lparr>net_IP = b, net_Mask = [255, 255, 255, 0]\<rparr>)" and "os \<noteq> OtherOS"
  shows "Configure os exec name mac c mtu prioritize s =
    runCommands (route_exists os) exec 0 (adapterCommands os name mac c (string4 w) ''255.255.255.0'' (Itoa mtu) prioritize) s"
proof -
  have none: "route_exists Linux = (\<lambda>i output. False)" "route_exists Windows = (\<lambda>i output. False)"
    "route_exists Darwin = (\<lambda>i output. i = 1 \<and> sublist ''File exists'' output)"
    by (simp_all add: route_exists_def fun_eq_iff)
  show ?thesis
    using assms(2) by (cases os) (simp_all add: Configure_def configureLinux_def configureDarwin_def configureWindows_def
      cidr_texts(1) [OF assms(1)] adapterCommands_def none del: runCommands.simps)
qed

text \<open>C36. Setting up the adapter is fail-stop. With a CIDR as the server assigns it, the commands
  of the operating system are run in order, with the assigned address and the mask of the
  room's /24. A command that fails is the last one that is run, and its error is reported; the
  one exception is that on macOS the route may be there already, which the second command
  reports. If no error is reported, every command was run, each one succeeded but for that
  exception, and the one that gives the adapter its address succeeded in any case.\<close>

theorem adapter_configured:
  assumes "ParseCIDR c = Some (As16 (Addr4 w), \<lparr>net_IP = b, net_Mask = [255, 255, 255, 0]\<rparr>)" and "os \<noteq> OtherOS"
    and "Configure os (logged exec) name mac c mtu prioritize (s, []) = ((s', tr), res)"
    and "cmds = adapterCommands os name mac c (string4 w) ''255.255.255.0'' (Itoa mtu) prioritize"
  shows "prefix (map fst tr) cmds
    \<and> (\<forall>n cmd e out. n < length tr \<and> tr ! n = (cmd, Some (e, out)) \<longrightarrow>
         Suc n = length tr \<and> res = Some (ErrCommand cmd e out)
         \<or> os = Darwin \<and> n = 1 \<and> sublist ''File exists'' out)
    \<and> (case res of
         None \<Rightarrow> map fst tr = cmds
           \<and> (\<exists>cmd. (cmd, None) \<in> set tr \<and> name \<in> set cmd
               \<and> (if os = Linux then c \<in> set cmd else {string4 w, ''255.255.255.0''} \<subseteq> set cmd))
       | Some err \<Rightarrow> \<exists>cmd e out. last tr = (cmd, Some (e, out)) \<and> tr \<noteq> [] \<and> err = ErrCommand cmd e out
           \<and> \<not> (os = Darwin \<and> length tr = 2 \<and> sublist ''File exists'' out))"
proof -
  have "runCommands (route_exists os) (logged exec) 0 cmds (s, []) = ((s', tr), res)"
    using assms(3) unfolding assms(4) Configure_commands [OF assms(1,2)] .
  from runCommands_trace [OF this] have tr: "prefix (map fst tr) cmds" "res = None \<longrightarrow> map fst tr = cmds"
    "fail_stop (route_exists os) tr res" by simp_all
  define k where "k = (if os = Linux then 2 else 0 :: nat)"
  have k: "k < length cmds" "name \<in> set (cmds ! k)" "if os = Linux then c \<in> set (cmds ! k) else {string4 w, ''255.255.255.0''} \<subseteq> set (cmds ! k)"
    using assms(2) by (cases os; simp add: assms(4) k_def adapterCommands_def)+
  have addr: "(cmds ! k, None) \<in> set tr" if none: "res = None"
  proof -
    have m: "map fst tr = cmds" using tr(2) none by simp
    then have l: "k < length tr" using k(1) by auto
    obtain r where r: "tr ! k = (cmds ! k, r)" using m l by (metis nth_map prod.collapse)
    have "r = None"
    proof (rule ccontr)
      assume "r \<noteq> None"
      then obtain e out where e: "tr ! k = (cmds ! k, Some (e, out))" using r by auto
      have "\<not> route_exists os k out" by (simp add: route_exists_def k_def)
      then have "res = Some (ErrCommand (cmds ! k) e out)" using tr(3) l e unfolding fail_stop_def by blast
      then show False using none by simp
    qed
    then show ?thesis using r l by (metis nth_mem)
  qed
  have exc: "route_exists os (length tr - 1) out \<longleftrightarrow> os = Darwin \<and> length tr = 2 \<and> sublist ''File exists'' out" for out
    by (auto simp: route_exists_def)
  have stop: "Suc n = length tr \<and> res = Some (ErrCommand cmd e out) \<or> os = Darwin \<and> n = 1 \<and> sublist ''File exists'' out"
    if "n < length tr \<and> tr ! n = (cmd, Some (e, out))" for n cmd e out
    using tr(3) that unfolding fail_stop_def route_exists_def by blast
  show ?thesis
  proof (cases res)
    case None
    then show ?thesis using tr(1,2) stop addr k(2,3) by (simp only: option.case) blast
  next
    case (Some err)
    then have "\<exists>cmd e out. last tr = (cmd, Some (e, out)) \<and> tr \<noteq> [] \<and> err = ErrCommand cmd e out
           \<and> \<not> (os = Darwin \<and> length tr = 2 \<and> sublist ''File exists'' out)"
      using tr(3) unfolding fail_stop_def exc by blast
    then show ?thesis using tr(1) stop Some by (simp only: option.case) blast
  qed
qed

text \<open>In the witness the route is there already and the third command fails.\<close>

theorem adapter_configured_witness:
  "\<exists>s' tr. Configure Darwin (logged (\<lambda>n args. (Suc n, if n = 0 then None else if n = 1 then Some (''exit 1'', ''route: File exists'') else Some (''exit 2'', ''denied''))))
       ''utun4'' '''' ''10.66.0.2/24'' 1300 True ((0 :: nat), []) = ((s', tr), Some (ErrCommand [''ifconfig'', ''utun4'', ''metric'', ''1''] ''exit 2'' ''denied''))
     \<and> length tr = 3 \<and> (\<exists>cmd e out. last tr = (cmd, Some (e, out)))"
proof -
  let ?x = "\<lambda>(n :: nat) (args :: string list). (Suc n, if n = 0 then None else if n = 1 then Some (''exit 1'', ''route: File exists'') else Some (''exit 2'', ''denied''))"
  have c: "ParseCIDR ''10.66.0.2/24'' = Some (As16 (Addr4 0x0A420002), \<lparr>net_IP = [10, 66, 0, 0], net_Mask = [255, 255, 255, 0]\<rparr>)"
    by code_simp
  have x: "sublist ''File exists'' ''route: File exists''" by code_simp
  obtain s' tr where r: "Configure Darwin (logged ?x) ''utun4'' '''' ''10.66.0.2/24'' 1300 True (0, [])
      = ((s', tr), Some (ErrCommand [''ifconfig'', ''utun4'', ''metric'', ''1''] ''exit 2'' ''denied''))" and l: "length tr = 3"
    using x by (simp add: Configure_commands [OF c] adapterCommands_def route_exists_def logged_def)
  show ?thesis using adapter_configured [OF c _ r refl] r l by auto
qed

section \<open>Probes\<close>

text \<open>A structure that can be sent, as it stands on a stream or in a notification.\<close>

lemma sent_frame:
  assumes "sendable j v" and "Valid t" and "t \<noteq> TypeEthernetFrame"
  obtains bs where "snd j bs = Inr v" and "bs \<noteq> []" and "readable (int MaxControlSize) (t, bs)"
    and "\<And>b. WriteJSON (fst j) buf_Write b t v = (b @ frame_bytes (t, bs), None)"
    and "MarshalMessage (fst j) t v = Inr (frame_bytes (t, bs))"
proof -
  obtain bs where bs: "fst j v = Inr bs" "snd j bs = Inr v" "length bs \<le> MaxControlSize" "bs \<noteq> []"
    "MarshalMessage (fst j) t v = Inr (frame_bytes (t, bs))" "readable (int MaxControlSize) (t, bs)"
    using MarshalMessage_sendable [OF assms] by blast
  then have "writable (t, bs)" using assms(2,3) by (simp add: writable_def)
  then have "WriteJSON (fst j) buf_Write b t v = (b @ frame_bytes (t, bs), None)" for b
    by (simp add: WriteJSON_def bs(1) WriteMessage_buf)
  with bs that show thesis by blast
qed

lemma readControl_one:
  assumes "readable (int MaxControlSize) (t, bs)" and "controlStep cd wr (clock 0) t bs ws = (ws', None)"
  shows "readControl cd wr clock 0 \<lparr>rd_data = frame_bytes (t, bs), rd_end = e\<rparr> ws = (ws', ErrIO e)"
proof -
  have "readControl cd wr clock 0 \<lparr>rd_data = frame_bytes (t, bs), rd_end = e\<rparr> ws
      = readControl cd wr clock (Suc 0) \<lparr>rd_data = [], rd_end = e\<rparr> ws'"
    using ReadMessage_frame [OF assms(1), of "[]" e] assms(2) by (subst readControl.simps) simp
  also have "\<dots> = (ws', ErrIO e)" by (subst readControl.simps) (simp add: ReadMessage_def ReadFull_def)
  finally show ?thesis .
qed

text \<open>A notification for a member whose queue has room.\<close>

definition notify_room :: "Peer \<Rightarrow> bool" where
  "notify_room q \<longleftrightarrow> \<not> chan_closed (p_Notify q) \<and> length (chan_buf (p_Notify q)) < chan_cap (p_Notify q)"

lemma notified:
  assumes "store_inv s" and "k < length (roomHeap s)" and "q \<in> live (roomHeap s ! k)" and "notify_room (peerHeap s ! q)"
    and "s' = fst (SendNotify k (p_ID (peerHeap s ! q)) msg s)"
  shows "chan_buf (p_Notify (peerHeap s' ! q)) = chan_buf (p_Notify (peerHeap s ! q)) @ [msg]"
    and "\<And>r. r \<in> live (roomHeap s ! k) \<Longrightarrow> r \<noteq> q \<Longrightarrow> peerHeap s' ! r = peerHeap s ! r"
proof -
  show "chan_buf (p_Notify (peerHeap s' ! q)) = chan_buf (p_Notify (peerHeap s ! q)) @ [msg]"
    using SendNotify_each [OF assms(1,2)] assms(3-5) by (simp add: push_notify_def try_send_def notify_room_def)
  show "peerHeap s' ! r = peerHeap s ! r" if "r \<in> live (roomHeap s ! k)" "r \<noteq> q" for r
    using SendNotify_each [OF assms(1,2)] live_id_inj [OF store_room_inv [OF assms(1,2)]] that assms(3,5)
    by (auto dest: inj_onD)
qed

lemma probe_pending:
  assumes "nextLatencyProbe rnd now s = (s', Some probe)"
  obtains l where "map_of (lat_table s') (probe_PeerID probe) = Some l" and "lat_Pending l" and "lat_ProbeID l = probe_ID probe"
    and "lat_SentAt l = now" and "probe_SentAt probe = now" and "st_peerID s' = st_peerID s" and "st_peerID s \<noteq> ''''"
    and "probe_PeerID probe \<noteq> ''''"
  using assms keepLatency(5) [of s]
  by (auto simp: nextLatencyProbe_def Let_def lat_table_def map_of_update split: if_splits option.splits)

lemma pong_recorded:
  assumes "map_of (lat_table s) (pong_FromPeerID pong) = Some l" and "lat_Pending l" and "lat_ProbeID l = pong_ID pong"
    and "pong_FromPeerID pong \<noteq> ''''" and "pong_ToPeerID pong = localPeerID s"
  shows "lat_of (lat_table (handlePong now pong s)) (pong_FromPeerID pong)
    = l\<lparr>lat_RTT := time_Sub now (lat_SentAt l), lat_State := ''ok'', lat_UpdatedAt := now, lat_Pending := False, lat_ProbeID := ''''\<rparr>"
  using assms by (simp add: handlePong_def recordLatencyPong_def Let_def lat_table_def)

lemma expire_peerID: "st_peerID (expireLatencyProbes now s) = st_peerID s"
  by (simp add: expireLatencyProbes_def Let_def)

lemma distinct_ids:
  assumes "store_inv s" and "k < length (roomHeap s)" and "p \<in> live (roomHeap s ! k)" and "q \<in> live (roomHeap s ! k)" and "q \<noteq> p"
  shows "p_ID (peerHeap s ! q) \<noteq> p_ID (peerHeap s ! p)"
  using live_id_inj [OF store_room_inv [OF assms(1,2)]] assms(3-5) by (auto dest: inj_onD)

text \<open>Either message on its way through the server: from the sender's stream to the receiver's queue.\<close>

lemma ping_relayed:
  assumes "store_inv s" and "k < length (roomHeap s)" and "p \<in> live (roomHeap s ! k)" and "q \<in> live (roomHeap s ! k)" and "q \<noteq> p"
    and "notify_room (peerHeap s ! q)" and "snd (cd_Ping cd) b = Inr ping" and "ping_ToPeerID ping = p_ID (peerHeap s ! q)"
    and "p_ID (peerHeap s ! q) \<noteq> ''''" and "sendable (cd_Ping cd) (ping\<lparr>ping_FromPeerID := p_ID (peerHeap s ! p)\<rparr>)"
  obtains s' b' where "forwardPeerPing cd p b s = (s', None)" and "same_tables s s'"
    and "chan_buf (p_Notify (peerHeap s' ! q)) = chan_buf (p_Notify (peerHeap s ! q)) @ [frame_bytes (TypePing, b')]"
    and "peerHeap s' ! p = peerHeap s ! p" and "b' \<noteq> []" and "readable (int MaxControlSize) (TypePing, b')"
    and "snd (cd_Ping cd) b' = Inr (ping\<lparr>ping_FromPeerID := p_ID (peerHeap s ! p)\<rparr>)"
proof -
  have v: "Valid TypePing" "TypePing \<noteq> TypeEthernetFrame" by (simp_all add: Valid_def message_type_defs)
  obtain b' where b': "snd (cd_Ping cd) b' = Inr (ping\<lparr>ping_FromPeerID := p_ID (peerHeap s ! p)\<rparr>)" "b' \<noteq> []"
    "readable (int MaxControlSize) (TypePing, b')"
    "MarshalMessage (fst (cd_Ping cd)) TypePing (ping\<lparr>ping_FromPeerID := p_ID (peerHeap s ! p)\<rparr>) = Inr (frame_bytes (TypePing, b'))"
    using sent_frame [OF assms(10) v] by blast
  have room: "p_Room (peerHeap s ! p) = k" using live_room [OF store_room_inv [OF assms(1,2)] assms(3)] by simp
  have "forwardPeerPing cd p b s = (fst (SendNotify k (p_ID (peerHeap s ! q)) (frame_bytes (TypePing, b')) s), None)"
    using assms(7-9) distinct_ids [OF assms(1-5)] b'(4) by (simp add: forwardPeerPing_def Let_def room)
  from that [OF this SendNotify_same notified(1) [OF assms(1,2,4,6) refl] notified(2) [OF assms(1,2,4,6) refl assms(3)] b'(2,3,1)]
  show thesis using assms(5) by blast
qed

lemma pong_relayed:
  assumes "store_inv s" and "k < length (roomHeap s)" and "p \<in> live (roomHeap s ! k)" and "q \<in> live (roomHeap s ! k)" and "q \<noteq> p"
    and "notify_room (peerHeap s ! q)" and "snd (cd_Pong cd) b = Inr pong" and "pong_ToPeerID pong = p_ID (peerHeap s ! q)"
    and "p_ID (peerHeap s ! q) \<noteq> ''''" and "sendable (cd_Pong cd) (pong\<lparr>pong_FromPeerID := p_ID (peerHeap s ! p)\<rparr>)"
  obtains s' b' where "forwardPeerPong cd p b s = (s', None)"
    and "chan_buf (p_Notify (peerHeap s' ! q)) = chan_buf (p_Notify (peerHeap s ! q)) @ [frame_bytes (TypePong, b')]"
    and "b' \<noteq> []" and "readable (int MaxControlSize) (TypePong, b')"
    and "snd (cd_Pong cd) b' = Inr (pong\<lparr>pong_FromPeerID := p_ID (peerHeap s ! p)\<rparr>)"
proof -
  have v: "Valid TypePong" "TypePong \<noteq> TypeEthernetFrame" by (simp_all add: Valid_def message_type_defs)
  obtain b' where b': "snd (cd_Pong cd) b' = Inr (pong\<lparr>pong_FromPeerID := p_ID (peerHeap s ! p)\<rparr>)" "b' \<noteq> []"
    "readable (int MaxControlSize) (TypePong, b')"
    "MarshalMessage (fst (cd_Pong cd)) TypePong (pong\<lparr>pong_FromPeerID := p_ID (peerHeap s ! p)\<rparr>) = Inr (frame_bytes (TypePong, b'))"
    using sent_frame [OF assms(10) v] by blast
  have room: "p_Room (peerHeap s ! p) = k" using live_room [OF store_room_inv [OF assms(1,2)] assms(3)] by simp
  have "forwardPeerPong cd p b s = (fst (SendNotify k (p_ID (peerHeap s ! q)) (frame_bytes (TypePong, b')) s), None)"
    using assms(7-9) distinct_ids [OF assms(1-5)] b'(4) by (simp add: forwardPeerPong_def Let_def room)
  from that [OF this notified(1) [OF assms(1,2,4,6) refl] b'(2,3,1)] show thesis .
qed

lemma ping_answered:
  assumes "readable (int MaxControlSize) (TypePing, b)" and "b \<noteq> []" and "snd (cd_Ping cd) b = Inr ping"
    and "ping_FromPeerID ping \<noteq> ''''" and "ping_ToPeerID ping = localPeerID sB"
    and "WriteJSON (fst (cd_Pong cd)) buf_Write w TypePong
      \<lparr>pong_ID = ping_ID ping, pong_FromPeerID = '''', pong_ToPeerID = ping_FromPeerID ping, pong_SentAtUnixNano = ping_SentAtUnixNano ping\<rparr> = (w', None)"
  shows "readControl cd buf_Write clock 0 \<lparr>rd_data = frame_bytes (TypePing, b), rd_end = e\<rparr> (w, sB) = ((w', sB), ErrIO e)"
proof (rule readControl_one [OF assms(1)])
  have "TypePing \<noteq> TypePeerList" by (simp add: message_type_defs)
  then show "controlStep cd buf_Write (clock 0) TypePing b (w, sB) = ((w', sB), None)"
    using assms(2-6) by (simp add: controlStep_def handlePing_def)
qed

section \<open>Examples\<close>

text \<open>A third client joins the example room, and one of its members probes another.\<close>

definition env_demo :: "(string, unit) SessionEnv" where
  "env_demo = \<lparr>env_dial = None, env_water = (\<lambda>kind name c. Inr ''utun4''), env_byName = (\<lambda>name. Inl ''none''), env_ifName = id,
     env_openStream = None, env_nonce = Some [1], env_exec = (\<lambda>u args. (u, None)), env_acceptStream = None\<rparr>"

definition join_demo :: JoinRoom where
  "join_demo = clientJoin demo_config '''' ''01''"

definition joined_demo :: Store where
  "joined_demo = fst (admitJoin [] [demo_draw 3] join_demo demo2)"

definition codec_demo :: Codec where
  "codec_demo = toy_codec\<lparr>cd_JoinRoom := single join_demo [1],
     cd_JoinAccept := single (buildAccept \<lparr>h_MTU = 1300, h_Capture = None\<rparr> join_demo 2 joined_demo) [2]\<rparr>"

lemma sendable_single: "sendable (single v [x]) v"
  by (simp add: sendable_def single_def size_defs)

lemma join_demo_accepted:
  "\<exists>w. WriteJSON (fst (cd_JoinRoom codec_demo)) buf_Write [] TypeJoinRoom join_demo = (w, None)
     \<and> handleJoin codec_demo [] [demo_draw 3] \<lparr>rd_data = w, rd_end = EOF\<rparr> demo2 = (joined_demo, Some (Joined 2 join_demo))"
proof -
  have v: "Valid TypeJoinRoom" "TypeJoinRoom \<noteq> TypeEthernetFrame" by (simp_all add: Valid_def message_type_defs)
  have sd: "sendable (cd_JoinRoom codec_demo) join_demo" by (simp add: codec_demo_def sendable_single)
  have "writable (TypeJoinRoom, [1])" using v by (simp add: writable_def size_defs)
  then obtain w where w: "WriteJSON (fst (cd_JoinRoom codec_demo)) buf_Write [] TypeJoinRoom join_demo = (w, None)"
    by (simp add: codec_demo_def single_def WriteJSON_def WriteMessage_buf)
  have "snd (admitJoin [] [demo_draw 3] (join_demo\<lparr>jr_Room := TrimSpace (jr_Room join_demo)\<rparr>) demo2) = Some (Joined 2 join_demo)"
    and "join_demo\<lparr>jr_Room := TrimSpace (jr_Room join_demo)\<rparr> = join_demo" by code_simp+
  then have "admitJoin [] [demo_draw 3] (join_demo\<lparr>jr_Room := TrimSpace (jr_Room join_demo)\<rparr>) demo2 = (joined_demo, Some (Joined 2 join_demo))"
    by (metis joined_demo_def prod.collapse)
  then have "handleJoin codec_demo [] [demo_draw 3] \<lparr>rd_data = w, rd_end = EOF\<rparr> demo2 = (joined_demo, Some (Joined 2 join_demo))"
    using ReadJSON_WriteJSON [OF sd v w, of "[]" EOF] by (simp add: handleJoin_def)
  with w show ?thesis by blast
qed

lemma join_demo_opened:
  "\<exists>st. openSession codec_demo buf_Write buf_Write (Inr []) \<lparr>h_MTU = 1300, h_Capture = None\<rparr> join_demo 2 [] [] joined_demo = Running st"
proof -
  let ?a = "buildAccept \<lparr>h_MTU = 1300, h_Capture = None\<rparr> join_demo 2 joined_demo"
  have "sendable (cd_JoinAccept codec_demo) ?a" by (simp add: codec_demo_def sendable_single)
  then obtain w where "WriteJSON (fst (cd_JoinAccept codec_demo)) buf_Write [] TypeJoinAccept ?a = (w, None)"
    using readAnswer_accept by blast
  moreover have "writable (TypePing, [])" by (simp add: writable_def Valid_def message_type_defs size_defs)
  ultimately show ?thesis by (simp add: openSession_def Let_def WriteMessage_buf)
qed

definition probe_status :: "string \<Rightarrow> Status" where
  "probe_status i = joined_status 5 (demo_accept\<lparr>ja_PeerID := i,
     ja_Peers := [demo_info ''0102030405060701'', demo_info ''0102030405060702'']\<rparr>) (newStatus 1 demo_config)"

definition ping_demo :: PeerPing where
  "ping_demo = \<lparr>ping_ID = ''01'', ping_FromPeerID = '''', ping_ToPeerID = ''0102030405060702'', ping_SentAtUnixNano = UnixNano 7\<rparr>"

definition pong_demo :: PeerPong where
  "pong_demo = \<lparr>pong_ID = ''01'', pong_FromPeerID = '''', pong_ToPeerID = ''0102030405060701'', pong_SentAtUnixNano = UnixNano 7\<rparr>"

definition latency_codec :: Codec where
  "latency_codec = toy_codec\<lparr>
     cd_Ping := (\<lambda>v. Inr (if v = ping_demo then [5] else [8]), \<lambda>bs. Inr (if bs = [5] then ping_demo else ping_demo\<lparr>ping_FromPeerID := ''0102030405060701''\<rparr>)),
     cd_Pong := (\<lambda>v. Inr (if v = pong_demo then [6] else [9]), \<lambda>bs. Inr (if bs = [6] then pong_demo else pong_demo\<lparr>pong_FromPeerID := ''0102030405060702''\<rparr>))\<rparr>"

lemma latency_codec_sends:
  "sendable (cd_Ping latency_codec) ping_demo" "sendable (cd_Ping latency_codec) (ping_demo\<lparr>ping_FromPeerID := ''0102030405060701''\<rparr>)"
  "sendable (cd_Pong latency_codec) pong_demo" "sendable (cd_Pong latency_codec) (pong_demo\<lparr>pong_FromPeerID := ''0102030405060702''\<rparr>)"
  by (simp_all add: sendable_def latency_codec_def ping_demo_def pong_demo_def size_defs)

end
