(* ===== verification/Server_Conc.thy ===== *)
theory Server_Conc
  imports Control_Traffic
begin

text \<open>
  The whole server: any number of connections of \<^verbatim>\<open>src/internal/control/handler.go\<close> over the
  shared relay. Every connection stands before one of the critical sections of
  \<^verbatim>\<open>HandleConnection\<close>; a step executes that section, so the reachable states are those of
  every interleaving of the connections.
\<close>

section \<open>The parts of a conversation\<close>

text \<open>The request, up to the call of \<^verbatim>\<open>Manager.Join\<close>: the reason of a rejection, or the options of the call.\<close>

definition joinRequest :: "Codec \<Rightarrow> Reader \<Rightarrow> string + JoinRoom \<times> JoinOptions list" where
  "joinRequest cd r =
     (case ReadJSON (snd (cd_JoinRoom cd)) r TypeJoinRoom (int MaxControlSize) of
        (r1, Inl e) \<Rightarrow> Inl ''invalid join request''
      | (r1, Inr j) \<Rightarrow>
          (let join = j\<lparr>jr_Room := TrimSpace (jr_Room j)\<rparr> in
           if jr_Version join \<noteq> Version then Inl ''unsupported protocol version''
           else if jr_Room join = '''' then Inl ''room is required''
           else case requestedMAC (jr_MAC join) of
             None \<Rightarrow> Inl ''invalid mac address''
           | Some mac \<Rightarrow>
               Inr (join, [\<lparr>opt_DisplayName = jr_DisplayName join, opt_RequestedMAC = mac,
                            opt_Features = filterSupportedFeatures (jr_Features join)\<rparr>])))"

text \<open>The accept message and the opening of a session, with the snapshot of the room that was taken before.\<close>

definition acceptWith :: "Handler \<Rightarrow> JoinRoom \<Rightarrow> peerref \<Rightarrow> RoomSnapshot \<Rightarrow> Store \<Rightarrow> JoinAccept" where
  "acceptWith h join p snap s =
     (let peer = peerHeap s ! p
      in \<lparr>ja_Version = Version, ja_Room = jr_Room join, ja_PeerID = p_ID peer,
          ja_IPv4 = Addr_String (p_IP peer),
          ja_CIDR = Prefix_String (PrefixFrom (p_IP peer) (pfx_bits (r_prefix (roomHeap s ! p_Room peer)))),
          ja_MAC = HardwareAddr_String (p_MAC peer), ja_MTU = h_MTU h,
          ja_RoomCreatedAt = rs_CreatedAt snap, ja_Peers = toPeerInfos (rs_Peers snap),
          ja_Features = [FeaturePeerLatency]\<rparr>)"

definition openWith ::
  "Codec \<Rightarrow> 'w writer \<Rightarrow> 'd writer \<Rightarrow> (string + 'd) \<Rightarrow> Handler \<Rightarrow> JoinRoom \<Rightarrow> peerref \<Rightarrow> RoomSnapshot \<Rightarrow> 'w \<Rightarrow> 'd \<Rightarrow> Store
     \<Rightarrow> ('w, 'd) outcome" where
  "openWith cd wr dwr opened h join p snap w d0 s =
     (let st = \<lparr>ss_store = s, ss_capture = h_Capture h, ss_control = w, ss_data = d0, ss_pending = [], ss_head = True,
                ss_writer = False, ss_notifier = False, ss_reader = False\<rparr>
      in case WriteJSON (fst (cd_JoinAccept cd)) wr w TypeJoinAccept (acceptWith h join p snap s) of
           (w1, Some e) \<Rightarrow> Ended (Some (SProto e)) (st\<lparr>ss_control := w1\<rparr>)
         | (w1, None) \<Rightarrow>
             (case opened of
                Inl e \<Rightarrow> Ended (Some (SOther e)) (st\<lparr>ss_control := w1\<rparr>)
              | Inr d \<Rightarrow>
                  (case WriteMessage dwr d TypePing [] of
                     (d1, Some e) \<Rightarrow> Ended (Some (SProto e)) (st\<lparr>ss_control := w1, ss_data := d1\<rparr>)
                   | (d1, None) \<Rightarrow>
                       Running (st\<lparr>ss_control := w1, ss_data := d1, ss_writer := True, ss_notifier := True, ss_reader := True,
                         ss_store := BroadcastNotify (p_Room (peerHeap s ! p)) (buildPeerListMsg cd snap) (Some p) s\<rparr>))))"

text \<open>A frame up to the decision of \<^verbatim>\<open>Forward\<close>, with the targets it still has to be handed to.\<close>

definition frameHead ::
  "time \<Rightarrow> peerref \<Rightarrow> bytes \<Rightarrow> CaptureRecorder option \<times> Store \<Rightarrow> (CaptureRecorder option \<times> Store \<times> peerref list) option" where
  "frameHead now p payload cs =
     (case cs of (cap, s) \<Rightarrow>
        let peer = peerHeap s ! p;
            meta = \<lparr>md_Direction = ''ingress'', md_Room = r_name (roomHeap s ! p_Room peer),
                    md_PeerID = p_ID peer, md_PeerName = p_DisplayName peer\<rparr>
        in case Record now meta payload cap of
             None \<Rightarrow> None
           | Some cap1 \<Rightarrow>
               (let (peer1, ok) = AllowFrame (length payload) now peer; s1 = set_peer p peer1 s in
                if \<not> ok then Some (cap1, set_peer_with (RecordDropFrame (length payload)) p s1, [])
                else
                  (let s2 = set_peer_with (RecordRxFrame (length payload)) p s1 in
                   case Forward (p_Room peer) p payload s2 of
                     None \<Rightarrow> None
                   | Some (s3, Inl e) \<Rightarrow> Some (cap1, set_peer_with (RecordDropFrame (length payload)) p s3, [])
                   | Some (s3, Inr targets) \<Rightarrow> Some (cap1, s3, targets))))"

text \<open>With nothing in between, the parts are the operations of \<open>Control\<close>.\<close>

lemma handleJoin_parts:
  "handleJoin cd rt ds r s =
     (case joinRequest cd r of
        Inl reason \<Rightarrow> (s, Some (Rejected reason))
      | Inr (join, opts) \<Rightarrow>
          (case Manager_Join (jr_Room join) opts ds s of
             (s1, None) \<Rightarrow> (s1, None)
           | (s1, Some (Inl e)) \<Rightarrow> (s1, Some (Rejected (relayErrorText rt e)))
           | (s1, Some (Inr p)) \<Rightarrow> (s1, Some (Joined p join))))"
  by (auto simp: handleJoin_def admitJoin_def joinRequest_def Let_def split: prod.splits sum.splits option.splits)

lemma openSession_parts:
  "openSession cd wr dwr opened h join p w d0 s =
     openWith cd wr dwr opened h join p (Room_Snapshot s (roomHeap s ! p_Room (peerHeap s ! p))) w d0 s"
  by (simp add: openSession_def openWith_def acceptWith_def buildAccept_def Let_def)

lemma dataFrame_parts:
  "dataFrame now p payload cs =
     (case frameHead now p payload cs of
        None \<Rightarrow> None
      | Some (cap, s, targets) \<Rightarrow> map_option (\<lambda>s1. (cap, s1)) (enqueueTargets payload targets s))"
  by (auto simp: dataFrame_def frameHead_def Let_def split: prod.splits option.splits sum.splits)

section \<open>Connections\<close>

text \<open>
  Where a connection stands: before its request; in \<^verbatim>\<open>Manager.Join\<close> before \<^verbatim>\<open>getOrCreateRoom\<close>
  and before \<^verbatim>\<open>AddPeer\<close>; registered, before the snapshot and before the accept message; in
  its session, with the targets a frame still has to be handed to; and in the deferred
  clean-up before each of its sections. The goroutines of a session that outlive its main
  loop are a connection of their own.
\<close>

datatype ('w, 'd) conn =
    Reading 'w
  | Joining JoinRoom "JoinOptions list" 'w
  | Adding JoinRoom "JoinOptions list" roomref 'w
  | Registered peerref JoinRoom 'w
  | Greeting peerref JoinRoom RoomSnapshot 'w
  | Serving peerref "('w, 'd) Session" "(peerref list \<times> bytes) option"
  | Leaving peerref
  | Closing peerref roomref bool
  | Deleting roomref
  | Left roomref
  | Counted roomref
  | Telling roomref RoomSnapshot
  | Straggling peerref "('w, 'd) Session"
  | Gone

record ('w, 'd) Serv =
  sv_store :: Store
  sv_capture :: "CaptureRecorder option"
  sv_conns :: "('w, 'd) conn list"
  sv_panic :: bool

definition main_event :: "session_event \<Rightarrow> bool" where
  "main_event ev \<longleftrightarrow> (case ev of EvHead i \<Rightarrow> True | EvData now typ payload \<Rightarrow> True | EvDataErr e \<Rightarrow> True | _ \<Rightarrow> False)"

definition frame_event :: "session_event \<Rightarrow> bool" where
  "frame_event ev \<longleftrightarrow> (case ev of EvData now typ payload \<Rightarrow> typ = TypeEthernetFrame | _ \<Rightarrow> False)"

text \<open>A connection goes on: the new store, and what becomes of the connection.\<close>

definition moves :: "nat \<Rightarrow> Store \<Rightarrow> ('w, 'd) conn \<Rightarrow> ('w, 'd) Serv \<Rightarrow> ('w, 'd) Serv" where
  "moves i s c v = v\<lparr>sv_store := s, sv_conns := (sv_conns v)[i := c]\<rparr>"

abbreviation at_conn :: "('w, 'd) Serv \<Rightarrow> nat \<Rightarrow> ('w, 'd) conn \<Rightarrow> bool" where
  "at_conn v i c \<equiv> \<not> sv_panic v \<and> i < length (sv_conns v) \<and> sv_conns v ! i = c"

definition plug :: "('w, 'd) Serv \<Rightarrow> ('w, 'd) Session \<Rightarrow> ('w, 'd) Session" where
  "plug v st = st\<lparr>ss_store := sv_store v, ss_capture := sv_capture v\<rparr>"

inductive server_step ::
  "Codec \<Rightarrow> 'w writer \<Rightarrow> 'd writer \<Rightarrow> Handler \<Rightarrow> ('w, 'd) Serv \<Rightarrow> ('w, 'd) Serv \<Rightarrow> bool" for cd wr dwr h where
  accepted: "\<not> sv_panic v \<Longrightarrow> server_step cd wr dwr h v (v\<lparr>sv_conns := sv_conns v @ [Reading w]\<rparr>)"
| rejected: "at_conn v i (Reading w) \<Longrightarrow> joinRequest cd r = Inl reason \<Longrightarrow> server_step cd wr dwr h v (moves i (sv_store v) Gone v)"
| requested: "at_conn v i (Reading w) \<Longrightarrow> joinRequest cd r = Inr (join, opts) \<Longrightarrow>
    server_step cd wr dwr h v (moves i (sv_store v) (Joining join opts w) v)"
| got_room: "at_conn v i (Joining join opts w) \<Longrightarrow> getOrCreateRoom (jr_Room join) now (sv_store v) = (s, Inr room) \<Longrightarrow>
    server_step cd wr dwr h v (moves i s (Adding join opts room w) v)"
| no_room: "at_conn v i (Joining join opts w) \<Longrightarrow> getOrCreateRoom (jr_Room join) now (sv_store v) = (s, Inl e) \<Longrightarrow>
    server_step cd wr dwr h v (moves i s Gone v)"
| added: "at_conn v i (Adding join opts room w) \<Longrightarrow> fresh_draw (roomHeap (sv_store v) ! room) (the_opt opts) d \<Longrightarrow>
    AddPeer room opts d (sv_store v) = (s, Inr p) \<Longrightarrow> server_step cd wr dwr h v (moves i s (Registered p join w) v)"
| refused: "at_conn v i (Adding join opts room w) \<Longrightarrow> fresh_draw (roomHeap (sv_store v) ! room) (the_opt opts) d \<Longrightarrow>
    AddPeer room opts d (sv_store v) = (s, Inl e) \<Longrightarrow>
    server_step cd wr dwr h v (moves i s (if e = ErrRoomClosed then Joining join opts w else Gone) v)"
| looked: "at_conn v i (Registered p join w) \<Longrightarrow>
    snap = Room_Snapshot (sv_store v) (roomHeap (sv_store v) ! p_Room (peerHeap (sv_store v) ! p)) \<Longrightarrow>
    server_step cd wr dwr h v (moves i (sv_store v) (Greeting p join snap w) v)"
| greeted: "at_conn v i (Greeting p join snap w) \<Longrightarrow>
    openWith cd wr dwr opened h join p snap w d0 (sv_store v) = Running st \<Longrightarrow>
    server_step cd wr dwr h v (moves i (ss_store st) (Serving p st None) v)"
| not_greeted: "at_conn v i (Greeting p join snap w) \<Longrightarrow>
    openWith cd wr dwr opened h join p snap w d0 (sv_store v) = Ended e st \<Longrightarrow>
    server_step cd wr dwr h v (moves i (ss_store st) (Leaving p) v)"
| served: "at_conn v i (Serving p st job) \<Longrightarrow> \<not> frame_event ev \<Longrightarrow> job = None \<or> \<not> main_event ev \<Longrightarrow>
    sessionEvent cd wr dwr p ev (plug v st) = Running st' \<Longrightarrow>
    server_step cd wr dwr h v (moves i (ss_store st') (Serving p st' job) (v\<lparr>sv_capture := ss_capture st'\<rparr>))"
| ended: "at_conn v i (Serving p st None) \<Longrightarrow> \<not> frame_event ev \<Longrightarrow>
    sessionEvent cd wr dwr p ev (plug v st) = Ended e st' \<Longrightarrow>
    server_step cd wr dwr h v
      (moves i (ss_store st') (Leaving p) (v\<lparr>sv_conns := sv_conns v @ [Straggling p st'], sv_capture := ss_capture st'\<rparr>))"
| framed: "at_conn v i (Serving p st None) \<Longrightarrow> \<not> ss_head st \<Longrightarrow>
    frameHead now p payload (sv_capture v, sv_store v) = Some (cap, s, targets) \<Longrightarrow>
    server_step cd wr dwr h v
      (moves i s (Serving p (st\<lparr>ss_head := True\<rparr>) (Some (targets, payload))) (v\<lparr>sv_capture := cap\<rparr>))"
| sent: "at_conn v i (Serving p st (Some (t # ts, payload))) \<Longrightarrow> Enqueue payload (peerHeap (sv_store v) ! t) = Some (q, ok) \<Longrightarrow>
    server_step cd wr dwr h v (moves i (set_peer t q (sv_store v)) (Serving p st (Some (ts, payload))) v)"
| send_closed: "at_conn v i (Serving p st (Some (t # ts, payload))) \<Longrightarrow> Enqueue payload (peerHeap (sv_store v) ! t) = None \<Longrightarrow>
    server_step cd wr dwr h v (moves i (sv_store v) (Serving p st None) (v\<lparr>sv_panic := True\<rparr>))"
| all_sent: "at_conn v i (Serving p st (Some ([], payload))) \<Longrightarrow>
    server_step cd wr dwr h v (moves i (sv_store v) (Serving p st None) v)"
| removed: "at_conn v i (Leaving p) \<Longrightarrow> room = p_Room (peerHeap (sv_store v) ! p) \<Longrightarrow>
    removePeerLocked p room (sv_store v) = (s, Some emptied) \<Longrightarrow>
    server_step cd wr dwr h v (moves i s (Closing p room emptied) v)"
| not_there: "at_conn v i (Leaving p) \<Longrightarrow> room = p_Room (peerHeap (sv_store v) ! p) \<Longrightarrow>
    removePeerLocked p room (sv_store v) = (s, None) \<Longrightarrow>
    server_step cd wr dwr h v (moves i s (Left room) v)"
| closed: "at_conn v i (Closing p room emptied) \<Longrightarrow>
    server_step cd wr dwr h v
      (moves i (set_peer p (closeFrames (peerHeap (sv_store v) ! p)) (sv_store v))
         (if emptied \<and> r_manager (roomHeap (sv_store v) ! room) then Deleting room else Left room) v)"
| deleted: "at_conn v i (Deleting room) \<Longrightarrow>
    server_step cd wr dwr h v (moves i (deleteEmptyRoom room (sv_store v)) (Left room) v)"
| counted: "at_conn v i (Left room) \<Longrightarrow>
    server_step cd wr dwr h v (moves i (sv_store v) (if 0 < PeerCount room (sv_store v) then Counted room else Gone) v)"
| looked_again: "at_conn v i (Counted room) \<Longrightarrow>
    server_step cd wr dwr h v (moves i (sv_store v) (Telling room (Room_Snapshot (sv_store v) (roomHeap (sv_store v) ! room))) v)"
| told: "at_conn v i (Telling room snap) \<Longrightarrow>
    server_step cd wr dwr h v (moves i (BroadcastNotify room (buildPeerListMsg cd snap) None (sv_store v)) Gone v)"
| straggled: "at_conn v i (Straggling p st) \<Longrightarrow> \<not> main_event ev \<Longrightarrow>
    sessionEvent cd wr dwr p ev (plug v st) = Running st' \<Longrightarrow>
    server_step cd wr dwr h v (moves i (ss_store st') (Straggling p st') (v\<lparr>sv_capture := ss_capture st'\<rparr>))"

definition init_serv :: "Prefix \<Rightarrow> CaptureRecorder option \<Rightarrow> ('w, 'd) Serv" where
  "init_serv pool cap = \<lparr>sv_store = NewManager pool, sv_capture = cap, sv_conns = [], sv_panic = False\<rparr>"

inductive serv_reachable ::
  "Codec \<Rightarrow> 'w writer \<Rightarrow> 'd writer \<Rightarrow> Handler \<Rightarrow> Prefix \<Rightarrow> ('w, 'd) Serv \<Rightarrow> bool" for cd wr dwr h pool where
  serv_init: "serv_reachable cd wr dwr h pool (init_serv pool cap)"
| serv_next: "serv_reachable cd wr dwr h pool v \<Longrightarrow> server_step cd wr dwr h v v' \<Longrightarrow> serv_reachable cd wr dwr h pool v'"

end
