(* ===== verification/Server_Refine.thy ===== *)
theory Server_Refine
  imports Server_Conc "HOL-Library.Multiset"
begin

text \<open>
  The server as a whole is simulated by the relay of \<open>Relay_Conc\<close>, so that everything proved of
  the interleavings of the relay holds of the server with its connections; and the peers of
  the rooms are at every moment those of the open sessions.
\<close>

section \<open>The server refines the relay\<close>

text \<open>The relay's part of a server: its store and the calls in progress, in any order.\<close>

definition relay_reach :: "Prefix \<Rightarrow> Store \<Rightarrow> job multiset \<Rightarrow> bool \<Rightarrow> bool" where
  "relay_reach pool s M b \<longleftrightarrow> (\<exists>js. mset js = M \<and> reachable pool \<lparr>sys_store = s, sys_jobs = js, sys_panic = b\<rparr>)"

lemma relay_at:
  assumes "relay_reach pool s (add_mset j M) b"
  obtains js js' where "mset (js @ js') = M" and "reachable pool \<lparr>sys_store = s, sys_jobs = js @ j # js', sys_panic = b\<rparr>"
proof -
  obtain l where l: "mset l = add_mset j M" "reachable pool \<lparr>sys_store = s, sys_jobs = l, sys_panic = b\<rparr>"
    using assms by (auto simp: relay_reach_def)
  then have "j \<in> set l" by (metis set_mset_mset union_single_eq_member)
  then obtain js js' where "l = js @ j # js'" by (meson split_list)
  then show thesis using that l by simp
qed

lemma relay_replace:
  assumes "relay_reach pool s (add_mset j M) b"
    and "\<And>js js'. relay_step \<lparr>sys_store = s, sys_jobs = js @ j # js', sys_panic = b\<rparr> \<lparr>sys_store = s', sys_jobs = js @ new @ js', sys_panic = b'\<rparr>"
  shows "relay_reach pool s' (mset new + M) b'"
  using assms(1)
proof (rule relay_at)
  fix js js' assume "mset (js @ js') = M" "reachable pool \<lparr>sys_store = s, sys_jobs = js @ j # js', sys_panic = b\<rparr>"
  then have "reachable pool \<lparr>sys_store = s', sys_jobs = js @ new @ js', sys_panic = b'\<rparr>" "mset (js @ new @ js') = mset new + M"
    using reachable.step [OF _ assms(2)] by auto
  then show ?thesis unfolding relay_reach_def by blast
qed

lemma relay_start:
  assumes "relay_reach pool s M b"
    and "\<And>js. relay_step \<lparr>sys_store = s, sys_jobs = js, sys_panic = b\<rparr> \<lparr>sys_store = s', sys_jobs = new @ js, sys_panic = b\<rparr>"
  shows "relay_reach pool s' (mset new + M) b"
proof -
  obtain js where "mset js = M" "reachable pool \<lparr>sys_store = s, sys_jobs = js, sys_panic = b\<rparr>" using assms(1) by (auto simp: relay_reach_def)
  then have "mset (new @ js) = mset new + M" "reachable pool \<lparr>sys_store = s', sys_jobs = new @ js, sys_panic = b\<rparr>"
    using reachable.step [OF _ assms(2)] by auto
  then show ?thesis unfolding relay_reach_def by blast
qed

lemma relay_inv:
  assumes "relay_reach pool s M b" and "pool_ok pool"
  shows "store_inv s" and "peers_placed s" and "\<And>j. j \<in># M \<Longrightarrow> job_ok s j"
proof -
  obtain js where js: "mset js = M" "reachable pool \<lparr>sys_store = s, sys_jobs = js, sys_panic = b\<rparr>" using assms(1) by (auto simp: relay_reach_def)
  have inv: "sys_inv \<lparr>sys_store = s, sys_jobs = js, sys_panic = b\<rparr>" using reachable_inv [OF js(2) assms(2)] .
  show "store_inv s" "peers_placed s" using sys_invD [OF inv] by simp_all
  show "job_ok s j" if "j \<in># M" for j using sys_invD(3) [OF inv] that js(1) by auto
qed

text \<open>Bookkeeping on any number of peers.\<close>

definition accounts1 :: "Store \<Rightarrow> Store \<Rightarrow> bool" where
  "accounts1 s s' \<longleftrightarrow> (\<exists>p q. p < length (peerHeap s) \<and> account (peerHeap s ! p) q \<and> s' = set_peer p q s)"

lemma accounts_reach:
  assumes "accounts1\<^sup>*\<^sup>* s s'" and "relay_reach pool s M b"
  shows "relay_reach pool s' M b"
  using assms
proof (induction rule: rtranclp_induct)
  case (step t u)
  then obtain p q where "p < length (peerHeap t)" "account (peerHeap t ! p) q" "u = set_peer p q t" by (auto simp: accounts1_def)
  then show ?case using relay_start [OF step.IH [OF step.prems], of u "[]"] bookkeep by auto
qed

lemma set_peer_out: "\<not> p < length (peerHeap s) \<Longrightarrow> set_peer p q s = s"
  by (simp add: set_peer_def list_update_beyond)

lemma account_star: "account (peerHeap s ! p) q \<Longrightarrow> accounts1\<^sup>*\<^sup>* s (set_peer p q s)"
proof (cases "p < length (peerHeap s)")
  case True
  moreover assume "account (peerHeap s ! p) q"
  ultimately have "accounts1 s (set_peer p q s)" by (auto simp: accounts1_def)
  then show ?thesis by blast
qed (simp add: set_peer_out)

lemma accounts_with: "(\<And>q. account q (f q)) \<Longrightarrow> accounts1\<^sup>*\<^sup>* s (set_peer_with f p s)"
  by (simp add: set_peer_with_def account_star)

lemma SendNotify_accounts: "accounts1\<^sup>*\<^sup>* s (fst (SendNotify room i msg s))"
proof (cases "map_of (r_peers (roomHeap s ! room)) i")
  case (Some p)
  have "accounts1\<^sup>*\<^sup>* s (set_peer p (fst (push_notify msg (peerHeap s ! p))) s)" by (rule account_star) (rule notify)
  then show ?thesis using Some by (cases "push_notify msg (peerHeap s ! p)") (simp add: SendNotify_def set_peer_def)
qed (simp add: SendNotify_def)

lemma foldl_accounts:
  "accounts1\<^sup>*\<^sup>* s (s\<lparr>peerHeap := foldl (\<lambda>ph p. ph[p := fst (push_notify msg (ph ! p))]) (peerHeap s) ps\<rparr>)"
proof (induction ps arbitrary: s)
  case (Cons p ps)
  let ?s = "set_peer p (fst (push_notify msg (peerHeap s ! p))) s"
  have "accounts1\<^sup>*\<^sup>* s ?s" by (rule account_star) (rule notify)
  also have "accounts1\<^sup>*\<^sup>* ?s (?s\<lparr>peerHeap := foldl (\<lambda>ph p. ph[p := fst (push_notify msg (ph ! p))]) (peerHeap ?s) ps\<rparr>)" by (rule Cons.IH)
  finally show ?case by (simp add: set_peer_def)
qed simp

lemma BroadcastNotify_accounts: "accounts1\<^sup>*\<^sup>* s (BroadcastNotify room msg ex s)"
  using foldl_accounts by (simp add: BroadcastNotify_def Let_def)

lemma forward_accounts: "accounts1\<^sup>*\<^sup>* s (fst (forwardPeerPing cd p payload s))" "accounts1\<^sup>*\<^sup>* s (fst (forwardPeerPong cd p payload s))"
  by (simp_all add: forwardPeerPing_def forwardPeerPong_def Let_def SendNotify_accounts split: sum.splits)

lemma controlMessage_accounts: "accounts1\<^sup>*\<^sup>* (ss_store st) (ss_store (controlMessage cd wr p typ payload st))"
  using forward_accounts [of "ss_store st" cd p payload]
  by (auto simp: controlMessage_def Let_def split: option.splits prod.splits)

lemma drained:
  "chan_buf (p_Frames (peerHeap s ! p)) = f # fs \<Longrightarrow>
     accounts1\<^sup>*\<^sup>* s (set_peer p ((peerHeap s ! p)\<lparr>p_Frames := (p_Frames (peerHeap s ! p))\<lparr>chan_buf := fs\<rparr>\<rparr>) s)"
  "chan_buf (p_Notify (peerHeap s ! p)) = f # fs \<Longrightarrow>
     accounts1\<^sup>*\<^sup>* s (set_peer p ((peerHeap s ! p)\<lparr>p_Notify := (p_Notify (peerHeap s ! p))\<lparr>chan_buf := fs\<rparr>\<rparr>) s)"
  by (rule account_star, erule drain drain_notify)+

lemma sessionEvent_accounts:
  assumes "\<not> frame_event ev"
  shows "case sessionEvent cd wr dwr p ev st of Running st' \<Rightarrow> accounts1\<^sup>*\<^sup>* (ss_store st) (ss_store st')
    | Ended e st' \<Rightarrow> ss_store st' = ss_store st | Panicked \<Rightarrow> False"
  using assms controlMessage_accounts drained [of "ss_store st" p]
  by (cases ev) (auto simp: sessionEvent_def loopHead_def frame_event_def Let_def split: list.splits prod.splits option.splits)

lemma sessionEvent_running:
  "\<not> frame_event ev \<Longrightarrow> sessionEvent cd wr dwr p ev st = Running st' \<Longrightarrow> accounts1\<^sup>*\<^sup>* (ss_store st) (ss_store st')"
  and sessionEvent_ended: "\<not> frame_event ev \<Longrightarrow> sessionEvent cd wr dwr p ev st = Ended e st' \<Longrightarrow> ss_store st' = ss_store st"
  using sessionEvent_accounts [where cd = cd and wr = wr and dwr = dwr and p = p and ev = ev and st = st] by simp_all

section \<open>Members and sessions\<close>

text \<open>The registered peers, and those that a connection will remove when it ends.\<close>

definition members :: "Store \<Rightarrow> peerref set" where
  "members s = (\<Union>k < length (roomHeap s). live (roomHeap s ! k))"

fun conn_held :: "('w, 'd) conn \<Rightarrow> peerref multiset" where
  "conn_held (Registered p join w) = {#p#}"
| "conn_held (Greeting p join snap w) = {#p#}"
| "conn_held (Serving p st job) = {#p#}"
| "conn_held (Leaving p) = {#p#}"
| "conn_held _ = {#}"

fun conn_jobs :: "('w, 'd) conn \<Rightarrow> job multiset" where
  "conn_jobs (Joining join opts w) = {#JGet (jr_Room join) opts#}"
| "conn_jobs (Adding join opts room w) = {#JAdd (jr_Room join) opts room#}"
| "conn_jobs (Serving p st (Some (t # ts, payload))) = {#JSend (t # ts) payload#}"
| "conn_jobs (Closing p room emptied) = {#JClose p room emptied#}"
| "conn_jobs (Deleting room) = {#JDelete room#}"
| "conn_jobs _ = {#}"

definition all_of :: "('c \<Rightarrow> 'a multiset) \<Rightarrow> 'c list \<Rightarrow> 'a multiset" where
  "all_of f cs = sum_list (map f cs)"

lemma all_of_simps [simp]: "all_of f [] = {#}" "all_of f (cs @ [c]) = f c + all_of f cs"
  by (simp_all add: all_of_def)

lemma all_of_update:
  assumes "i < length cs"
  obtains R where "all_of f cs = f (cs ! i) + R" and "\<And>c. all_of f (cs[i := c]) = f c + R"
proof
  let ?R = "sum_list (map f (take i cs)) + sum_list (map f (drop (Suc i) cs))"
  show "all_of f cs = f (cs ! i) + ?R"
    by (subst id_take_nth_drop [OF assms]) (simp add: all_of_def)
  show "all_of f (cs[i := c]) = f c + ?R" for c
    by (simp add: upd_conv_take_nth_drop assms all_of_def)
qed

definition serv_inv :: "Prefix \<Rightarrow> ('w, 'd) Serv \<Rightarrow> bool" where
  "serv_inv pool v \<longleftrightarrow> relay_reach pool (sv_store v) (all_of conn_jobs (sv_conns v)) (sv_panic v)
     \<and> all_of conn_held (sv_conns v) = mset_set (members (sv_store v))"

lemma serv_inv_moves:
  assumes "serv_inv pool v" and "i < length (sv_conns v)"
    and "\<And>M. relay_reach pool (sv_store v) (conn_jobs (sv_conns v ! i) + M) (sv_panic v) \<Longrightarrow> relay_reach pool s (conn_jobs c + M) (sv_panic v')"
    and "\<And>H. conn_held (sv_conns v ! i) + H = mset_set (members (sv_store v)) \<Longrightarrow> conn_held c + H = mset_set (members s)"
    and "sv_conns v' = sv_conns v"
  shows "serv_inv pool (moves i s c v')"
proof -
  obtain M where M: "all_of conn_jobs (sv_conns v) = conn_jobs (sv_conns v ! i) + M" "all_of conn_jobs ((sv_conns v)[i := c]) = conn_jobs c + M"
    using all_of_update [OF assms(2), of conn_jobs] by metis
  obtain H where H: "all_of conn_held (sv_conns v) = conn_held (sv_conns v ! i) + H" "all_of conn_held ((sv_conns v)[i := c]) = conn_held c + H"
    using all_of_update [OF assms(2), of conn_held] by metis
  show ?thesis using assms(1,5) assms(3) [of M] assms(4) [of H] by (simp add: serv_inv_def moves_def M H)
qed

text \<open>What the sections do to the members.\<close>

lemma members_finite: "store_inv s \<Longrightarrow> finite (members s)"
proof -
  assume inv: "store_inv s"
  have "p < length (peerHeap s)" if "k < length (roomHeap s)" "p \<in> live (roomHeap s ! k)" for k p
    using live_room [OF store_room_inv [OF inv that(1)] that(2)] by simp
  then have "members s \<subseteq> {..<length (peerHeap s)}" by (auto simp: members_def)
  then show ?thesis by (rule finite_subset) simp
qed

lemma members_roomHeap: "roomHeap s' = roomHeap s \<Longrightarrow> members s' = members s"
  by (simp add: members_def)

lemma members_set_peer [simp]: "members (set_peer p q s) = members s"
  by (rule members_roomHeap) (simp add: set_peer_def)

lemma members_accounts: "accounts1\<^sup>*\<^sup>* s s' \<Longrightarrow> members s' = members s"
proof (induction rule: rtranclp_induct)
  case (step t u)
  then obtain p q where "u = set_peer p q t" unfolding accounts1_def by blast
  then show ?case using step.IH by simp
qed simp

lemma members_get:
  assumes "store_inv s" and "getOrCreateRoom name now s = (s', res)"
  shows "members s' = members s"
  using store_invD(1) [OF assms(1)]
proof (cases rule: getOrCreateRoom_cases [of s name now])
  case (created m1 idx)
  have "live (freshRoom name now (m_pool (mgr s)) idx) = {}" by (simp add: live_def freshRoom_def)
  then show ?thesis using created assms(2) by (auto simp: members_def nth_append less_Suc_eq split: if_splits)
qed (use assms(2) in auto)

lemma members_add:
  assumes "store_inv s" and "room < length (roomHeap s)" and "fresh_draw (roomHeap s ! room) (the_opt opts) d"
    and "AddPeer room opts d s = (s', Inr p)"
  shows "members s' = insert p (members s)" and "p \<notin> members s"
proof -
  note A = join_added [OF assms]
  obtain r ph where "s' = s\<lparr>roomHeap := (roomHeap s)[room := r], peerHeap := ph\<rparr>" using A(3) by blast
  then have "roomHeap s' = (roomHeap s)[room := r]" by simp
  then show "members s' = insert p (members s)"
    using A(2) assms(2) by (auto simp: members_def nth_update_any split: if_splits)
  have "p \<notin> live (roomHeap s ! k)" if "k < length (roomHeap s)" for k
    using live_room [OF store_room_inv [OF assms(1) that], of p] A(1) by auto
  then show "p \<notin> members s" by (auto simp: members_def)
qed

lemma member_place:
  assumes "store_inv s" and "p \<in> members s"
  shows "p_Room (peerHeap s ! p) < length (roomHeap s)" and "p \<in> live (roomHeap s ! p_Room (peerHeap s ! p))" and "p < length (peerHeap s)"
proof -
  obtain k where "k < length (roomHeap s)" "p \<in> live (roomHeap s ! k)" using assms(2) by (auto simp: members_def)
  moreover have "p_Room (peerHeap s ! p) = k \<and> p < length (peerHeap s)" using live_room [OF store_room_inv [OF assms(1)]] calculation by blast
  ultimately show "p_Room (peerHeap s ! p) < length (roomHeap s)" "p \<in> live (roomHeap s ! p_Room (peerHeap s ! p))" "p < length (peerHeap s)"
    by simp_all
qed

lemma members_remove:
  assumes "store_inv s" and "p \<in> members s" and "removePeerLocked p (p_Room (peerHeap s ! p)) s = (s', res)"
  shows "res \<noteq> None" and "members s' = members s - {p}"
proof -
  note P = member_place [OF assms(1,2)]
  have "res \<noteq> None \<and> members s' = members s - {p}"
    using assms(1) P(1)
  proof (cases rule: removePeerLocked_cases [of s "p_Room (peerHeap s ! p)" p])
    case absent
    then show ?thesis using live_lookup [OF store_room_inv [OF assms(1) P(1)] P(2)] by simp
  next
    case (removed r')
    then have "s' = s\<lparr>roomHeap := (roomHeap s)[p_Room (peerHeap s ! p) := r']\<rparr>" "res \<noteq> None" using assms(3) by simp_all
    moreover have "p \<notin> live (roomHeap s ! k)" if "k < length (roomHeap s)" "k \<noteq> p_Room (peerHeap s ! p)" for k
      using live_room [OF store_room_inv [OF assms(1) that(1)], of p] that by auto
    ultimately show ?thesis using removed(7) P(1) by (auto simp: members_def nth_update_any split: if_splits)
  qed
  then show "res \<noteq> None" "members s' = members s - {p}" by simp_all
qed

lemma members_delete:
  assumes "store_inv s" and "room < length (roomHeap s)"
  shows "members (deleteEmptyRoom room s) = members s"
  using assms
proof (cases rule: deleteEmptyRoom_cases)
  case deleted
  then show ?thesis by (auto simp: members_def nth_update_any live_closed split: if_splits)
qed simp

section \<open>Every step\<close>

lemma openWith_accounts:
  shows openWith_running: "openWith cd wr dwr opened h join p snap w d0 s = Running st \<Longrightarrow> accounts1\<^sup>*\<^sup>* s (ss_store st)"
    and openWith_ended: "openWith cd wr dwr opened h join p snap w d0 s = Ended e st \<Longrightarrow> ss_store st = s"
  by (auto simp: openWith_def Let_def BroadcastNotify_accounts split: prod.splits option.splits sum.splits)

lemma Forward_error: "Forward k p payload t = Some (s', Inl e) \<Longrightarrow> s' = t"
  by (auto simp: forward_defs split: option.splits if_splits)

lemma frameHead_cases:
  assumes "frameHead now p payload (cap, s) = Some (cap', s', ts)"
  obtains (dropped) "ts = []" and "accounts1\<^sup>*\<^sup>* s s'"
  | (forwarded) t where "accounts1\<^sup>*\<^sup>* s t" and "Forward (p_Room (peerHeap s ! p)) p payload t = Some (s', Inr ts)"
proof -
  let ?q = "peerHeap s ! p" and ?n = "length payload"
  let ?s1 = "set_peer p (fst (AllowFrame ?n now ?q)) s"
  let ?s2 = "set_peer_with (RecordRxFrame ?n) p ?s1"
  have a1: "accounts1\<^sup>*\<^sup>* s ?s1" by (rule account_star) (rule allow)
  have a2: "accounts1\<^sup>*\<^sup>* s ?s2" by (rule rtranclp_trans [OF a1]) (rule accounts_with, rule rx)
  have d: "accounts1\<^sup>*\<^sup>* t (set_peer_with (RecordDropFrame ?n) p t)" for t by (rule accounts_with) (rule account.dropped)
  have "ts = [] \<and> accounts1\<^sup>*\<^sup>* s s' \<or> Forward (p_Room ?q) p payload ?s2 = Some (s', Inr ts)"
    using assms rtranclp_trans [OF a1 d] rtranclp_trans [OF a2 d]
    by (auto simp: frameHead_def Let_def split: prod.splits option.splits sum.splits if_splits dest: Forward_error)
  then show thesis using that a2 by blast
qed

lemma serv_inv_accounts:
  assumes "serv_inv pool v" and "i < length (sv_conns v)" and "accounts1\<^sup>*\<^sup>* (sv_store v) s"
    and "conn_jobs c = conn_jobs (sv_conns v ! i)" and "conn_held c = conn_held (sv_conns v ! i)"
    and "sv_conns v' = sv_conns v" and "sv_panic v' = sv_panic v"
  shows "serv_inv pool (moves i s c v')"
  using assms(1,2)
proof (rule serv_inv_moves)
  show "relay_reach pool (sv_store v) (conn_jobs (sv_conns v ! i) + M) (sv_panic v) \<Longrightarrow> relay_reach pool s (conn_jobs c + M) (sv_panic v')" for M
    using accounts_reach [OF assms(3)] assms(4,7) by simp
qed (use members_accounts [OF assms(3)] assms(5,6) in simp_all)

lemma relay_send:
  assumes "relay_reach pool s (add_mset (JSend (t # ts) payload) M) b" and "Enqueue payload (peerHeap s ! t) = Some (q, ok)"
  shows "relay_reach pool (set_peer t q s) (conn_jobs (Serving p st (Some (ts, payload))) + M) b"
proof -
  have r: "relay_reach pool (set_peer t q s) (mset [JSend ts payload] + M) b"
    by (rule relay_replace [OF assms(1)]) (use relay_step.send [OF assms(2)] in simp)
  show ?thesis
  proof (cases ts)
    case Nil
    then have "relay_reach pool (set_peer t q s) (mset [] + M) b"
      using r by (intro relay_replace [of pool "set_peer t q s" "JSend [] payload" M b]) (use relay_step.sent in simp_all)
    then show ?thesis using Nil by simp
  qed (use r in simp)
qed

lemma relay_forward:
  assumes "relay_reach pool s M b" and "pool_ok pool" and "p < length (peerHeap s)"
    and "frameHead now p payload (cap, s) = Some (cap', s', ts)"
  shows "relay_reach pool s' (conn_jobs (Serving p st (Some (ts, payload))) + M) b \<and> members s' = members s"
  using assms(4)
proof (cases rule: frameHead_cases)
  case dropped
  then show ?thesis using accounts_reach [OF dropped(2) assms(1)] members_accounts [OF dropped(2)] by simp
next
  case (forwarded t)
  have same: "length (peerHeap t) = length (peerHeap s) \<and> p_Room (peerHeap t ! p) = p_Room (peerHeap s ! p)"
    using forwarded(1)
  proof (induction rule: rtranclp_induct)
    case (step u w)
    then obtain x y where "account (peerHeap u ! x) y" "w = set_peer x y u" unfolding accounts1_def by blast
    then show ?case using step.IH account_same by (auto simp: set_peer_def nth_update_any same_peer_def)
  qed simp
  have r: "relay_reach pool t M b" using accounts_reach [OF forwarded(1) assms(1)] .
  note inv = relay_inv [OF r assms(2)]
  have "p_Room (peerHeap s ! p) < length (roomHeap t)" using inv(2) same assms(3) by (metis peers_placed_def)
  then have t: "s' = t" "members t = members s"
    using Forward_targets(1) [OF inv(1) _ forwarded(2)] members_accounts [OF forwarded(1)] by simp_all
  show ?thesis
  proof (cases ts)
    case (Cons x xs)
    have "relay_reach pool t (mset [JSend ts payload] + M) b"
      using r by (rule relay_start) (use relay_step.forward [of p t _ payload s' ts] forwarded(2) same assms(3) t(1) in simp)
    then show ?thesis using Cons t by simp
  qed (use t r in simp)
qed

lemma serv_inv_quiet:
  assumes "serv_inv pool v" and "i < length (sv_conns v)"
    and "conn_jobs c = conn_jobs (sv_conns v ! i)" and "conn_held c = conn_held (sv_conns v ! i)"
  shows "serv_inv pool (moves i (sv_store v) c v)"
  using assms by (intro serv_inv_accounts [of pool v]) simp_all

text \<open>A section that replaces one call of the relay and leaves the members as they are.\<close>

lemma serv_inv_call:
  assumes "serv_inv pool v" and "i < length (sv_conns v)" and "conn_jobs (sv_conns v ! i) = {#j#}" and "conn_jobs c = mset new"
    and "\<And>js js'. relay_step \<lparr>sys_store = sv_store v, sys_jobs = js @ j # js', sys_panic = sv_panic v\<rparr>
           \<lparr>sys_store = s, sys_jobs = js @ new @ js', sys_panic = sv_panic v\<rparr>"
    and "conn_held c = conn_held (sv_conns v ! i)" and "members s = members (sv_store v)"
  shows "serv_inv pool (moves i s c v)"
  using assms(1,2)
proof (rule serv_inv_moves)
  show "relay_reach pool s (conn_jobs c + M) (sv_panic v)"
    if "relay_reach pool (sv_store v) (conn_jobs (sv_conns v ! i) + M) (sv_panic v)" for M
    using relay_replace [of pool "sv_store v" j M "sv_panic v" s new "sv_panic v"] assms(5) that by (simp add: assms(3,4))
qed (use assms(6,7) in simp_all)

lemma serv_invD:
  assumes "serv_inv pool v" and "pool_ok pool"
  shows "store_inv (sv_store v)" and "peers_placed (sv_store v)"
    and "\<And>i j. i < length (sv_conns v) \<Longrightarrow> j \<in># conn_jobs (sv_conns v ! i) \<Longrightarrow> job_ok (sv_store v) j"
    and "\<And>i p. i < length (sv_conns v) \<Longrightarrow> p \<in># conn_held (sv_conns v ! i) \<Longrightarrow> p \<in> members (sv_store v)"
proof -
  have r: "relay_reach pool (sv_store v) (all_of conn_jobs (sv_conns v)) (sv_panic v)"
    and h: "all_of conn_held (sv_conns v) = mset_set (members (sv_store v))" using assms(1) by (simp_all add: serv_inv_def)
  note I = relay_inv [OF r assms(2)]
  show "store_inv (sv_store v)" "peers_placed (sv_store v)" using I by simp_all
  show "job_ok (sv_store v) j" if "i < length (sv_conns v)" "j \<in># conn_jobs (sv_conns v ! i)" for i j
    using I(3) that by (metis all_of_update union_iff)
  show "p \<in> members (sv_store v)" if "i < length (sv_conns v)" "p \<in># conn_held (sv_conns v ! i)" for i p
  proof -
    have "p \<in># all_of conn_held (sv_conns v)" using that by (metis all_of_update union_iff)
    then show ?thesis using h members_finite [OF I(1)] by simp
  qed
qed

lemma serv_inv_add:
  assumes "serv_inv pool v" and "pool_ok pool" and "i < length (sv_conns v)" and "sv_conns v ! i = Adding join opts room w"
    and "fresh_draw (roomHeap (sv_store v) ! room) (the_opt opts) d" and "AddPeer room opts d (sv_store v) = (s, Inr p)"
  shows "serv_inv pool (moves i s (Registered p join w) v)"
  using assms(1,3)
proof (rule serv_inv_moves)
  note D = serv_invD [OF assms(1,2)]
  have room: "room < length (roomHeap (sv_store v))" using D(3) [OF assms(3), of "JAdd (jr_Room join) opts room"] assms(4) by simp
  note A = members_add [OF D(1) room assms(5,6)]
  show "relay_reach pool s (conn_jobs (Registered p join w) + M) (sv_panic v)"
    if "relay_reach pool (sv_store v) (conn_jobs (sv_conns v ! i) + M) (sv_panic v)" for M
    using relay_replace [of pool "sv_store v" "JAdd (jr_Room join) opts room" M "sv_panic v" s "[]" "sv_panic v"]
      relay_step.add [OF assms(6,5)] that assms(4) by simp
  show "conn_held (Registered p join w) + H = mset_set (members s)"
    if "conn_held (sv_conns v ! i) + H = mset_set (members (sv_store v))" for H
    using that A assms(4) members_finite [OF D(1)] by simp
qed simp

lemma serv_inv_remove:
  assumes "serv_inv pool v" and "pool_ok pool" and "i < length (sv_conns v)" and "sv_conns v ! i = Leaving p"
    and "removePeerLocked p (p_Room (peerHeap (sv_store v) ! p)) (sv_store v) = (s, res)"
  shows "\<exists>emptied. res = Some emptied \<and> serv_inv pool (moves i s (Closing p (p_Room (peerHeap (sv_store v) ! p)) emptied) v)"
proof -
  let ?r = "p_Room (peerHeap (sv_store v) ! p)"
  note D = serv_invD [OF assms(1,2)]
  have p: "p \<in> members (sv_store v)" using D(4) [OF assms(3)] assms(4) by simp
  note R = members_remove [OF D(1) p assms(5)]
  then obtain emptied where e: "res = Some emptied" by blast
  have "serv_inv pool (moves i s (Closing p ?r emptied) v)"
    using assms(1,3)
  proof (rule serv_inv_moves)
    show "relay_reach pool s (conn_jobs (Closing p ?r emptied) + M) (sv_panic v)"
      if "relay_reach pool (sv_store v) (conn_jobs (sv_conns v ! i) + M) (sv_panic v)" for M
      using relay_start [of pool "sv_store v" M "sv_panic v" s "[JClose p ?r emptied]"] that assms(4,5) e
        relay_step.remove [of p "sv_store v" ?r s emptied] member_place(3) [OF D(1) p] by simp
    show "conn_held (Closing p ?r emptied) + H = mset_set (members s)"
      if "conn_held (sv_conns v ! i) + H = mset_set (members (sv_store v))" for H
    proof -
      have "mset_set (members s) = mset_set (members (sv_store v)) - {#p#}"
        using R(2) p members_finite [OF D(1)] by (simp add: mset_set_Diff)
      then show ?thesis using that assms(4) by (simp flip: that)
    qed
  qed simp
  then show ?thesis using e by blast
qed

text \<open>The sections that need more than one of these rules.\<close>

lemma serv_inv_requested:
  assumes "serv_inv pool v" and "i < length (sv_conns v)" and "sv_conns v ! i = Reading w"
  shows "serv_inv pool (moves i (sv_store v) (Joining join opts w) v)"
proof -
  have "relay_reach pool (sv_store v) (conn_jobs (Joining join opts w) + M) (sv_panic v)"
    if "relay_reach pool (sv_store v) M (sv_panic v)" for M
    using relay_start [OF that, of "sv_store v" "[JGet (jr_Room join) opts]"] relay_step.join by simp
  then show ?thesis using assms(2,3) by (auto intro!: serv_inv_moves [OF assms(1)])
qed

lemma adding_room:
  assumes "serv_inv pool v" and "pool_ok pool" and "i < length (sv_conns v)" and "sv_conns v ! i = Adding join opts room w"
  shows "room < length (roomHeap (sv_store v))"
  using serv_invD(3) [OF assms(1-3), of "JAdd (jr_Room join) opts room"] assms(4) by simp

lemma serv_inv_refused:
  assumes "serv_inv pool v" and "pool_ok pool" and "i < length (sv_conns v)" and "sv_conns v ! i = Adding join opts room w"
    and "fresh_draw (roomHeap (sv_store v) ! room) (the_opt opts) d" and "AddPeer room opts d (sv_store v) = (s, Inl e)"
  shows "serv_inv pool (moves i s (if e = ErrRoomClosed then Joining join opts w else Gone) v)"
proof -
  have "s = sv_store v" using AddPeer_failed [OF serv_invD(1) [OF assms(1,2)] adding_room [OF assms(1-4)] assms(5,6)] by simp
  then show ?thesis
    using assms(3-6) relay_step.add [OF assms(6,5)] relay_step.add_retry [of room opts d]
    by (auto intro!: serv_inv_call [OF assms(1), where new = "if e = ErrRoomClosed then [JGet (jr_Room join) opts] else []"])
qed

lemma event_accounts:
  "\<not> frame_event ev \<Longrightarrow> sessionEvent cd wr dwr p ev (plug v st) = Running st' \<Longrightarrow> accounts1\<^sup>*\<^sup>* (sv_store v) (ss_store st')"
  using sessionEvent_running [of ev cd wr dwr p "plug v st" st'] by (simp add: plug_def)

lemma straggler_event: "\<not> main_event ev \<Longrightarrow> \<not> frame_event ev"
  by (auto simp: main_event_def frame_event_def split: session_event.splits)

lemma serving_jobs: "conn_jobs (Serving p st' job) = conn_jobs (Serving p st job)"
  by (cases "Serving p st' job" rule: conn_jobs.cases) auto

lemma serv_inv_ended:
  assumes "serv_inv pool v" and "i < length (sv_conns v)" and "sv_conns v ! i = Serving p st None" and "\<not> frame_event ev"
    and "sessionEvent cd wr dwr p ev (plug v st) = Ended e st'"
  shows "serv_inv pool (moves i (ss_store st') (Leaving p) (v\<lparr>sv_conns := sv_conns v @ [Straggling p st'], sv_capture := ss_capture st'\<rparr>))"
proof -
  let ?v = "v\<lparr>sv_conns := sv_conns v @ [Straggling p st'], sv_capture := ss_capture st'\<rparr>"
  have "ss_store st' = sv_store v" using sessionEvent_ended [OF assms(4,5)] by (simp add: plug_def)
  moreover have "serv_inv pool ?v" using assms(1) by (simp add: serv_inv_def)
  ultimately show ?thesis using serv_inv_quiet [of pool ?v i "Leaving p"] assms(2,3) by (simp add: nth_append)
qed

lemma serv_inv_framed:
  assumes "serv_inv pool v" and "pool_ok pool" and "i < length (sv_conns v)" and "sv_conns v ! i = Serving p st None"
    and "frameHead now p payload (sv_capture v, sv_store v) = Some (cap, s, targets)"
  shows "serv_inv pool (moves i s (Serving p st' (Some (targets, payload))) (v\<lparr>sv_capture := cap\<rparr>))"
proof -
  note D = serv_invD [OF assms(1,2)]
  have "p < length (peerHeap (sv_store v))" using member_place(3) [OF D(1) D(4)] assms(3,4) by fastforce
  note F = relay_forward [OF _ assms(2) this assms(5)]
  have "members s = members (sv_store v)" using F [of "all_of conn_jobs (sv_conns v)" "sv_panic v"] assms(1) unfolding serv_inv_def by blast
  then show ?thesis using assms(3,4) F by (intro serv_inv_moves [OF assms(1)]) auto
qed

lemma serv_inv_send_closed:
  assumes "serv_inv pool v" and "i < length (sv_conns v)" and "sv_conns v ! i = Serving p st (Some (t # ts, payload))"
    and "Enqueue payload (peerHeap (sv_store v) ! t) = None"
  shows "serv_inv pool (moves i (sv_store v) (Serving p st None) (v\<lparr>sv_panic := True\<rparr>))"
proof -
  have "relay_reach pool (sv_store v) M True" if "relay_reach pool (sv_store v) (add_mset (JSend (t # ts) payload) M) (sv_panic v)" for M
    using relay_replace [of pool "sv_store v" _ M "sv_panic v" "sv_store v" "[]" True] relay_step.send_panic [OF assms(4)] that by auto
  then show ?thesis using assms(2,3) by (auto intro!: serv_inv_moves [OF assms(1)])
qed

lemma serv_inv_closed:
  assumes "serv_inv pool v" and "i < length (sv_conns v)" and "sv_conns v ! i = Closing p room emptied"
  shows "serv_inv pool (moves i (set_peer p (closeFrames (peerHeap (sv_store v) ! p)) (sv_store v))
    (if emptied \<and> r_manager (roomHeap (sv_store v) ! room) then Deleting room else Left room) v)"
  using assms(2,3) relay_step.close [of "sv_store v" _ p room emptied]
  by (auto intro!: serv_inv_call [OF assms(1), where new = "if emptied \<and> r_manager (roomHeap (sv_store v) ! room) then [JDelete room] else []"])

lemma deleting_room:
  assumes "serv_inv pool v" and "pool_ok pool" and "i < length (sv_conns v)" and "sv_conns v ! i = Deleting room"
  shows "room < length (roomHeap (sv_store v))"
  using serv_invD(3) [OF assms(1-3), of "JDelete room"] assms(4) by simp

lemma server_step_inv:
  assumes "server_step cd wr dwr h v v'" and "serv_inv pool v" and "pool_ok pool"
  shows "serv_inv pool v'"
proof -
  note get = members_get [OF serv_invD(1) [OF assms(2,3)]] and del = members_delete [OF serv_invD(1) [OF assms(2,3)]]
  note accounts = serv_inv_accounts [OF assms(2)] and call = serv_inv_call [OF assms(2)]
  show ?thesis
    using assms(1)
  proof (cases rule: server_step.cases)
    case (got_room i join opts w now s room)
    then show ?thesis using relay_step.get get by (auto intro!: call [where new = "[JAdd (jr_Room join) opts room]"])
  next
    case (no_room i join opts w now s e)
    then show ?thesis using relay_step.get_error get by (auto intro!: call [where new = "[]"])
  next
    case (greeted i p join snap w opened d0 st)
    then show ?thesis using openWith_running [OF greeted(3)] by (auto intro!: accounts)
  next
    case (not_greeted i p join snap w opened d0 e st)
    then show ?thesis using openWith_ended [OF not_greeted(3)] by (auto intro!: accounts)
  next
    case (served i p st job ev st')
    then show ?thesis using event_accounts [OF served(3,5)] serving_jobs [of p st' job st] by (auto intro!: accounts)
  next
    case (straggled i p st ev st')
    then show ?thesis using event_accounts [OF straggler_event [OF straggled(3)] straggled(4)] by (auto intro!: accounts)
  next
    case (sent i p st t ts payload q ok)
    then show ?thesis using relay_send [where b = "sv_panic v"] by (auto intro!: serv_inv_moves [OF assms(2)])
  next
    case (removed i p room s emptied)
    then show ?thesis using serv_inv_remove [OF assms(2,3)] by fastforce
  next
    case (not_there i p room s)
    then show ?thesis using serv_inv_remove [OF assms(2,3)] by fastforce
  next
    case (deleted i room)
    then show ?thesis using relay_step.delete del deleting_room [OF assms(2,3)] by (auto intro!: call [where new = "[]"])
  next
    case (told i room snap)
    then show ?thesis using BroadcastNotify_accounts by (auto intro!: accounts)
  next
    case (accepted w)
    then show ?thesis using assms(2) by (simp add: serv_inv_def)
  next
    case (refused i join opts room w d s e)
    then show ?thesis using serv_inv_refused [OF assms(2,3)] by blast
  next
    case (closed i p room emptied)
    then show ?thesis using serv_inv_closed [OF assms(2)] by blast
  next
    case (added i join opts room w d s p)
    then show ?thesis using serv_inv_add [OF assms(2,3)] by blast
  next
    case (framed i p st now payload cap s targets)
    then show ?thesis using serv_inv_framed [OF assms(2,3)] by blast
  qed (auto intro!: serv_inv_quiet [OF assms(2)] serv_inv_requested [OF assms(2)] serv_inv_ended [OF assms(2)] serv_inv_send_closed [OF assms(2)])
qed

lemma serv_reachable_inv: "serv_reachable cd wr dwr h pool v \<Longrightarrow> pool_ok pool \<Longrightarrow> serv_inv pool v"
proof (induction rule: serv_reachable.induct)
  case (serv_init cap)
  have "relay_reach pool (NewManager pool) {#} False"
    using reachable.start [of pool] by (auto simp: relay_reach_def init_sys_def)
  then show ?case by (simp add: serv_inv_def init_serv_def members_def NewManager_def)
next
  case (serv_next v v')
  then show ?case by (blast intro: server_step_inv)
qed

end
