(* ===== verification/Server_Lan.thy ===== *)
theory Server_Lan
  imports Server_Refine
begin

text \<open>
  What the server promises, as a specification without rooms, heaps and queues: a LAN is a set
  of members, each in a room with an id, a MAC and an IP address; members come and go one at a
  time. Every step of the server is such a step or leaves the LAN as it is.
\<close>

section \<open>The specification\<close>

record Member =
  mb_Room :: string
  mb_ID :: string
  mb_MAC :: bytes
  mb_IP :: Addr

type_synonym lan = "peerref \<rightharpoonup> Member"

definition admissible :: "lan \<Rightarrow> Member \<Rightarrow> bool" where
  "admissible L m \<longleftrightarrow> validPeerMAC (mb_MAC m)
     \<and> (\<forall>q m'. L q = Some m' \<longrightarrow> mb_IP m' \<noteq> mb_IP m \<and> (mb_Room m' = mb_Room m \<longrightarrow> mb_ID m' \<noteq> mb_ID m \<and> mb_MAC m' \<noteq> mb_MAC m))"

inductive lan_step :: "lan \<Rightarrow> lan \<Rightarrow> bool" where
  lan_idle: "lan_step L L"
| lan_join: "L p = None \<Longrightarrow> admissible L m \<Longrightarrow> lan_step L (L(p \<mapsto> m))"
| lan_leave: "p \<in> dom L \<Longrightarrow> lan_step L (L(p := None))"

definition lan_ok :: "lan \<Rightarrow> bool" where
  "lan_ok L \<longleftrightarrow> (\<forall>p q m m'. L p = Some m \<and> L q = Some m' \<and> p \<noteq> q \<longrightarrow>
     mb_IP m \<noteq> mb_IP m' \<and> (mb_Room m = mb_Room m' \<longrightarrow> mb_ID m \<noteq> mb_ID m' \<and> mb_MAC m \<noteq> mb_MAC m'))"

lemma lan_step_ok: "lan_step L L' \<Longrightarrow> lan_ok L \<Longrightarrow> lan_ok L'"
proof (induction rule: lan_step.induct)
  case (lan_join L p m)
  then show ?case unfolding lan_ok_def admissible_def by (auto split: if_splits; metis)
qed (auto simp: lan_ok_def split: if_splits)

section \<open>Simulation\<close>

text \<open>A system whose steps are steps of a specification has what the specification keeps.\<close>

locale simulation =
  fixes reach :: "'c \<Rightarrow> bool" and first :: "'c \<Rightarrow> bool" and cstep :: "'c \<Rightarrow> 'c \<Rightarrow> bool"
    and abs :: "'c \<Rightarrow> 'a" and astep :: "'a \<Rightarrow> 'a \<Rightarrow> bool"
  assumes reach_induct: "\<And>c Q. reach c \<Longrightarrow> (\<And>c. first c \<Longrightarrow> Q c) \<Longrightarrow> (\<And>c c'. reach c \<Longrightarrow> Q c \<Longrightarrow> cstep c c' \<Longrightarrow> Q c') \<Longrightarrow> Q c"
    and simulates: "\<And>c c'. reach c \<Longrightarrow> cstep c c' \<Longrightarrow> astep (abs c) (abs c')"
begin

lemma inherits:
  assumes "reach c" and "\<And>c. first c \<Longrightarrow> P (abs c)" and "\<And>a b. astep a b \<Longrightarrow> P a \<Longrightarrow> P b"
  shows "P (abs c)"
  using assms(1) by (rule reach_induct) (use assms(2,3) simulates in blast)+

lemma runs:
  assumes "reach c"
  shows "\<exists>c0. first c0 \<and> astep\<^sup>*\<^sup>* (abs c0) (abs c)"
  using assms by (rule reach_induct) (use simulates in \<open>auto intro: rtranclp.rtrancl_into_rtrancl\<close>)

end

section \<open>The LAN of a store\<close>

definition member_of :: "Store \<Rightarrow> peerref \<Rightarrow> Member" where
  "member_of s p =
     (let q = peerHeap s ! p
      in \<lparr>mb_Room = r_name (roomHeap s ! p_Room q), mb_ID = p_ID q, mb_MAC = p_MAC q, mb_IP = p_IP q\<rparr>)"

definition lan_of :: "Store \<Rightarrow> lan" where
  "lan_of s p = (if p \<in> members s then Some (member_of s p) else None)"

lemma lan_of_cong:
  assumes "members s' = members s" and "\<And>p. p \<in> members s \<Longrightarrow> member_of s' p = member_of s p"
  shows "lan_of s' = lan_of s"
  using assms by (auto simp: lan_of_def)

lemma member_of_peer: "roomHeap s' = roomHeap s \<Longrightarrow> same_peer (peerHeap s ! p) (peerHeap s' ! p) \<Longrightarrow> member_of s' p = member_of s p"
  by (simp add: member_of_def same_peer_def Let_def)

lemma lan_set_peer:
  assumes "p_ID q = p_ID (peerHeap s ! p)" "p_Room q = p_Room (peerHeap s ! p)" "p_IP q = p_IP (peerHeap s ! p)" "p_MAC q = p_MAC (peerHeap s ! p)"
  shows "lan_of (set_peer p q s) = lan_of s"
proof (rule lan_of_cong)
  show "member_of (set_peer p q s) x = member_of s x" for x
    using assms by (auto simp: member_of_def set_peer_def nth_update_any Let_def)
qed simp

lemma accounts_same:
  assumes "accounts1\<^sup>*\<^sup>* s s'"
  shows "roomHeap s' = roomHeap s \<and> same_peer (peerHeap s ! p) (peerHeap s' ! p) \<and> (store_inv s \<longrightarrow> store_inv s')"
  using assms
proof (induction rule: rtranclp_induct)
  case (step t u)
  then obtain x y where u: "account (peerHeap t ! x) y" "u = set_peer x y t" unfolding accounts1_def by blast
  have "same_peer (peerHeap t ! p) (peerHeap u ! p)" using account_same [OF u(1)] u(2) by (cases "x = p") (auto simp: set_peer_def nth_update_any same_peer_def)
  moreover have "store_inv t \<longrightarrow> store_inv u" using same_peer_update [of t x y] account_same [OF u(1)] u(2) by (simp add: set_peer_def)
  ultimately show ?case using step.IH u(2) by (auto simp: set_peer_def same_peer_def)
qed simp

lemma lan_accounts: "accounts1\<^sup>*\<^sup>* s s' \<Longrightarrow> lan_of s' = lan_of s"
  by (rule lan_of_cong) (auto simp: members_accounts intro!: member_of_peer dest: accounts_same)

lemma frameHead_accounts:
  assumes "store_inv s" and "p \<in> members s" and "frameHead now p payload (cap, s) = Some (cap', s', ts)"
  shows "accounts1\<^sup>*\<^sup>* s s'"
  using assms(3)
proof (cases rule: frameHead_cases)
  case (forwarded t)
  have "p_Room (peerHeap s ! p) < length (roomHeap t)" "store_inv t"
    using accounts_same [OF forwarded(1)] member_place(1) [OF assms(1,2)] assms(1) by simp_all
  then show ?thesis using Forward_targets(1) [OF _ _ forwarded(2)] forwarded(1) by simp
qed

lemma lan_get:
  assumes "store_inv s" and "getOrCreateRoom name now s = (s', res)"
  shows "lan_of s' = lan_of s"
proof (rule lan_of_cong)
  show "members s' = members s" using members_get [OF assms] .
  show "member_of s' p = member_of s p" if "p \<in> members s" for p
    using store_invD(1) [OF assms(1)]
  proof (cases rule: getOrCreateRoom_cases [of s name now])
    case (created m1 idx)
    then show ?thesis using assms(2) member_place(1) [OF assms(1) that] by (auto simp: member_of_def nth_append)
  qed (use assms(2) in auto)
qed

lemma lan_delete:
  assumes "store_inv s" and "room < length (roomHeap s)"
  shows "lan_of (deleteEmptyRoom room s) = lan_of s"
proof (rule lan_of_cong)
  show "members (deleteEmptyRoom room s) = members s" using members_delete [OF assms] .
  show "member_of (deleteEmptyRoom room s) p = member_of s p" for p
    using assms by (cases rule: deleteEmptyRoom_cases) (auto simp: member_of_def nth_update_any Let_def)
qed

text \<open>The members of one room name are in one room.\<close>

lemma member_room_name:
  assumes "store_inv s" and "p \<in> members s" and "q \<in> members s"
    and "r_name (roomHeap s ! p_Room (peerHeap s ! p)) = r_name (roomHeap s ! p_Room (peerHeap s ! q))"
  shows "p_Room (peerHeap s ! p) = p_Room (peerHeap s ! q)"
proof -
  have "registered s (p_Room (peerHeap s ! x))" if "x \<in> members s" for x
  proof -
    note P = member_place [OF assms(1) that]
    show ?thesis using store_invD(5) [OF assms(1) P(1)] member_open [OF assms(1) P(1,2)] unfolding room_ok_def Let_def by blast
  qed
  then have "map_of (m_rooms (mgr s)) (r_name (roomHeap s ! p_Room (peerHeap s ! x))) = Some (p_Room (peerHeap s ! x))"
    if "x \<in> members s" for x using that by (simp add: registered_def)
  from this [OF assms(2)] this [OF assms(3)] show ?thesis unfolding assms(4) by simp
qed

lemma lan_of_ok:
  assumes "store_inv s"
  shows "lan_ok (lan_of s)"
proof -
  have "mb_IP (member_of s p) \<noteq> mb_IP (member_of s q)
    \<and> (mb_Room (member_of s p) = mb_Room (member_of s q) \<longrightarrow> mb_ID (member_of s p) \<noteq> mb_ID (member_of s q) \<and> mb_MAC (member_of s p) \<noteq> mb_MAC (member_of s q))"
    if "p \<in> members s" "q \<in> members s" "p \<noteq> q" for p q
  proof -
    note P = member_place [OF assms that(1)] and Q = member_place [OF assms that(2)]
    have ip: "p_IP (peerHeap s ! p) \<noteq> p_IP (peerHeap s ! q)" using member_ip_inj [OF assms P(1,2) Q(1,2)] that(3) by blast
    have "p_ID (peerHeap s ! p) \<noteq> p_ID (peerHeap s ! q) \<and> p_MAC (peerHeap s ! p) \<noteq> p_MAC (peerHeap s ! q)"
      if same: "p_Room (peerHeap s ! p) = p_Room (peerHeap s ! q)"
    proof -
      note R = store_room_inv [OF assms P(1)]
      have q: "q \<in> live (roomHeap s ! p_Room (peerHeap s ! p))" using Q(2) same by simp
      have "p_MAC (peerHeap s ! p) \<noteq> p_MAC (peerHeap s ! q)"
        using R P(2) q \<open>p \<noteq> q\<close> unfolding room_inv_def mac_ok_def by (metis option.inject)
      then show ?thesis using live_id_inj [OF R] P(2) q \<open>p \<noteq> q\<close> by (auto dest: inj_onD)
    qed
    then show ?thesis using ip member_room_name [OF assms that(1,2)] by (auto simp: member_of_def Let_def)
  qed
  then show ?thesis by (auto simp: lan_ok_def lan_of_def split: if_splits)
qed

lemma lan_add:
  assumes "store_inv s" and "room < length (roomHeap s)" and "fresh_draw (roomHeap s ! room) (the_opt opts) d"
    and "AddPeer room opts d s = (s', Inr p)"
  shows "lan_step (lan_of s) (lan_of s')"
proof -
  note A = join_added [OF assms] and M = members_add [OF assms]
  have inv: "store_inv s'" using AddPeer_inv [OF assms] .
  obtain r q where s': "s' = s\<lparr>roomHeap := (roomHeap s)[room := r], peerHeap := peerHeap s @ [q]\<rparr>" "r_name r = r_name (roomHeap s ! room)"
    using A(3) allocateHost_frame by (fastforce simp: joined_def)
  have old: "member_of s' x = member_of s x" if "x \<in> members s" for x
    using member_place(3) [OF assms(1) that] s' by (auto simp: member_of_def nth_append nth_update_any Let_def)
  have eq: "lan_of s' = (lan_of s)(p \<mapsto> member_of s' p)" using M old by (auto simp: lan_of_def fun_eq_iff)
  have "p \<in> members s'" using M(1) by simp
  note P = member_place [OF inv this]
  have "validPeerMAC (p_MAC (peerHeap s' ! p))"
    using store_room_inv [OF inv P(1)] P(2) unfolding room_inv_def peer_ok_def by blast
  then have mac: "validPeerMAC (mb_MAC (member_of s' p))" by (simp add: member_of_def Let_def)
  have "lan_of s q = Some m' \<Longrightarrow> q \<noteq> p \<and> lan_of s' q = Some m'" "lan_of s' p = Some (member_of s' p)" for q m'
    using M(2) by (auto simp: eq lan_of_def split: if_splits)
  then have "admissible (lan_of s) (member_of s' p)"
    using lan_of_ok [OF inv] mac unfolding admissible_def lan_ok_def by blast
  then show ?thesis using M(2) unfolding eq by (auto simp: lan_of_def intro!: lan_join)
qed

lemma lan_remove:
  assumes "store_inv s" and "p \<in> members s" and "removePeerLocked p (p_Room (peerHeap s ! p)) s = (s', res)"
  shows "lan_step (lan_of s) (lan_of s')"
proof -
  note R = members_remove [OF assms] and H = removePeerLocked_heaps [OF assms(3)]
  have "r_name (roomHeap s' ! k) = r_name (roomHeap s ! k)" for k
    using assms(1) member_place(1) [OF assms(1,2)]
  proof (cases rule: removePeerLocked_cases [of s "p_Room (peerHeap s ! p)" p])
    case (removed r')
    then have "s' = s\<lparr>roomHeap := (roomHeap s)[p_Room (peerHeap s ! p) := r']\<rparr>" using assms(3) by simp
    then show ?thesis using removed(5) by (auto simp: nth_update_any same_room_def)
  qed (use assms(3) in simp)
  then have "member_of s' q = member_of s q" for q using H by (simp add: member_of_def Let_def)
  then have "lan_of s' = (lan_of s)(p := None)" using R(2) by (auto simp: lan_of_def fun_eq_iff)
  then show ?thesis using lan_leave [of p "lan_of s"] assms(2) by (simp add: lan_of_def dom_def)
qed

section \<open>The server implements the LAN\<close>

lemma lan_quiet: "lan_of s' = lan_of s \<Longrightarrow> lan_step (lan_of s) (lan_of s')"
  using lan_idle [of "lan_of s"] by simp

lemmas lan_still = lan_quiet [OF lan_accounts] lan_quiet [OF lan_get] lan_quiet [OF lan_delete] lan_quiet [OF lan_set_peer]

lemma lan_close: "lan_of (set_peer p (closeFrames (peerHeap s ! p)) s) = lan_of s"
  by (rule lan_set_peer) (simp_all add: closeFrames_def)

lemma lan_send: "Enqueue frame (peerHeap s ! t) = Some (q, ok) \<Longrightarrow> lan_of (set_peer t q s) = lan_of s"
  using Enqueue_same [of frame "peerHeap s ! t" q ok] by (intro lan_set_peer) (simp_all add: same_peer_def)

lemma server_step_lan:
  assumes "server_step cd wr dwr h v v'" and "serv_inv pool v" and "pool_ok pool"
  shows "lan_step (lan_of (sv_store v)) (lan_of (sv_store v'))"
proof -
  note D = serv_invD [OF assms(2,3)] and room = adding_room [OF assms(2,3)] and m = moves_def
  have held: "p \<in> members (sv_store v)" if "i < length (sv_conns v)" "sv_conns v ! i \<in> {Serving p st job, Leaving p}" for i p st job
    using D(4) [OF that(1), of p] that(2) by auto
  show ?thesis
    using assms(1)
  proof (cases rule: server_step.cases)
    case (got_room i join opts w now s room)
    then show ?thesis using lan_still(2) [OF D(1)] by (simp add: m)
  next
    case (no_room i join opts w now s e)
    then show ?thesis using lan_still(2) [OF D(1)] by (simp add: m)
  next
    case (added i join opts room w d s p)
    then show ?thesis using lan_add [OF D(1) room added(3,4)] by (auto simp: m)
  next
    case (refused i join opts room w d s e)
    then show ?thesis using AddPeer_failed [OF D(1) room refused(3,4)] lan_idle by (auto simp: m)
  next
    case (greeted i p join snap w opened d0 st)
    then show ?thesis using lan_still(1) [OF openWith_running [OF greeted(3)]] by (simp add: m)
  next
    case (not_greeted i p join snap w opened d0 e st)
    then show ?thesis using openWith_ended [OF not_greeted(3)] lan_idle by (simp add: m)
  next
    case (served i p st job ev st')
    then show ?thesis using lan_still(1) [OF event_accounts [OF served(3,5)]] by (simp add: m)
  next
    case (straggled i p st ev st')
    then show ?thesis using lan_still(1) [OF event_accounts [OF straggler_event [OF straggled(3)] straggled(4)]] by (simp add: m)
  next
    case (ended i p st ev e st')
    then show ?thesis using sessionEvent_ended [OF ended(3,4)] lan_idle by (simp add: m plug_def)
  next
    case (framed i p st now payload cap s targets)
    then show ?thesis using lan_still(1) [OF frameHead_accounts [OF D(1) held framed(4)]] by (auto simp: m)
  next
    case (sent i p st t ts payload q ok)
    then show ?thesis using lan_quiet [OF lan_send [OF sent(3)]] by (simp add: m)
  next
    case (removed i p room s emptied)
    then show ?thesis using lan_remove [OF D(1) held] by (auto simp: m)
  next
    case (not_there i p room s)
    then show ?thesis using lan_remove [OF D(1) held] by (auto simp: m)
  next
    case (closed i p room emptied)
    then show ?thesis using lan_quiet [OF lan_close] by (simp add: m)
  next
    case (deleted i room)
    then show ?thesis using lan_still(3) [OF D(1) deleting_room [OF assms(2,3)]] by (auto simp: m)
  next
    case (told i room snap)
    then show ?thesis using lan_still(1) [OF BroadcastNotify_accounts] by (simp add: m)
  qed (simp_all add: m lan_idle)
qed

definition first_serv :: "Prefix \<Rightarrow> ('w, 'd) Serv \<Rightarrow> bool" where
  "first_serv pool v \<longleftrightarrow> (\<exists>cap. v = init_serv pool cap)"

definition serv_running :: "Codec \<Rightarrow> 'w writer \<Rightarrow> 'd writer \<Rightarrow> Handler \<Rightarrow> Prefix \<Rightarrow> ('w, 'd) Serv \<Rightarrow> bool" where
  "serv_running cd wr dwr h pool v \<longleftrightarrow> pool_ok pool \<and> serv_reachable cd wr dwr h pool v"

interpretation served: simulation "serv_running cd wr dwr h pool" "first_serv pool" "server_step cd wr dwr h" "\<lambda>v. lan_of (sv_store v)" lan_step
  for cd wr dwr h pool
proof unfold_locales
  fix c Q
  assume "serv_running cd wr dwr h pool c"
  then have run: "serv_reachable cd wr dwr h pool c" and pool: "pool_ok pool" by (simp_all add: serv_running_def)
  assume first: "\<And>c. first_serv pool c \<Longrightarrow> Q c" and step: "\<And>c c'. serv_running cd wr dwr h pool c \<Longrightarrow> Q c \<Longrightarrow> server_step cd wr dwr h c c' \<Longrightarrow> Q c'"
  show "Q c"
    using run
  proof (induction rule: serv_reachable.induct)
    case (serv_next v v')
    then show ?case using step pool by (simp add: serv_running_def)
  qed (use first in \<open>auto simp: first_serv_def\<close>)
next
  show "lan_step (lan_of (sv_store c)) (lan_of (sv_store c'))"
    if "serv_running cd wr dwr h pool c" "server_step cd wr dwr h c c'" for c c'
    using that server_step_lan [OF _ serv_reachable_inv] unfolding serv_running_def by blast
qed

lemma server_runs:
  fixes v :: "('w, 'd) Serv"
  assumes "serv_reachable cd wr dwr h pool v" and "pool_ok pool"
  shows "lan_step\<^sup>*\<^sup>* Map.empty (lan_of (sv_store v))" and "lan_ok (lan_of (sv_store v))"
proof -
  have start: "lan_of (sv_store c) = Map.empty" if "first_serv pool c" for c :: "('w, 'd) Serv"
    using that by (auto simp: first_serv_def init_serv_def lan_of_def members_def NewManager_def)
  have run: "serv_running cd wr dwr h pool v" using assms by (simp add: serv_running_def)
  show "lan_step\<^sup>*\<^sup>* Map.empty (lan_of (sv_store v))" using served.runs [OF run] start by metis
  show "lan_ok (lan_of (sv_store v))"
    using run
  proof (rule served.inherits)
    show "lan_ok (lan_of (sv_store c))" if "first_serv pool c" for c :: "('w, 'd) Serv" by (simp add: start [OF that] lan_ok_def)
  qed (rule lan_step_ok)
qed

end
