(* ===== verification/Server_Demo.thy ===== *)
theory Server_Demo
  imports Server_Lan
begin

text \<open>
  What the refinement gives for the whole server, and runs of it: the members of the LAN are
  the peers of the open sessions, and an interleaving of a join and a leave after which a
  client is left with the peer list of an earlier moment.
\<close>

section \<open>A run\<close>

lemma serv_join:
  assumes "serv_reachable cd wr dwr h pool \<lparr>sv_store = s, sv_capture = cap, sv_conns = cs, sv_panic = False\<rparr>"
    and "joinRequest cd r = Inr (join, opts)" and "getOrCreateRoom (jr_Room join) now s = (s0, Inr room)"
    and "fresh_draw (roomHeap s0 ! room) (the_opt opts) d" and "AddPeer room opts d s0 = (s', Inr p)"
  shows "serv_reachable cd wr dwr h pool \<lparr>sv_store = s', sv_capture = cap, sv_conns = cs @ [Registered p join w], sv_panic = False\<rparr>"
proof -
  let ?v = "\<lambda>s c. \<lparr>sv_store = s, sv_capture = cap, sv_conns = cs @ [c], sv_panic = False\<rparr>"
  have "server_step cd wr dwr h \<lparr>sv_store = s, sv_capture = cap, sv_conns = cs, sv_panic = False\<rparr> (?v s (Reading w))"
    using accepted [of "\<lparr>sv_store = s, sv_capture = cap, sv_conns = cs, sv_panic = False\<rparr>" cd wr dwr h w] by simp
  moreover have "server_step cd wr dwr h (?v s (Reading w)) (?v s (Joining join opts w))"
    using requested [of "?v s (Reading w)" "length cs" w cd r join opts wr dwr h] assms(2) by (simp add: moves_def)
  moreover have "server_step cd wr dwr h (?v s (Joining join opts w)) (?v s0 (Adding join opts room w))"
    using got_room [of "?v s (Joining join opts w)" "length cs" join opts w now s0 room cd wr dwr h] assms(3) by (simp add: moves_def)
  moreover have "server_step cd wr dwr h (?v s0 (Adding join opts room w)) (?v s' (Registered p join w))"
    using added [of "?v s0 (Adding join opts room w)" "length cs" join opts room w d s' p cd wr dwr h] assms(4,5) by (simp add: moves_def)
  ultimately show ?thesis using assms(1) serv_next by meson
qed

definition toy_opts :: "JoinOptions list" where
  "toy_opts = [\<lparr>opt_DisplayName = ''ann'', opt_RequestedMAC = None, opt_Features = [FeaturePeerLatency]\<rparr>]"

definition toy_codec_for :: "(PeerList \<Rightarrow> string + bytes) \<times> (bytes \<Rightarrow> string + PeerList) \<Rightarrow> Codec" where
  "toy_codec_for pl = toy_codec\<lparr>cd_PeerList := pl\<rparr>"

lemma toy_joinRequest: "joinRequest (toy_codec_for pl) toy_request = Inr (toy_join, toy_opts)"
proof -
  have j: "jr_Version toy_join = Version" "TrimSpace (jr_Room toy_join) = jr_Room toy_join" "jr_Room toy_join \<noteq> ''''"
    "requestedMAC (jr_MAC toy_join) = Some None" "filterSupportedFeatures (jr_Features toy_join) = [FeaturePeerLatency]" "jr_DisplayName toy_join = ''ann''"
    by code_simp+
  have "toy_join\<lparr>jr_Room := jr_Room toy_join\<rparr> = toy_join" by simp
  then show ?thesis using toy_read by (simp add: joinRequest_def toy_codec_for_def toy_opts_def j Let_def)
qed

definition lobby1 :: Store where "lobby1 = fst (AddPeer 0 toy_opts (demo_draw 1) demo0)"
definition lobby2 :: Store where "lobby2 = fst (AddPeer 0 toy_opts (demo_draw 2) lobby1)"
definition lobby3 :: Store where "lobby3 = fst (AddPeer 0 toy_opts (demo_draw 3) lobby2)"
definition lobby_left :: Store where "lobby_left = fst (removePeerLocked 1 0 lobby3)"

definition lobby_peer :: "byte \<Rightarrow> nat \<Rightarrow> Peer" where
  "lobby_peer k n = newPeer (''010203040506070'' @ [char_of (48 + n)]) (the_opt toy_opts) 0 (Addr4 (0x0A420001 + ucast k)) [2, 1, 2, 3, 4, k] (5 + uint k)"

lemma lobby1_eval [code]:
  "lobby1 = \<lparr>mgr = demo_mgr,
     roomHeap = [demo_room [(''0102030405060701'', 0)] [([2, 1, 2, 3, 4, 1], 0)] 3], peerHeap = [lobby_peer 1 1]\<rparr>"
  by code_simp

lemma lobby2_eval [code]:
  "lobby2 = \<lparr>mgr = demo_mgr,
     roomHeap = [demo_room [(''0102030405060701'', 0), (''0102030405060702'', 1)]
                   [([2, 1, 2, 3, 4, 1], 0), ([2, 1, 2, 3, 4, 2], 1)] 4],
     peerHeap = [lobby_peer 1 1, lobby_peer 2 2]\<rparr>"
  by code_simp

lemma lobby3_eval [code]:
  "lobby3 = \<lparr>mgr = demo_mgr,
     roomHeap = [demo_room [(''0102030405060701'', 0), (''0102030405060702'', 1), (''0102030405060703'', 2)]
                   [([2, 1, 2, 3, 4, 1], 0), ([2, 1, 2, 3, 4, 2], 1), ([2, 1, 2, 3, 4, 3], 2)] 5],
     peerHeap = [lobby_peer 1 1, lobby_peer 2 2, lobby_peer 3 3]\<rparr>"
  by code_simp

lemma lobby_get: "getOrCreateRoom (jr_Room toy_join) 1 (NewManager demo_pool) = (demo0, Inr 0)"
  "getOrCreateRoom (jr_Room toy_join) 1 lobby1 = (lobby1, Inr 0)" "getOrCreateRoom (jr_Room toy_join) 1 lobby2 = (lobby2, Inr 0)"
  using demo_step0 by (simp_all add: toy_join_def getOrCreateRoom_def lobby1_eval lobby2_eval demo_mgr_def Let_def)

lemma lobby_add:
  "AddPeer 0 toy_opts (demo_draw 1) demo0 = (lobby1, Inr 0)" "AddPeer 0 toy_opts (demo_draw 2) lobby1 = (lobby2, Inr 1)"
  "AddPeer 0 toy_opts (demo_draw 3) lobby2 = (lobby3, Inr 2)" "removePeerLocked 1 0 lobby3 = (lobby_left, Some False)"
proof -
  have "snd (AddPeer 0 toy_opts (demo_draw 1) demo0) = Inr 0" "snd (AddPeer 0 toy_opts (demo_draw 2) lobby1) = Inr 1"
    "snd (AddPeer 0 toy_opts (demo_draw 3) lobby2) = Inr 2" "snd (removePeerLocked 1 0 lobby3) = Some False"
    by code_simp+
  then show "AddPeer 0 toy_opts (demo_draw 1) demo0 = (lobby1, Inr 0)" "AddPeer 0 toy_opts (demo_draw 2) lobby1 = (lobby2, Inr 1)"
    "AddPeer 0 toy_opts (demo_draw 3) lobby2 = (lobby3, Inr 2)" "removePeerLocked 1 0 lobby3 = (lobby_left, Some False)"
    by (simp_all add: prod_eq_iff lobby1_def lobby2_def lobby3_def lobby_left_def)
qed

lemma lobby_fresh:
  "fresh_draw (roomHeap demo0 ! 0) (the_opt toy_opts) (demo_draw 1)" "fresh_draw (roomHeap lobby1 ! 0) (the_opt toy_opts) (demo_draw 2)"
  "fresh_draw (roomHeap lobby2 ! 0) (the_opt toy_opts) (demo_draw 3)"
  by code_simp+

definition lobby_serv :: "Store \<Rightarrow> (bytes, bytes) conn list \<Rightarrow> (bytes, bytes) Serv" where
  "lobby_serv s cs = \<lparr>sv_store = s, sv_capture = None, sv_conns = cs, sv_panic = False\<rparr>"

definition lobby_handler :: Handler where
  "lobby_handler = \<lparr>h_MTU = DefaultMTU, h_Capture = None\<rparr>"

abbreviation lobby_run :: "(PeerList \<Rightarrow> string + bytes) \<times> (bytes \<Rightarrow> string + PeerList) \<Rightarrow> (bytes, bytes) Serv \<Rightarrow> bool" where
  "lobby_run pl \<equiv> serv_reachable (toy_codec_for pl) buf_Write buf_Write lobby_handler demo_pool"

lemma lobby_joined:
  "lobby_run pl (lobby_serv lobby1 [Registered 0 toy_join []])"
  "lobby_run pl (lobby_serv lobby2 [Registered 0 toy_join [], Registered 1 toy_join []])"
  "lobby_run pl (lobby_serv lobby3 [Registered 0 toy_join [], Registered 1 toy_join [], Registered 2 toy_join []])"
proof -
  have J: "lobby_run pl (lobby_serv s' (cs @ [Registered p toy_join []]))"
    if "lobby_run pl (lobby_serv s cs)" "getOrCreateRoom (jr_Room toy_join) 1 s = (s0, Inr room)"
      "fresh_draw (roomHeap s0 ! room) (the_opt toy_opts) d" "AddPeer room toy_opts d s0 = (s', Inr p)" for s s0 s' cs room d p
    unfolding lobby_serv_def by (rule serv_join [OF that(1) [unfolded lobby_serv_def] toy_joinRequest that(2-4)])
  have start: "lobby_run pl (lobby_serv (NewManager demo_pool) [])"
    using serv_init [where cap = None] by (simp add: init_serv_def lobby_serv_def)
  from J [OF start lobby_get(1) lobby_fresh(1) lobby_add(1)]
  show one: "lobby_run pl (lobby_serv lobby1 [Registered 0 toy_join []])" by simp
  from J [OF one lobby_get(2) lobby_fresh(2) lobby_add(2)]
  show two: "lobby_run pl (lobby_serv lobby2 [Registered 0 toy_join [], Registered 1 toy_join []])" by simp
  from J [OF two lobby_get(3) lobby_fresh(3) lobby_add(3)]
  show "lobby_run pl (lobby_serv lobby3 [Registered 0 toy_join [], Registered 1 toy_join [], Registered 2 toy_join []])" by simp
qed

lemma lobby_open:
  "\<exists>st. openWith (toy_codec_for pl) buf_Write buf_Write (Inr []) lobby_handler toy_join p snap [] [] s = Running st
     \<and> ss_store st = BroadcastNotify (p_Room (peerHeap s ! p)) (buildPeerListMsg (toy_codec_for pl) snap) (Some p) s"
  "\<exists>st. openWith (toy_codec_for pl) buf_Write buf_Write (Inl ''timeout'') lobby_handler toy_join p snap [] [] s = Ended (Some (SOther ''timeout'')) st
     \<and> ss_store st = s"
proof -
  have w: "writable (TypeJoinAccept, [2])" "writable (TypePing, [])"
    by (simp_all add: writable_def Valid_def message_type_defs size_defs)
  have j: "fst (cd_JoinAccept (toy_codec_for pl)) a = Inr [2]" for a by (simp add: toy_codec_for_def toy_codec_def single_def)
  show "\<exists>st. openWith (toy_codec_for pl) buf_Write buf_Write (Inr []) lobby_handler toy_join p snap [] [] s = Running st
     \<and> ss_store st = BroadcastNotify (p_Room (peerHeap s ! p)) (buildPeerListMsg (toy_codec_for pl) snap) (Some p) s"
    using w by (simp add: openWith_def Let_def WriteJSON_def j WriteMessage_buf)
  show "\<exists>st. openWith (toy_codec_for pl) buf_Write buf_Write (Inl ''timeout'') lobby_handler toy_join p snap [] [] s = Ended (Some (SOther ''timeout'')) st
     \<and> ss_store st = s"
    using w by (simp add: openWith_def Let_def WriteJSON_def j WriteMessage_buf)
qed

section \<open>Sessions and members\<close>

lemma lobby_members: "members lobby1 = {0}"
  by (simp add: lobby1_eval members_def live_def demo_room_def lessThan_Suc)

lemma held_once:
  assumes "all_of f cs = mset_set A" and "finite A" and "x \<in> A"
  shows "\<exists>!i. i < length cs \<and> x \<in># f (cs ! i)"
proof -
  have "count (all_of f cs) x = (\<Sum>i < length cs. count (f (cs ! i)) x)"
    by (induction cs rule: rev_induct) (simp_all add: nth_append add.commute)
  then have one: "(\<Sum>i < length cs. count (f (cs ! i)) x) = 1" using assms by simp
  then obtain i where i: "i < length cs" "x \<in># f (cs ! i)"
    by (metis (no_types, lifting) count_eq_zero_iff lessThan_iff sum.neutral zero_neq_one)
  have "j = i" if "j < length cs" "x \<in># f (cs ! j)" for j
  proof (rule ccontr)
    assume "j \<noteq> i"
    then have "(\<Sum>k \<in> {i, j}. count (f (cs ! k)) x) \<ge> 2" using i(2) that(2) by (simp flip: count_greater_zero_iff)
    moreover have "(\<Sum>k \<in> {i, j}. count (f (cs ! k)) x) \<le> (\<Sum>k < length cs. count (f (cs ! k)) x)"
      using i(1) that(1) by (intro sum_mono2) auto
    ultimately show False using one by simp
  qed
  then show ?thesis using i by blast
qed

text \<open>C6. At every moment of every interleaving of the connections, a peer is registered in a
  room exactly when one connection has it to remove when it ends; that connection is the only
  one. So no peer outlives its connection, none is removed twice and none is removed early.\<close>

theorem server_members:
  assumes "serv_reachable cd wr dwr h pool v" and "pool_ok pool"
  shows "p \<in> members (sv_store v) \<longleftrightarrow> (\<exists>!i. i < length (sv_conns v) \<and> p \<in># conn_held (sv_conns v ! i))"
proof -
  have inv: "serv_inv pool v" using serv_reachable_inv [OF assms] .
  then have "all_of conn_held (sv_conns v) = mset_set (members (sv_store v))" by (simp add: serv_inv_def)
  then show ?thesis
    using held_once [of conn_held "sv_conns v" "members (sv_store v)" p] members_finite serv_invD(1,4) [OF inv assms(2)] by blast
qed

theorem server_members_witness:
  "0 \<in> members lobby1
    \<and> (\<exists>!i. i < length [Registered 0 toy_join []] \<and> 0 \<in># conn_held (([Registered 0 toy_join []] :: (bytes, bytes) conn list) ! i))"
  using server_members [OF lobby_joined(1) demo_pool_ok, of 0] lobby_members by (simp add: lobby_serv_def)

text \<open>C5. The server with all its connections implements a LAN: a set of members with a room, an
  id, a MAC and an IP address, into which members are admitted and from which they leave one
  at a time. Every step of the server is one such step or none, a member is admitted only
  under addresses that no other has, and so every reachable state is a LAN without conflicts.\<close>

theorem server_refines_lan:
  assumes "serv_reachable cd wr dwr h pool v" and "pool_ok pool" and "server_step cd wr dwr h v v'"
  shows "lan_step (lan_of (sv_store v)) (lan_of (sv_store v')) \<and> lan_step\<^sup>*\<^sup>* Map.empty (lan_of (sv_store v'))
    \<and> lan_ok (lan_of (sv_store v'))"
  using server_step_lan [OF assms(3) serv_reachable_inv [OF assms(1,2)] assms(2)] server_runs [OF serv_next [OF assms(1,3)] assms(2)] by simp

theorem server_refines_lan_witness:
  "lan_step (lan_of lobby1) (lan_of lobby1) \<and> lan_of lobby1 0 = Some (member_of lobby1 0) \<and> mb_IP (member_of lobby1 0) = Addr4 0x0A420002"
proof -
  have "server_step (toy_codec_for pl) buf_Write buf_Write lobby_handler (lobby_serv lobby1 [Registered 0 toy_join []])
      (lobby_serv lobby1 [Registered 0 toy_join [], Reading []])" for pl
    using accepted [of "lobby_serv lobby1 [Registered 0 toy_join []]" _ _ _ _ "[]"] by (simp add: lobby_serv_def)
  from server_refines_lan [OF lobby_joined(1) demo_pool_ok this]
  have "lan_step (lan_of lobby1) (lan_of lobby1)" by (simp add: lobby_serv_def)
  moreover have "mb_IP (member_of lobby1 0) = Addr4 0x0A420002" by code_simp
  ultimately show ?thesis using lobby_members by (simp add: lan_of_def)
qed

section \<open>A peer list that is out of date\<close>

definition lobby_after :: "bytes \<Rightarrow> bytes \<Rightarrow> Store" where
  "lobby_after new old = BroadcastNotify 0 old (Some 2) (BroadcastNotify 0 old (Some 0) (BroadcastNotify 0 new None
     (set_peer 1 (closeFrames (peerHeap lobby_left ! 1)) lobby_left)))"

lemma lobby_left_eval [code]:
  "lobby_left = \<lparr>mgr = demo_mgr,
     roomHeap = [(demo_room [(''0102030405060701'', 0), (''0102030405060703'', 2)]
                   [([2, 1, 2, 3, 4, 1], 0), ([2, 1, 2, 3, 4, 3], 2)] 5)\<lparr>r_freeHosts := [3]\<rparr>],
     peerHeap = [lobby_peer 1 1, lobby_peer 2 2, lobby_peer 3 3]\<rparr>"
  by code_simp

lemma lobby_after_queue: "chan_buf (p_Notify (peerHeap (lobby_after new old) ! 0)) = [new, old]"
  by code_simp

lemma lobby_after_rest:
  "members (lobby_after new old) = {0, 2}" "p_ID (peerHeap (lobby_after new old) ! 1) = ''0102030405060702''"
  "''0102030405060702'' \<notin> fst ` set (r_peers (roomHeap (lobby_after new old) ! 0))"
proof -
  have "roomHeap (lobby_after new old) = roomHeap lobby_left" by (simp add: lobby_after_def BroadcastNotify_def set_peer_def Let_def)
  then show "members (lobby_after new old) = {0, 2}" "''0102030405060702'' \<notin> fst ` set (r_peers (roomHeap (lobby_after new old) ! 0))"
    by (simp_all add: lobby_left_eval members_def live_def demo_room_def lessThan_Suc)
qed code_simp

text \<open>Each step of the run replaces one connection.\<close>

lemma lobby_next:
  assumes "lobby_run pl (lobby_serv s cs)"
    and "server_step (toy_codec_for pl) buf_Write buf_Write lobby_handler (lobby_serv s cs) (moves i s' c (lobby_serv s cs))"
  shows "lobby_run pl (lobby_serv s' (cs[i := c]))"
  using serv_next [OF assms] by (simp add: moves_def lobby_serv_def)

definition lobby_snap :: "Store \<Rightarrow> RoomSnapshot" where
  "lobby_snap s = Room_Snapshot s (roomHeap s ! 0)"

lemma lobby_snap_names: "''0102030405060702'' \<in> ps_ID ` set (rs_Peers (lobby_snap lobby3))"
proof -
  have "p_ID (lobby_peer 2 2) = ''0102030405060702''" by code_simp
  then show ?thesis by (simp add: lobby_snap_def Room_Snapshot_def Peer_Snapshot_def lobby3_eval demo_room_def Let_def)
qed

lemma lobby_looked:
  assumes "lobby_run pl (lobby_serv s cs)" and "i < length cs" and "cs ! i = Registered p toy_join []" and "p_Room (peerHeap s ! p) = 0"
  shows "lobby_run pl (lobby_serv s (cs[i := Greeting p toy_join (lobby_snap s) []]))"
  using lobby_next [OF assms(1)] looked [of "lobby_serv s cs" i p toy_join "[]"] assms(2-4) by (auto simp: lobby_serv_def lobby_snap_def)

lemma lobby_greeted:
  assumes "lobby_run pl (lobby_serv s cs)" and "i < length cs" and "cs ! i = Greeting p toy_join snap []" and "p_Room (peerHeap s ! p) = 0"
  shows "\<exists>st. lobby_run pl (lobby_serv (BroadcastNotify 0 (buildPeerListMsg (toy_codec_for pl) snap) (Some p) s) (cs[i := Serving p st None]))"
proof -
  obtain st where st: "openWith (toy_codec_for pl) buf_Write buf_Write (Inr []) lobby_handler toy_join p snap [] [] s = Running st"
    "ss_store st = BroadcastNotify 0 (buildPeerListMsg (toy_codec_for pl) snap) (Some p) s"
    using lobby_open(1) [of pl p snap s] assms(4) by auto
  have "server_step (toy_codec_for pl) buf_Write buf_Write lobby_handler (lobby_serv s cs) (moves i (ss_store st) (Serving p st None) (lobby_serv s cs))"
    using assms(2,3) st(1) by (intro greeted) (auto simp: lobby_serv_def)
  from lobby_next [OF assms(1) this] show ?thesis using st(2) by auto
qed

lemma lobby_leaves:
  assumes "lobby_run pl (lobby_serv lobby3 cs)" and "i < length cs" and "cs ! i = Greeting 1 toy_join snap []"
  shows "lobby_run pl (lobby_serv (BroadcastNotify 0 (buildPeerListMsg (toy_codec_for pl) (lobby_snap (set_peer 1 (closeFrames (peerHeap lobby_left ! 1)) lobby_left))) None
     (set_peer 1 (closeFrames (peerHeap lobby_left ! 1)) lobby_left)) (cs[i := Gone]))"
proof -
  let ?s = "set_peer 1 (closeFrames (peerHeap lobby_left ! 1)) lobby_left"
  let ?step = "server_step (toy_codec_for pl) buf_Write buf_Write lobby_handler"
  have room: "p_Room (peerHeap lobby3 ! 1) = 0" and count: "0 < PeerCount 0 ?s" by code_simp+
  obtain st where st: "openWith (toy_codec_for pl) buf_Write buf_Write (Inl ''timeout'') lobby_handler toy_join 1 snap [] [] lobby3 = Ended (Some (SOther ''timeout'')) st"
    "ss_store st = lobby3" using lobby_open(2) [of pl 1 snap lobby3] by auto
  let ?v = "\<lambda>s c. lobby_serv s (cs[i := c])"
  have at: "at_conn (?v s c) i c" for s c using assms(2) by (simp add: lobby_serv_def)
  have to: "lobby_run pl (?v s' c')" if "lobby_run pl (?v s c)" "?step (?v s c) (moves i s' c' (?v s c))" for s s' c c'
    using lobby_next [OF that] by simp
  have "cs[i := Greeting 1 toy_join snap []] = cs" using assms(3) by (metis list_update_id)
  then have 0: "lobby_run pl (?v lobby3 (Greeting 1 toy_join snap []))" using assms(1) by simp
  have 1: "lobby_run pl (?v lobby3 (Leaving 1))"
    using to [OF 0 not_greeted [OF at]] st by (metis Serv.select_convs(1) lobby_serv_def)
  have 2: "lobby_run pl (?v lobby_left (Closing 1 0 False))"
    using to [OF 1 removed [OF at refl]] room lobby_add(4) by (auto simp: lobby_serv_def)
  have 3: "lobby_run pl (?v ?s (Left 0))"
    using to [OF 2 closed [OF at]] by (simp add: lobby_serv_def)
  have 4: "lobby_run pl (?v ?s (Counted 0))"
    using to [OF 3 counted [OF at]] count by (simp add: lobby_serv_def)
  have 5: "lobby_run pl (?v ?s (Telling 0 (lobby_snap ?s)))"
    using to [OF 4 looked_again [OF at]] by (simp add: lobby_serv_def lobby_snap_def)
  show ?thesis using to [OF 5 told [OF at]] by (simp add: lobby_serv_def)
qed

fun settled :: "('w, 'd) conn \<Rightarrow> bool" where
  "settled Gone = True"
| "settled (Serving p st None) = True"
| "settled _ = False"

text \<open>C18. The peer list of a join is the snapshot that was taken before its accept message is
  written, and it is broadcast after. When a peer leaves in between, its departure is
  broadcast first: a state can be reached in which every connection is gone or waits for its
  client, and the last list that a member was sent names a peer that is no longer there.
  This holds for every way of encoding the lists.\<close>

theorem stale_peer_list:
  "\<exists>v snap. serv_reachable (toy_codec_for pl) buf_Write buf_Write lobby_handler demo_pool v \<and> list_all settled (sv_conns v)
     \<and> members (sv_store v) = {0, 2} \<and> last (chan_buf (p_Notify (peerHeap (sv_store v) ! 0))) = buildPeerListMsg (toy_codec_for pl) snap
     \<and> p_ID (peerHeap (sv_store v) ! 1) \<in> ps_ID ` set (rs_Peers snap)
     \<and> p_ID (peerHeap (sv_store v) ! 1) \<notin> fst ` set (r_peers (roomHeap (sv_store v) ! 0))"
proof -
  let ?snap = "lobby_snap lobby3" and ?s = "set_peer 1 (closeFrames (peerHeap lobby_left ! 1)) lobby_left"
  let ?old = "buildPeerListMsg (toy_codec_for pl) ?snap" and ?new = "buildPeerListMsg (toy_codec_for pl) (lobby_snap ?s)"
  have rooms: "p_Room (peerHeap lobby3 ! 0) = 0" "p_Room (peerHeap lobby3 ! 1) = 0" "p_Room (peerHeap lobby3 ! 2) = 0"
    by code_simp+
  have rooms2: "p_Room (peerHeap (BroadcastNotify 0 new None ?s) ! 0) = 0"
    "p_Room (peerHeap (BroadcastNotify 0 old (Some 0) (BroadcastNotify 0 new None ?s)) ! 2) = 0" for new old
    by code_simp+
  let ?g = "\<lambda>p. Greeting p toy_join ?snap []"
  have a: "lobby_run pl (lobby_serv lobby3 [?g 0, Registered 1 toy_join [], Registered 2 toy_join []])"
    using lobby_looked [OF lobby_joined(3), of 0 0 pl] rooms by simp
  have b: "lobby_run pl (lobby_serv lobby3 [?g 0, ?g 1, Registered 2 toy_join []])"
    using lobby_looked [OF a, of 1 1] rooms by simp
  have c: "lobby_run pl (lobby_serv lobby3 [?g 0, ?g 1, ?g 2])"
    using lobby_looked [OF b, of 2 2] rooms by (simp add: numeral_2_eq_2)
  have d: "lobby_run pl (lobby_serv (BroadcastNotify 0 ?new None ?s) [?g 0, Gone, ?g 2])"
    using lobby_leaves [OF c, of 1 ?snap] by simp
  obtain st0 where e: "lobby_run pl (lobby_serv (BroadcastNotify 0 ?old (Some 0) (BroadcastNotify 0 ?new None ?s)) [Serving 0 st0 None, Gone, ?g 2])"
    using lobby_greeted [OF d, of 0 0 ?snap] rooms2 by auto
  obtain st2 where f: "lobby_run pl (lobby_serv (lobby_after ?new ?old) [Serving 0 st0 None, Gone, Serving 2 st2 None])"
    using lobby_greeted [OF e, of 2 2 ?snap] rooms2 by (auto simp: numeral_2_eq_2 lobby_after_def)
  show ?thesis using f lobby_after_queue [of ?new ?old] lobby_after_rest [of ?new ?old] lobby_snap_names by (intro exI [of _ "lobby_serv (lobby_after ?new ?old) [Serving 0 st0 None, Gone, Serving 2 st2 None]"] exI [of _ ?snap]) (simp add: lobby_serv_def)
qed

end
