(* ===== verification/Client_Typed.thy ===== *)
theory Client_Typed
  imports Client_Session
begin

text \<open>
  The client's status is well-typed: \<^verbatim>\<open>Status\<close> keeps its state and the states of the latency
  probes as strings, and the table of probes beside the peer list. Every method of
  \<^verbatim>\<open>src/internal/client/client.go\<close> keeps them within what the page and the tracker expect.
\<close>

section \<open>Well-typed statuses\<close>

definition client_states :: "string list" where
  "client_states = [''idle'', ''starting'', ''connecting'', ''connected'', ''reconnecting'', ''leaving'', ''stopped'']"

definition lat_states :: "string list" where
  "lat_states = [''unknown'', ''pending'', ''ok'', ''timeout'']"

text \<open>A probe is outstanding exactly when its state says so, and exactly then it has an id.\<close>

definition lat_ok :: "PeerLatency \<Rightarrow> bool" where
  "lat_ok l \<longleftrightarrow> lat_State l \<in> set lat_states \<and> (lat_Pending l \<longleftrightarrow> lat_State l = ''pending'') \<and> (lat_Pending l \<longleftrightarrow> lat_ProbeID l \<noteq> '''')"

text \<open>The table has an entry for each listed peer, no other and no two for one.\<close>

definition status_ok :: "Status \<Rightarrow> bool" where
  "status_ok s \<longleftrightarrow> st_state s \<in> set client_states \<and> distinct (map fst (lat_table s))
     \<and> fst ` set (lat_table s) = pi_ID ` set (st_peers s) \<and> list_all (\<lambda>x. lat_ok (snd x)) (lat_table s)"

lemmas states_defs = client_states_def lat_states_def

lemma status_ok_fields:
  "st_state s' \<in> set client_states \<Longrightarrow> st_peerLatency s' = st_peerLatency s \<Longrightarrow> st_peers s' = st_peers s \<Longrightarrow> status_ok s \<Longrightarrow> status_ok s'"
  by (simp add: status_ok_def lat_table_def)

lemma status_ok_empty: "st_state s \<in> set client_states \<Longrightarrow> st_peerLatency s = None \<Longrightarrow> st_peers s = [] \<Longrightarrow> status_ok s"
  by (simp add: status_ok_def lat_table_def)

lemma update_keys: "fst ` set (AList.update k v m) = insert k (fst ` set m)"
  by (simp add: dom_update)

lemma update_all: "list_all (\<lambda>x. P (snd x)) m \<Longrightarrow> P v \<Longrightarrow> list_all (\<lambda>x. P (snd x)) (AList.update k v m)"
  by (induction m) auto

lemma status_ok_update:
  assumes "status_ok s" and "k \<in> pi_ID ` set (st_peers s)" and "lat_ok v"
  shows "status_ok (s\<lparr>st_peerLatency := Some (AList.update k v (lat_table s)), st_updatedAt := t\<rparr>)"
proof -
  have "insert k (fst ` set (lat_table s)) = pi_ID ` set (st_peers s)" using assms(1,2) by (auto simp: status_ok_def)
  then show ?thesis using assms by (simp add: status_ok_def distinct_update update_keys update_all)
qed

lemma lat_of_ok: "list_all (\<lambda>x. lat_ok (snd x)) m \<Longrightarrow> lat_of m i = zero_latency \<or> lat_ok (lat_of m i)"
  by (auto simp: lat_of_def list_all_iff split: option.splits dest!: map_of_SomeD)

lemma keepPeer_ok: "l = zero_latency \<or> lat_ok l \<Longrightarrow> lat_ok (keepPeer i l)"
  by (auto simp: keepPeer_def lat_ok_def zero_latency_def states_defs)

lemma keepEach_ok: "list_all (\<lambda>x. lat_ok (snd x)) m \<Longrightarrow> list_all (\<lambda>x. lat_ok (snd x)) (keepEach k ps m)"
proof (induction ps arbitrary: k m)
  case (Cons peer ps)
  show ?case using Cons.IH [OF update_all [OF Cons.prems keepPeer_ok [OF lat_of_ok [OF Cons.prems]]]] by simp
qed simp

lemma status_ok_keep:
  assumes "distinct (map fst (lat_table s))" and "list_all (\<lambda>x. lat_ok (snd x)) (lat_table s)" and "st_state s \<in> set client_states"
  shows "status_ok (keepLatencyPeersLocked s)"
proof -
  let ?m = "keepEach 0 (st_peers s) (lat_table s)" and ?A = "pi_ID ` set (st_peers s)"
  have k: "lat_table (keepLatencyPeersLocked s) = filter (\<lambda>(j, l). j \<in> ?A) ?m"
    by (simp add: keepLatencyPeersLocked_def lat_table_def Let_def)
  have "?A \<subseteq> fst ` set ?m" using keepEach_keys(2) by blast
  then have "fst ` set (filter (\<lambda>(j, l). j \<in> ?A) ?m) = ?A" unfolding filter_keys by blast
  moreover have "list_all (\<lambda>x. lat_ok (snd x)) (filter (\<lambda>(j, l). j \<in> ?A) ?m)"
    using keepEach_ok [OF assms(2), of 0 "st_peers s"] by (auto simp: list_all_iff)
  ultimately show ?thesis
    using assms(3) keepEach_keys(1) [OF assms(1)] by (simp add: status_ok_def k keepLatency(3,4) distinct_map_filter)
qed

section \<open>Every method keeps a status well-typed\<close>

lemma status_ok_updatePeers: "status_ok s \<Longrightarrow> status_ok (updatePeers now pl s)"
  unfolding updatePeers_def
  by (rule status_ok_fields [OF _ _ _ status_ok_keep [of "s\<lparr>st_roomCreatedAt := pl_RoomCreatedAt pl, st_peers := pl_Peers pl\<rparr>"]])
    (simp_all add: status_ok_def lat_table_def keepLatency(4))

lemma status_ok_joined: "status_ok s \<Longrightarrow> status_ok (joined_status now accept s)"
  unfolding joined_status_def
  by (rule status_ok_fields [OF _ _ _ status_ok_keep [of "s\<lparr>st_state := ''connected'', st_lastError := '''', st_peerID := ja_PeerID accept,
      st_ipv4 := ja_IPv4 accept, st_cidr := ja_CIDR accept, st_mac := ja_MAC accept, st_mtu := ja_MTU accept,
      st_roomCreatedAt := ja_RoomCreatedAt accept, st_peers := ja_Peers accept\<rparr>"]])
    (simp_all add: status_ok_def lat_table_def keepLatency(4) client_states_def)

lemma status_ok_reset: "status_ok (startSession now cfg s)" "status_ok (newStatus now cfg)" "status_ok (newIdleStatus now cfg)"
  by (rule status_ok_empty; simp add: startSession_def newStatus_def newIdleStatus_def client_states_def)+

lemma status_ok_end: "state \<in> set client_states \<Longrightarrow> status_ok (endSession now err state s)"
  by (rule status_ok_empty) (simp_all add: endSession_def Let_def split: option.splits)

lemma status_ok_setState: "state \<in> set client_states \<Longrightarrow> status_ok s \<Longrightarrow> status_ok (setState now state s)"
  by (rule status_ok_fields) (simp_all add: setState_def)

lemma status_ok_count:
  "status_ok s \<Longrightarrow> status_ok (recordRx n s)" "status_ok s \<Longrightarrow> status_ok (recordTx n s)" "status_ok s \<Longrightarrow> status_ok (addReconnect s)"
  by (simp_all add: status_ok_def lat_table_def recordRx_def recordTx_def addReconnect_def)

lemma status_ok_pong: "status_ok s \<Longrightarrow> status_ok (handlePong now pong s)"
proof -
  assume ok: "status_ok s"
  have "status_ok (recordLatencyPong pong now s)"
  proof (cases "map_of (lat_table s) (pong_FromPeerID pong)")
    case (Some l)
    then have "pong_FromPeerID pong \<in> pi_ID ` set (st_peers s)" using ok by (metis map_of_SomeD fst_conv image_eqI status_ok_def)
    moreover have "lat_ok (l\<lparr>lat_RTT := r, lat_State := ''ok'', lat_UpdatedAt := now, lat_Pending := False, lat_ProbeID := ''''\<rparr>)" for r
      by (simp add: lat_ok_def lat_states_def)
    ultimately show ?thesis
      using Some ok status_ok_update [OF ok] by (simp add: recordLatencyPong_def lat_table_def [symmetric] Let_def)
  qed (use ok in \<open>simp add: recordLatencyPong_def lat_table_def [symmetric] Let_def\<close>)
  then show ?thesis using ok by (simp add: handlePong_def)
qed

lemma status_ok_expire: "status_ok s \<Longrightarrow> status_ok (expireLatencyProbes now s)"
proof -
  assume ok: "status_ok s"
  let ?f = "\<lambda>(i, latency). (i, if expired now latency
      then latency\<lparr>lat_Pending := False, lat_ProbeID := '''', lat_State := ''timeout'', lat_UpdatedAt := now\<rparr> else latency)"
  have "map fst (map ?f (lat_table s)) = map fst (lat_table s)" by (simp add: split_def)
  then have "distinct (map fst (map ?f (lat_table s))) \<and> fst ` set (map ?f (lat_table s)) = pi_ID ` set (st_peers s)"
    using ok by (metis list.set_map status_ok_def)
  moreover have "list_all (\<lambda>x. lat_ok (snd x)) (map ?f (lat_table s))"
  proof -
    have "lat_ok l \<Longrightarrow> lat_ok (l\<lparr>lat_Pending := False, lat_ProbeID := '''', lat_State := ''timeout'', lat_UpdatedAt := now\<rparr>)" for l
      by (simp add: lat_ok_def lat_states_def)
    then show ?thesis using ok by (auto simp: status_ok_def list_all_iff)
  qed
  ultimately show ?thesis
    using ok unfolding expireLatencyProbes_def lat_table_def [symmetric] Let_def by (simp only: status_ok_def lat_table_set) (simp add: lat_table_def)
qed

text \<open>A probe id is sixteen random bytes in hexadecimal.\<close>

lemma status_ok_probe:
  assumes "status_ok s" and "rnd \<noteq> Some []"
  shows "status_ok (fst (nextLatencyProbe rnd now s))"
proof -
  have keep: "status_ok (keepLatencyPeersLocked s)" using assms(1) by (intro status_ok_keep) (simp_all add: status_ok_def)
  have main: "status_ok (fst (nextLatencyProbe rnd now t))"
    if "status_ok t" "st_state t = ''connected''" "st_peerID t \<noteq> ''''" "st_peerLatency t \<noteq> None" for t
  proof -
    define b where "b = fst (bestProbe t now (lat_table t) (st_peers t) ('''', 0))"
    have "b = '''' \<or> b \<in> pi_ID ` set (st_peers t)" using bestProbe_from [of t now "st_peers t" "''''" 0] unfolding b_def by (metis imageI)
    moreover have "lat_ok (l\<lparr>lat_Pending := True, lat_ProbeID := hex_bytes bs, lat_SentAt := now, lat_NextProbe := n, lat_State := ''pending'',
        lat_UpdatedAt := now, lat_Order := k\<rparr>)" if "bs \<noteq> []" for l bs n k
      using that by (cases bs) (simp_all add: lat_ok_def lat_states_def hex_bytes_def hex_byte_def)
    ultimately show ?thesis
      using that(1) assms(2) status_ok_update [OF that(1)] unfolding nextLatencyProbe_unfold [OF that(2-4)] b_def [symmetric] Let_def
      by (auto simp: nonceHex_def split: option.splits)
  qed
  show ?thesis
  proof (cases "st_state s = ''connected'' \<and> st_peerID s \<noteq> ''''")
    case True
    show ?thesis
    proof (cases "st_peerLatency s")
      case None
      then have "nextLatencyProbe rnd now s = nextLatencyProbe rnd now (keepLatencyPeersLocked s)"
        using True by (simp add: nextLatencyProbe_def keepLatency(4,5)) (simp add: keepLatencyPeersLocked_def Let_def)
      moreover have "st_peerLatency (keepLatencyPeersLocked s) \<noteq> None" by (simp add: keepLatencyPeersLocked_def Let_def)
      ultimately show ?thesis using main [OF keep] True by (simp add: keepLatency(4,5))
    qed (use main [OF assms(1)] True in simp)
  qed (use assms(1) in \<open>auto simp: nextLatencyProbe_def\<close>)
qed

end
