(* ===== verification/Client_Run.thy ===== *)
theory Client_Run
  imports Client_Typed Client_Loops_Props
begin

text \<open>
  A client from \<^verbatim>\<open>Join\<close> on: \<^verbatim>\<open>runLoop\<close> with its sessions and the four goroutines that
  \<^verbatim>\<open>runSession\<close> of \<^verbatim>\<open>src/internal/client/client.go\<close> starts in each. The goroutines of a
  session outlive it until they notice; they share the status and the capture with the
  sessions that follow. Each iteration of a goroutine is one step, taken in any order.
\<close>

section \<open>The iterations of the goroutines\<close>

text \<open>One packet from the device, and one message of the data stream.\<close>

definition readerStep :: "'w writer \<Rightarrow> started \<Rightarrow> Metadata \<Rightarrow> time \<Rightarrow> bytes \<Rightarrow> ('w, 'd) Link \<Rightarrow> ('w, 'd) loop_result" where
  "readerStep wr st meta now packet lk =
     (case st of
        StartTAP \<Rightarrow> if packet = [] then Some (lk, None) else sendFrame wr now meta packet lk
      | StartTUN ownMAC ownIP \<Rightarrow>
          do {
            ipv4 \<leftarrow> (if packet = [] then Some False else isIPv4Packet packet);
            if \<not> ipv4 then Some (lk, None)
            else packetFrame ownMAC packet (lk_status lk) \<bind> (\<lambda>frame. sendFrame wr now meta frame lk)
          })"

definition writerStep ::
  "'w writer \<Rightarrow> 'd writer \<Rightarrow> started \<Rightarrow> string \<Rightarrow> Metadata \<Rightarrow> time \<Rightarrow> MessageType \<Rightarrow> bytes \<Rightarrow> ('w, 'd) Link \<Rightarrow> ('w, 'd) loop_result" where
  "writerStep wr dwr st cidr meta now typ payload lk =
     (case st of
        StartTAP \<Rightarrow> tapMessage dwr meta now typ payload lk
      | StartTUN ownMAC ownIP \<Rightarrow>
          broadcastIPv4 cidr \<bind> (\<lambda>roomBroadcast. tunMessage wr dwr ownMAC ownIP roomBroadcast meta now typ payload lk))"

text \<open>They are the iterations of the loops.\<close>

lemma readTAP_iter:
  "readTAP wr meta clock i (Inr packet # rs) lk =
     (case readerStep wr StartTAP meta (clock i) packet lk of
        None \<Rightarrow> None | Some (lk1, Some e) \<Rightarrow> Some (lk1, Some e) | Some (lk1, None) \<Rightarrow> readTAP wr meta clock (Suc i) rs lk1)"
  by (simp add: readerStep_def)

lemma readIP_iter:
  "readIPAsEthernet wr mac meta clock i (Inr packet # rs) lk =
     (case readerStep wr (StartTUN mac ip) meta (clock i) packet lk of
        None \<Rightarrow> None | Some (lk1, Some e) \<Rightarrow> Some (lk1, Some e) | Some (lk1, None) \<Rightarrow> readIPAsEthernet wr mac meta clock (Suc i) rs lk1)"
  by (simp add: readerStep_def split: option.splits)

lemma write_iter:
  "writeTAP dwr meta clock r lk = readFrames (writerStep wr dwr StartTAP cidr meta) clock 0 r lk"
  "writeEthernetAsIP wr dwr mac ip cidr meta clock r lk = readFrames (writerStep wr dwr (StartTUN mac ip) cidr meta) clock 0 r lk"
  by (simp_all add: writeTAP_def writeEthernetAsIP_def writerStep_def [abs_def] broadcastIPv4_eq)

section \<open>Sessions\<close>

datatype thread = TReader | TWriter | TTracker | TControl

text \<open>
  A session after its join: its streams and its device, the goroutines that still run, what
  each of them holds in its hands after a read, the errors in \<^verbatim>\<open>errCh\<close> and the goroutines
  that are blocked sending to it. It is open until \<^verbatim>\<open>runSession\<close> returns and its deferred calls
  close the connection and the device.
\<close>

record ('w, 'd) Sess =
  se_control :: 'w
  se_data :: 'w
  se_device :: 'd
  se_start :: started
  se_accept :: JoinAccept
  se_meta :: Metadata
  se_live :: "thread list"
  se_packet :: "bytes option"
  se_frame :: "(MessageType \<times> bytes) option"
  se_message :: "(MessageType \<times> bytes) option"
  se_errCh :: "client_err list"
  se_stuck :: "thread list"
  se_open :: bool

definition errChCap :: nat where "errChCap = 4"

definition newSess :: "Config \<Rightarrow> started \<Rightarrow> JoinAccept \<Rightarrow> 'w \<Rightarrow> 'w \<Rightarrow> 'd \<Rightarrow> ('w, 'd) Sess" where
  "newSess cfg st accept control data device =
     \<lparr>se_control = control, se_data = data, se_device = device, se_start = st, se_accept = accept,
      se_meta = \<lparr>md_Direction = '''', md_Room = cfg_Room cfg, md_PeerID = ja_PeerID accept, md_PeerName = cfg_DisplayName cfg\<rparr>,
      se_live = [TReader, TWriter, TTracker, TControl], se_packet = None, se_frame = None, se_message = None,
      se_errCh = [], se_stuck = [], se_open = True\<rparr>"

text \<open>A goroutine sends its error and returns; it is stuck if the channel is full.\<close>

definition fails :: "thread \<Rightarrow> client_err \<Rightarrow> ('w, 'd) Sess \<Rightarrow> ('w, 'd) Sess" where
  "fails t e x =
     (let y = x\<lparr>se_live := remove1 t (se_live x)\<rparr>
      in if length (se_errCh y) < errChCap then y\<lparr>se_errCh := se_errCh y @ [e]\<rparr> else y\<lparr>se_stuck := t # se_stuck y\<rparr>)"

definition linkErr :: "link_error \<Rightarrow> client_err" where
  "linkErr e = (case e of LDevice x \<Rightarrow> CDevice x | LProto p \<Rightarrow> CProto p)"

text \<open>The parts of the state that an iteration of the data path works on.\<close>

definition sess_link :: "Status \<Rightarrow> CaptureRecorder option \<Rightarrow> ('w, 'd) Sess \<Rightarrow> ('w, 'd) Link" where
  "sess_link s cap x = \<lparr>lk_stream = se_data x, lk_device = se_device x, lk_status = s, lk_capture = cap\<rparr>"

definition sess_after :: "thread \<Rightarrow> ('w, 'd) Link \<times> link_error option \<Rightarrow> ('w, 'd) Sess \<Rightarrow> ('w, 'd) Sess" where
  "sess_after t res x =
     (case res of (lk, err) \<Rightarrow>
        let y = x\<lparr>se_data := lk_stream lk, se_device := lk_device lk\<rparr>
        in case err of None \<Rightarrow> y | Some e \<Rightarrow> fails t (linkErr e) y)"

section \<open>The client\<close>

text \<open>
  Where \<^verbatim>\<open>runLoop\<close> stands: in \<^verbatim>\<open>runSession\<close> before the goroutines are started, in its select,
  after it with the error, in the pause, and returned; \<^verbatim>\<open>Over\<close> is the end of the goroutine of
  \<^verbatim>\<open>Controller.Join\<close>.
\<close>

datatype phase = Connecting | InSession nat | Failed client_err | Pausing | Stopped | Over

record ('w, 'd) Client =
  rn_cfg :: Config
  rn_status :: Status
  rn_capture :: "CaptureRecorder option"
  rn_sess :: "('w, 'd) Sess list"
  rn_phase :: phase
  rn_cancelled :: bool

definition startClient :: "Config \<Rightarrow> time \<Rightarrow> CaptureRecorder option \<Rightarrow> Status \<Rightarrow> ('w, 'd) Client" where
  "startClient cfg now cap s =
     \<lparr>rn_cfg = cfg, rn_status = setState now ''connecting'' (startSession now cfg s), rn_capture = cap, rn_sess = [],
      rn_phase = Connecting, rn_cancelled = False\<rparr>"

definition on_sess :: "nat \<Rightarrow> ('w, 'd) Sess \<Rightarrow> ('w, 'd) Client \<Rightarrow> ('w, 'd) Client" where
  "on_sess i x v = v\<lparr>rn_sess := (rn_sess v)[i := x]\<rparr>"

definition data_step :: "nat \<Rightarrow> thread \<Rightarrow> ('w, 'd) Link \<times> link_error option \<Rightarrow> ('w, 'd) Sess \<Rightarrow> ('w, 'd) Client \<Rightarrow> ('w, 'd) Client" where
  "data_step i t res x v = (on_sess i (sess_after t res x) v)\<lparr>rn_status := lk_status (fst res), rn_capture := lk_capture (fst res)\<rparr>"

definition control_step :: "nat \<Rightarrow> thread \<Rightarrow> ('w \<times> Status) \<times> proto_error option \<Rightarrow> ('w, 'd) Sess \<Rightarrow> ('w, 'd) Client \<Rightarrow> ('w, 'd) Client" where
  "control_step i t res x v =
     (case res of ((w, s), err) \<Rightarrow>
        let y = x\<lparr>se_control := w\<rparr>
        in (on_sess i (case err of None \<Rightarrow> y | Some e \<Rightarrow> fails t (CProto e) y) v)\<lparr>rn_status := s\<rparr>)"

text \<open>What \<^verbatim>\<open>runLoop\<close> does with the error of a session.\<close>

definition loopAfter :: "(client_err \<Rightarrow> string) \<Rightarrow> time \<Rightarrow> client_err \<Rightarrow> ('w, 'd) Client \<Rightarrow> ('w, 'd) Client" where
  "loopAfter errText now e v =
     (if rn_cancelled v then v\<lparr>rn_phase := Stopped\<rparr>
      else if isFatal (Some e) then v\<lparr>rn_status := endSession now (Some (errText e)) ''stopped'' (rn_status v), rn_phase := Stopped\<rparr>
      else v\<lparr>rn_status := endSession now (Some (errText e)) ''reconnecting'' (rn_status v), rn_phase := Pausing\<rparr>)"

abbreviation at_sess :: "('w, 'd) Client \<Rightarrow> nat \<Rightarrow> thread \<Rightarrow> ('w, 'd) Sess \<Rightarrow> bool" where
  "at_sess v i t x \<equiv> i < length (rn_sess v) \<and> rn_sess v ! i = x \<and> t \<in> set (se_live x)"

text \<open>
  The writers of the streams and the device get to know whether the session is still open. A
  read returns only while it is open; afterwards, and at any other time, it may fail. What
  the surroundings answer to an attempt to join is one of the given environments.
\<close>

inductive client_step ::
  "os \<Rightarrow> Codec \<Rightarrow> (nat \<Rightarrow> ('i, 's) SessionEnv) \<Rightarrow> (config_error \<Rightarrow> string) \<Rightarrow> (client_err \<Rightarrow> string) \<Rightarrow> (bool \<Rightarrow> 'w writer) \<Rightarrow> (bool \<Rightarrow> 'd writer)
     \<Rightarrow> ('w, 'd) Client \<Rightarrow> ('w, 'd) Client \<Rightarrow> bool"
  for os cd env cfgText errText wr dwr where
  connected: "rn_phase v = Connecting \<Longrightarrow> readAnswer cd r = (r1, Inr accept) \<Longrightarrow>
    startSessionConn os cd (env k) cfgText now (wr True) (rn_cfg v) r w sys (rn_status v) = (s, w1, sys1, Inr st) \<Longrightarrow>
    client_step os cd env cfgText errText wr dwr v
      (v\<lparr>rn_status := s, rn_sess := rn_sess v @ [newSess (rn_cfg v) st accept w1 d dev], rn_phase := InSession (length (rn_sess v))\<rparr>)"
| not_connected: "rn_phase v = Connecting \<Longrightarrow>
    startSessionConn os cd (env k) cfgText now (wr True) (rn_cfg v) r w sys (rn_status v) = (s, w1, sys1, Inl e) \<Longrightarrow>
    client_step os cd env cfgText errText wr dwr v (v\<lparr>rn_status := s, rn_phase := Failed e\<rparr>)"
| packet_read: "at_sess v i TReader x \<Longrightarrow> se_open x \<Longrightarrow> se_packet x = None \<Longrightarrow> length packet \<le> MaxFrameSize \<Longrightarrow>
    client_step os cd env cfgText errText wr dwr v (on_sess i (x\<lparr>se_packet := Some packet\<rparr>) v)"
| packet_sent: "at_sess v i TReader x \<Longrightarrow> se_packet x = Some packet \<Longrightarrow>
    readerStep (wr (se_open x)) (se_start x) (se_meta x) now packet (sess_link (rn_status v) (rn_capture v) x) = Some res \<Longrightarrow>
    client_step os cd env cfgText errText wr dwr v (data_step i TReader res (x\<lparr>se_packet := None\<rparr>) v)"
| device_failed: "at_sess v i TReader x \<Longrightarrow> se_packet x = None \<Longrightarrow>
    client_step os cd env cfgText errText wr dwr v (on_sess i (fails TReader (CDevice e) x) v)"
| frame_read: "at_sess v i TWriter x \<Longrightarrow> se_open x \<Longrightarrow> se_frame x = None \<Longrightarrow>
    client_step os cd env cfgText errText wr dwr v (on_sess i (x\<lparr>se_frame := Some (ty, payload)\<rparr>) v)"
| frame_written: "at_sess v i TWriter x \<Longrightarrow> se_frame x = Some (ty, payload) \<Longrightarrow>
    writerStep (wr (se_open x)) (dwr (se_open x)) (se_start x) (ja_CIDR (se_accept x)) (se_meta x) now ty payload
      (sess_link (rn_status v) (rn_capture v) x) = Some res \<Longrightarrow>
    client_step os cd env cfgText errText wr dwr v (data_step i TWriter res (x\<lparr>se_frame := None\<rparr>) v)"
| data_failed: "at_sess v i TWriter x \<Longrightarrow> se_frame x = None \<Longrightarrow>
    client_step os cd env cfgText errText wr dwr v (on_sess i (fails TWriter (CProto e) x) v)"
| tick: "at_sess v i TTracker x \<Longrightarrow> (\<forall>bs. rnd = Some bs \<longrightarrow> length bs = 16) \<Longrightarrow>
    client_step os cd env cfgText errText wr dwr v
      (control_step i TTracker (trackerTick cd (wr (se_open x)) rnd now (se_control x, rn_status v)) x v)"
| tracker_done: "at_sess v i TTracker x \<Longrightarrow> rn_cancelled v \<Longrightarrow>
    client_step os cd env cfgText errText wr dwr v (on_sess i (x\<lparr>se_live := remove1 TTracker (se_live x)\<rparr>) v)"
| message_read: "at_sess v i TControl x \<Longrightarrow> se_open x \<Longrightarrow> se_message x = None \<Longrightarrow>
    client_step os cd env cfgText errText wr dwr v (on_sess i (x\<lparr>se_message := Some (ty, payload)\<rparr>) v)"
| message_handled: "at_sess v i TControl x \<Longrightarrow> se_message x = Some (ty, payload) \<Longrightarrow>
    client_step os cd env cfgText errText wr dwr v
      (control_step i TControl (controlStep cd (wr (se_open x)) now ty payload (se_control x, rn_status v)) (x\<lparr>se_message := None\<rparr>) v)"
| control_failed: "at_sess v i TControl x \<Longrightarrow> se_message x = None \<Longrightarrow>
    client_step os cd env cfgText errText wr dwr v (on_sess i (fails TControl (CProto e) x) v)"
| received: "rn_phase v = InSession i \<Longrightarrow> rn_sess v ! i = x \<Longrightarrow> se_errCh x = e # es \<Longrightarrow>
    client_step os cd env cfgText errText wr dwr v
      ((on_sess i (x\<lparr>se_errCh := es, se_open := False\<rparr>) v)\<lparr>rn_phase := Failed e\<rparr>)"
| interrupted: "rn_phase v = InSession i \<Longrightarrow> rn_sess v ! i = x \<Longrightarrow> rn_cancelled v \<Longrightarrow>
    client_step os cd env cfgText errText wr dwr v ((on_sess i (x\<lparr>se_open := False\<rparr>) v)\<lparr>rn_phase := Failed CCancelled\<rparr>)"
| loop_after: "rn_phase v = Failed e \<Longrightarrow> client_step os cd env cfgText errText wr dwr v (loopAfter errText now e v)"
| pause_cut: "rn_phase v = Pausing \<Longrightarrow> rn_cancelled v \<Longrightarrow> client_step os cd env cfgText errText wr dwr v (v\<lparr>rn_phase := Stopped\<rparr>)"
| pause_over: "rn_phase v = Pausing \<Longrightarrow>
    client_step os cd env cfgText errText wr dwr v
      (v\<lparr>rn_status := setState now ''connecting'' (addReconnect (rn_status v)), rn_phase := Connecting\<rparr>)"
| left: "rn_phase v \<noteq> Over \<Longrightarrow> client_step os cd env cfgText errText wr dwr v (v\<lparr>rn_status := setState now ''leaving'' (rn_status v), rn_cancelled := True\<rparr>)"
| over: "rn_phase v = Stopped \<Longrightarrow>
    client_step os cd env cfgText errText wr dwr v
      (v\<lparr>rn_status := (if rn_cancelled v then endSession now None ''idle'' (rn_status v) else rn_status v), rn_phase := Over\<rparr>)"
| joined_again: "rn_phase v = Over \<Longrightarrow>
    client_step os cd env cfgText errText wr dwr v
      (v\<lparr>rn_cfg := cfg, rn_status := setState now ''connecting'' (startSession now cfg (rn_status v)), rn_phase := Connecting, rn_cancelled := False\<rparr>)"

inductive client_reachable ::
  "os \<Rightarrow> Codec \<Rightarrow> (nat \<Rightarrow> ('i, 's) SessionEnv) \<Rightarrow> (config_error \<Rightarrow> string) \<Rightarrow> (client_err \<Rightarrow> string) \<Rightarrow> (bool \<Rightarrow> 'w writer) \<Rightarrow> (bool \<Rightarrow> 'd writer)
     \<Rightarrow> ('w, 'd) Client \<Rightarrow> bool"
  for os cd env cfgText errText wr dwr where
  client_init: "client_reachable os cd env cfgText errText wr dwr (startClient cfg now cap s)"
| client_next: "client_reachable os cd env cfgText errText wr dwr v \<Longrightarrow> client_step os cd env cfgText errText wr dwr v v' \<Longrightarrow>
    client_reachable os cd env cfgText errText wr dwr v'"

end
