(* ===== verification/Client_Run_Props.thy ===== *)
theory Client_Run_Props
  imports Client_Run Control_Props
begin

text \<open>
  What holds of a client in every interleaving of its goroutines: the status stays well-typed,
  and no goroutine is ever blocked on the error channel of its session. Two runs show what
  the goroutines of an ended session still do to the status that they share with the next.
\<close>

section \<open>The status\<close>

lemma sendFrame_status: "sendFrame wr now meta frame lk = Some (lk', e) \<Longrightarrow> status_ok (lk_status lk) \<Longrightarrow> status_ok (lk_status lk')"
  by (auto simp: sendFrame_def recordLink_def status_ok_count split: prod.splits option.splits)

lemma deliver_status: "deliver dwr now meta packet frame lk = Some (lk', e) \<Longrightarrow> status_ok (lk_status lk) \<Longrightarrow> status_ok (lk_status lk')"
  by (auto simp: deliver_def recordLink_def status_ok_count split: prod.splits option.splits)

lemma readerStep_status: "readerStep wr st meta now packet lk = Some (lk', e) \<Longrightarrow> status_ok (lk_status lk) \<Longrightarrow> status_ok (lk_status lk')"
  using sendFrame_status by (auto simp: readerStep_def split: started.splits if_splits bind_splits)

lemma writerStep_status:
  "writerStep wr dwr st cidr meta now typ payload lk = Some (lk', e) \<Longrightarrow> status_ok (lk_status lk) \<Longrightarrow> status_ok (lk_status lk')"
  using deliver_status
  by (auto simp: writerStep_def tapMessage_def tunMessage_def split: started.splits if_splits bind_splits prod.splits)

lemma trackerTick_status:
  assumes "trackerTick cd wr rnd now (w, s) = ((w', s'), e)" and "status_ok s" and "rnd \<noteq> Some []"
  shows "status_ok s'"
  using status_ok_probe [OF status_ok_expire [OF assms(2)] assms(3), of now now] assms(1)
  by (auto simp: trackerTick_def split: prod.splits option.splits)

lemma controlStep_status: "controlStep cd wr now typ payload (w, s) = ((w', s'), e) \<Longrightarrow> status_ok s \<Longrightarrow> status_ok s'"
  by (auto simp: controlStep_def handlePing_def status_ok_updatePeers status_ok_pong split: if_splits sum.splits prod.splits)

lemma startSessionConn_status:
  "startSessionConn os cd env cfgText now wr cfg r w sys s = (s', w', sys', res) \<Longrightarrow> status_ok s \<Longrightarrow> status_ok s'"
  by (auto simp: startSessionConn_def status_ok_joined split: option.splits dial_error.splits sum.splits prod.splits)

section \<open>The error channel\<close>

text \<open>Every goroutine sends at most once, and there are as many places as goroutines.\<close>

definition sess_ok :: "('w, 'd) Sess \<Rightarrow> bool" where
  "sess_ok x \<longleftrightarrow> se_stuck x = [] \<and> length (se_errCh x) + length (se_live x) \<le> 4"

lemma fails_ok:
  assumes "sess_ok x" and "t \<in> set (se_live x)"
  shows "sess_ok (fails t e x)"
proof -
  obtain n where n: "length (se_live x) = Suc n" using assms(2) by (cases "se_live x") auto
  then have "length (se_errCh x) < 4" using assms(1) by (simp add: sess_ok_def)
  then show ?thesis using assms n by (simp add: sess_ok_def fails_def errChCap_def length_remove1 Let_def)
qed

lemma sess_ok_held [simp]:
  "sess_ok (x\<lparr>se_packet := a\<rparr>) = sess_ok x" "sess_ok (x\<lparr>se_frame := b\<rparr>) = sess_ok x" "sess_ok (x\<lparr>se_message := b\<rparr>) = sess_ok x"
  "sess_ok (x\<lparr>se_control := w\<rparr>) = sess_ok x" "sess_ok (x\<lparr>se_data := w, se_device := d\<rparr>) = sess_ok x"
  by (simp_all add: sess_ok_def)

lemma sess_after_ok: "sess_ok x \<Longrightarrow> t \<in> set (se_live x) \<Longrightarrow> sess_ok (sess_after t res x)"
  unfolding sess_after_def Let_def
  by (cases res; cases "snd res") (simp_all add: fails_ok sess_ok_held)

definition client_inv :: "('w, 'd) Client \<Rightarrow> bool" where
  "client_inv v \<longleftrightarrow> status_ok (rn_status v) \<and> list_all sess_ok (rn_sess v)
     \<and> (\<forall>i. rn_phase v = InSession i \<longrightarrow> i < length (rn_sess v))"

lemma client_inv_sess:
  assumes "client_inv v" and "sess_ok x" and "status_ok s"
  shows "client_inv ((on_sess i x v)\<lparr>rn_status := s, rn_capture := cap\<rparr>)" "client_inv ((on_sess i x v)\<lparr>rn_status := s\<rparr>)" "client_inv (on_sess i x v)"
    "(\<And>i. p \<noteq> InSession i) \<Longrightarrow> client_inv ((on_sess i x v)\<lparr>rn_phase := p\<rparr>)"
  using assms by (auto simp: client_inv_def on_sess_def list_all_iff dest!: set_update_subset_insert [THEN subsetD])

lemma client_inv_status:
  assumes "client_inv v" and "status_ok s" and "\<And>i. p \<noteq> InSession i"
  shows "client_inv (v\<lparr>rn_status := s, rn_phase := p\<rparr>)" "client_inv (v\<lparr>rn_phase := p\<rparr>)"
  using assms by (simp_all add: client_inv_def)

lemma client_inv_at: "client_inv v \<Longrightarrow> i < length (rn_sess v) \<Longrightarrow> sess_ok (rn_sess v ! i)"
  by (simp add: client_inv_def list_all_length)

lemma control_step_inv:
  assumes "client_inv v" and "sess_ok x" and "t \<in> set (se_live x)" and "status_ok (snd (fst res))"
  shows "client_inv (control_step i t res x v)"
proof -
  have "sess_ok (x\<lparr>se_control := w\<rparr>)" "sess_ok (fails t e (x\<lparr>se_control := w\<rparr>))" for w e
    using assms(2,3) by (simp_all add: fails_ok)
  then show ?thesis using assms(1,4) by (auto simp: control_step_def Let_def split: prod.splits option.splits intro!: client_inv_sess)
qed

lemma data_step_inv:
  "client_inv v \<Longrightarrow> sess_ok x \<Longrightarrow> t \<in> set (se_live x) \<Longrightarrow> status_ok (lk_status (fst res)) \<Longrightarrow> client_inv (data_step i t res x v)"
  unfolding data_step_def by (rule client_inv_sess(1)) (auto intro: sess_after_ok)

lemma client_step_inv:
  assumes "client_step os cd env cfgText errText wr dwr v v'" and "client_inv v"
  shows "client_inv v'"
proof -
  have ok: "status_ok (rn_status v)" using assms(2) by (simp add: client_inv_def)
  note at = client_inv_at [OF assms(2)]
  show ?thesis
    using assms(1)
  proof (cases rule: client_step.cases)
    case (connected r r1 accept k now w sys s w1 sys1 st d dev)
    then show ?thesis
      using assms(2) startSessionConn_status ok by (fastforce simp: client_inv_def newSess_def sess_ok_def)
  next
    case (not_connected k now r w sys s w1 sys1 e)
    then show ?thesis using client_inv_status(1) [OF assms(2) startSessionConn_status [OF not_connected(3) ok], of "Failed e"] by simp
  next
    case (packet_sent i x packet now res)
    have "status_ok (lk_status (fst res))"
      using readerStep_status [of _ _ _ _ _ _ "fst res" "snd res"] packet_sent(4) ok by (simp add: sess_link_def)
    then show ?thesis using packet_sent at by (auto intro!: data_step_inv [OF assms(2)])
  next
    case (frame_written i x ty payload now res)
    have "status_ok (lk_status (fst res))"
      using writerStep_status [of _ _ _ _ _ _ _ _ _ "fst res" "snd res"] frame_written(4) ok by (simp add: sess_link_def)
    then show ?thesis using frame_written at by (auto intro!: data_step_inv [OF assms(2)])
  next
    case (tick i x rnd now)
    then have "rnd \<noteq> Some []" by auto
    then have "status_ok (snd (fst (trackerTick cd (wr (se_open x)) rnd now (se_control x, rn_status v))))"
      using trackerTick_status ok by (metis prod.collapse)
    then show ?thesis using tick at by (auto intro!: control_step_inv [OF assms(2)])
  next
    case (message_handled i x ty payload now)
    have "status_ok (snd (fst (controlStep cd (wr (se_open x)) now ty payload (se_control x, rn_status v))))"
      using controlStep_status ok by (metis prod.collapse)
    then show ?thesis using message_handled at by (auto intro!: control_step_inv [OF assms(2)])
  next
    case (received i x e es)
    have "i < length (rn_sess v)" using assms(2) received(2) by (simp add: client_inv_def)
    then have "sess_ok (x\<lparr>se_errCh := es, se_open := False\<rparr>)" using at received by (fastforce simp: sess_ok_def)
    then show ?thesis using received client_inv_sess(4) [OF assms(2) _ ok] by simp
  next
    case (interrupted i x)
    have "i < length (rn_sess v)" using assms(2) interrupted(2) by (simp add: client_inv_def)
    then have "sess_ok (x\<lparr>se_open := False\<rparr>)" using at interrupted by (fastforce simp: sess_ok_def)
    then show ?thesis using interrupted client_inv_sess(4) [OF assms(2) _ ok] by simp
  next
    case (loop_after e now)
    then show ?thesis
      using assms(2) by (simp add: loopAfter_def client_inv_def status_ok_end client_states_def)
  next
    case (tracker_done i x)
    then have "sess_ok (x\<lparr>se_live := remove1 TTracker (se_live x)\<rparr>)" using at [of i] by (auto simp: sess_ok_def length_remove1)
    then show ?thesis using tracker_done client_inv_sess(3) [OF assms(2) _ ok] by simp
  next
    case (pause_over now)
    then show ?thesis
      using client_inv_status(1) [OF assms(2)] status_ok_setState [OF _ status_ok_count(3) [OF ok]] by (simp add: client_states_def)
  next
    case (left now)
    then show ?thesis using assms(2) status_ok_setState [OF _ ok] by (simp add: client_inv_def client_states_def)
  next
    case (over now)
    then show ?thesis using assms(2) status_ok_end by (simp add: client_inv_def client_states_def)
  next
    case (joined_again cfg now)
    then show ?thesis using assms(2) status_ok_setState [OF _ status_ok_reset(1)] by (simp add: client_inv_def client_states_def)
  qed (use at in \<open>auto intro!: client_inv_sess(3) [OF assms(2) _ ok] fails_ok client_inv_status(2) [OF assms(2) ok]\<close>)
qed

lemma client_reachable_inv: "client_reachable os cd env cfgText errText wr dwr v \<Longrightarrow> client_inv v"
proof (induction rule: client_reachable.induct)
  case (client_init cfg now cap s)
  then show ?case
    using status_ok_setState [OF _ status_ok_reset(1)] by (simp add: startClient_def client_inv_def client_states_def)
qed (rule client_step_inv)

section \<open>A client for the examples\<close>

definition run_codec :: Codec where
  "run_codec = toy_codec\<lparr>cd_JoinAccept := single demo_accept [2], cd_PeerList := single \<lparr>pl_RoomCreatedAt = 1, pl_Peers = [demo_info ''b'']\<rparr> [7]\<rparr>"

definition run_env :: "nat \<Rightarrow> (string, unit) SessionEnv" where
  "run_env k = \<lparr>env_dial = None, env_water = (\<lambda>kind name c. Inr name), env_byName = (\<lambda>name. Inl ''none''), env_ifName = id,
     env_openStream = None, env_nonce = Some [1], env_exec = (\<lambda>u args. (u, None)), env_acceptStream = None\<rparr>"

definition run_answer :: Reader where
  "run_answer = \<lparr>rd_data = frame_bytes (TypeJoinAccept, [2]), rd_end = EOF\<rparr>"

text \<open>A stream of a closed connection takes no bytes.\<close>

definition run_writer :: "bool \<Rightarrow> bytes writer" where
  "run_writer opened = (if opened then buf_Write else (\<lambda>w bs. (w, Some (IOErr ''closed''))))"

abbreviation run_step :: "(bytes, bytes) Client \<Rightarrow> (bytes, bytes) Client \<Rightarrow> bool" where
  "run_step \<equiv> client_step Linux run_codec run_env (\<lambda>e. ''cfg'') (\<lambda>e. ''err'') run_writer run_writer"

abbreviation run_reachable :: "(bytes, bytes) Client \<Rightarrow> bool" where
  "run_reachable \<equiv> client_reachable Linux run_codec run_env (\<lambda>e. ''cfg'') (\<lambda>e. ''err'') run_writer run_writer"

lemma run_read: "readAnswer run_codec run_answer = (\<lparr>rd_data = [], rd_end = EOF\<rparr>, Inr demo_accept)"
proof -
  have "readable (int MaxControlSize) (TypeJoinAccept, [2])" by (simp add: readable_def Valid_def message_type_defs size_defs)
  then show ?thesis
    using ReadMessage_frame [of "int MaxControlSize" "(TypeJoinAccept, [2])" "[]" EOF]
    by (simp add: readAnswer_def run_answer_def run_codec_def single_def message_type_defs)
qed

lemma run_connect:
  "startSessionConn Linux run_codec (run_env k) (\<lambda>e. ''cfg'') 5 (run_writer True) demo_config run_answer [] () s
     = (joined_status 5 demo_accept s, frame_bytes (TypeJoinRoom, [1]), (), Inr StartTAP)"
proof -
  have w: "writable (TypeJoinRoom, [1])" by (simp add: writable_def Valid_def message_type_defs size_defs)
  have e: "openAdvertised Linux (run_env k) demo_config = Inr (None, '''')" "nonceHex (env_nonce (run_env k)) = Some ''01''"
    "setUpSession Linux (run_env k) (\<lambda>e. ''cfg'') demo_config None demo_accept () = ((), Inr StartTAP)" by code_simp+
  have j: "WriteJSON (fst (cd_JoinRoom run_codec)) (run_writer True) [] TypeJoinRoom v = (frame_bytes (TypeJoinRoom, [1]), None)" for v
    using w by (simp add: run_codec_def toy_codec_def single_def run_writer_def WriteJSON_def WriteMessage_buf)
  show ?thesis by (simp add: startSessionConn_def run_env_def [of k, THEN arg_cong [of _ _ env_dial]] run_env_def [of k, THEN arg_cong [of _ _ env_openStream]] e j run_read)
qed

definition run_client :: "Status \<Rightarrow> (bytes, bytes) Sess list \<Rightarrow> phase \<Rightarrow> bool \<Rightarrow> (bytes, bytes) Client" where
  "run_client s xs ph c = \<lparr>rn_cfg = demo_config, rn_status = s, rn_capture = None, rn_sess = xs, rn_phase = ph, rn_cancelled = c\<rparr>"

definition run_sess :: "(bytes, bytes) Sess" where
  "run_sess = newSess demo_config StartTAP demo_accept (frame_bytes (TypeJoinRoom, [1])) [] []"

definition run_start :: Status where
  "run_start = setState 1 ''connecting'' (startSession 1 demo_config demo_status)"

lemma run_started: "run_reachable (run_client run_start [] Connecting False)"
  using client_init [of _ _ _ _ _ _ _ demo_config 1 None demo_status] by (simp add: startClient_def run_client_def run_start_def)

lemma run_joined:
  assumes "run_reachable (run_client s xs Connecting c)"
  shows "run_reachable (run_client (joined_status 5 demo_accept s) (xs @ [run_sess]) (InSession (length xs)) c)"
proof -
  let ?v = "run_client s xs Connecting c"
  have "startSessionConn Linux run_codec (run_env 0) (\<lambda>e. ''cfg'') 5 (run_writer True) (rn_cfg ?v) run_answer [] () (rn_status ?v)
      = (joined_status 5 demo_accept s, frame_bytes (TypeJoinRoom, [1]), (), Inr StartTAP)"
    using run_connect by (simp add: run_client_def)
  from client_next [OF assms connected [where v = ?v and env = run_env and wr = run_writer, OF _ run_read this, where d = "[]" and dev = "[]"]]
  show ?thesis by (simp add: run_client_def run_sess_def)
qed

lemma run_session: "run_reachable (run_client (joined_status 5 demo_accept run_start) [run_sess] (InSession 0) False)"
  using run_joined [OF run_started] by simp

text \<open>The control stream breaks, the client reconnects, and the tracker of the first session is still there.\<close>

definition run_status :: Status where
  "run_status = joined_status 5 demo_accept (setState 2 ''connecting'' (addReconnect (endSession 2 (Some ''err'') ''reconnecting''
     (joined_status 5 demo_accept run_start))))"

definition run_old :: "(bytes, bytes) Sess" where
  "run_old = (fails TControl (CProto (ErrIO EOF)) run_sess)\<lparr>se_errCh := [], se_open := False\<rparr>"

lemma run_reconnected: "run_reachable (run_client run_status [run_old, run_sess] (InSession 1) False)"
proof -
  let ?s = "joined_status 5 demo_accept run_start" and ?x = "fails TControl (CProto (ErrIO EOF)) run_sess"
  let ?e = "endSession 2 (Some ''err'') ''reconnecting'' ?s"
  have x: "se_errCh ?x = [CProto (ErrIO EOF)]" "TControl \<in> set (se_live run_sess)" "se_message run_sess = None"
    by (simp_all add: fails_def run_sess_def newSess_def errChCap_def Let_def)
  have "run_step (run_client ?s [run_sess] (InSession 0) False) (run_client ?s [?x] (InSession 0) False)"
    using control_failed [where v = "run_client ?s [run_sess] (InSession 0) False" and i = 0 and x = run_sess and e = "ErrIO EOF"] x
    by (simp add: run_client_def on_sess_def)
  moreover have "run_step (run_client ?s [?x] (InSession 0) False) (run_client ?s [run_old] (Failed (CProto (ErrIO EOF))) False)"
    using received [where v = "run_client ?s [?x] (InSession 0) False" and i = 0 and x = ?x and e = "CProto (ErrIO EOF)" and es = "[]"] x
    by (simp add: run_client_def on_sess_def run_old_def)
  moreover have "run_step (run_client ?s [run_old] (Failed (CProto (ErrIO EOF))) False) (run_client ?e [run_old] Pausing False)"
    using loop_after [where v = "run_client ?s [run_old] (Failed (CProto (ErrIO EOF))) False" and e = "CProto (ErrIO EOF)" and now = 2]
    by (simp add: run_client_def loopAfter_def isFatal_def)
  moreover have "run_step (run_client ?e [run_old] Pausing False) (run_client (setState 2 ''connecting'' (addReconnect ?e)) [run_old] Connecting False)"
    using pause_over [where v = "run_client ?e [run_old] Pausing False" and now = 2] by (simp add: run_client_def)
  ultimately have "run_reachable (run_client (setState 2 ''connecting'' (addReconnect ?e)) [run_old] Connecting False)"
    using run_session client_next by meson
  from run_joined [OF this] show ?thesis by (simp add: run_status_def)
qed

text \<open>The user leaves while a peer list has been read but not yet handled.\<close>

lemma run_left: "run_reachable (run_client (updatePeers 9 \<lparr>pl_RoomCreatedAt = 1, pl_Peers = [demo_info ''b'']\<rparr> (endSession 8 None ''idle''
    (setState 7 ''leaving'' (joined_status 5 demo_accept run_start)))) [run_sess\<lparr>se_open := False\<rparr>] Over True)"
proof -
  let ?s = "joined_status 5 demo_accept run_start" and ?x = "run_sess\<lparr>se_message := Some (TypePeerList, [7])\<rparr>"
  let ?l = "setState 7 ''leaving'' ?s" and ?y = "run_sess\<lparr>se_message := Some (TypePeerList, [7]), se_open := False\<rparr>"
  let ?i = "endSession 8 None ''idle'' ?l" and ?pl = "\<lparr>pl_RoomCreatedAt = 1, pl_Peers = [demo_info ''b'']\<rparr>"
  have x: "TControl \<in> set (se_live run_sess)" "se_message run_sess = None" "se_open run_sess" by (simp_all add: run_sess_def newSess_def)
  have "run_step (run_client ?s [run_sess] (InSession 0) False) (run_client ?s [?x] (InSession 0) False)"
    using message_read [where v = "run_client ?s [run_sess] (InSession 0) False" and i = 0 and x = run_sess and ty = TypePeerList and payload = "[7]"] x
    by (simp add: run_client_def on_sess_def)
  moreover have "run_step (run_client ?s [?x] (InSession 0) False) (run_client ?l [?x] (InSession 0) True)"
    using left [where v = "run_client ?s [?x] (InSession 0) False" and now = 7] by (simp add: run_client_def)
  moreover have "run_step (run_client ?l [?x] (InSession 0) True) (run_client ?l [?y] (Failed CCancelled) True)"
    using interrupted [where v = "run_client ?l [?x] (InSession 0) True" and i = 0 and x = ?x] by (simp add: run_client_def on_sess_def)
  moreover have "run_step (run_client ?l [?y] (Failed CCancelled) True) (run_client ?l [?y] Stopped True)"
    using loop_after [where v = "run_client ?l [?y] (Failed CCancelled) True" and e = CCancelled] by (simp add: run_client_def loopAfter_def)
  moreover have "run_step (run_client ?l [?y] Stopped True) (run_client ?i [?y] Over True)"
    using over [where v = "run_client ?l [?y] Stopped True" and now = 8] by (simp add: run_client_def)
  moreover have "run_step (run_client ?i [?y] Over True) (run_client (updatePeers 9 ?pl ?i) [run_sess\<lparr>se_open := False\<rparr>] Over True)"
  proof -
    have "controlStep run_codec (run_writer (se_open ?y)) 9 TypePeerList [7] (se_control ?y, ?i) = ((se_control ?y, updatePeers 9 ?pl ?i), None)"
      by (simp add: controlStep_def run_codec_def single_def)
    moreover have eq: "run_sess\<lparr>se_open := False, se_message := None\<rparr> = run_sess\<lparr>se_open := False\<rparr>"
      by (simp add: run_sess_def newSess_def)
    ultimately show ?thesis
      using message_handled [where v = "run_client ?i [?y] Over True" and i = 0 and x = ?y and ty = TypePeerList and payload = "[7]" and now = 9 and cd = run_codec and wr = run_writer] x
      by (simp add: run_client_def on_sess_def control_step_def Let_def eq)
  qed
  ultimately show ?thesis using run_session client_next by meson
qed

section \<open>Properties\<close>

text \<open>C26. Whatever a client goes through, joining, losing its connection, reconnecting and leaving in
  every interleaving of its goroutines, its status is well-typed: the state is one of the
  seven the page knows, the latency table has exactly one entry for each listed peer, each
  entry is in one of four states, and a probe is outstanding exactly when the state says so
  and an id is there to match the answer. What the page is shown is well-typed accordingly: a
  latency is shown for a peer if and only if its state is ok.\<close>

theorem status_typed:
  assumes "client_reachable os cd env cfgText errText wr dwr v"
  shows "status_ok (rn_status v)
    \<and> list_all (\<lambda>p. cps_LatencyState p \<in> set lat_states \<and> (cps_LatencyMicros p \<noteq> None \<longleftrightarrow> cps_LatencyState p = ''ok''))
        (cs_Peers (Status_Snapshot now (rn_status v)))"
proof -
  have ok: "status_ok (rn_status v)" using client_reachable_inv [OF assms] by (simp add: client_inv_def)
  have "cps_LatencyState (peerSnap (st_peerLatency (rn_status v)) p) \<in> set lat_states
      \<and> (cps_LatencyMicros (peerSnap (st_peerLatency (rn_status v)) p) \<noteq> None \<longleftrightarrow> cps_LatencyState (peerSnap (st_peerLatency (rn_status v)) p) = ''ok'')"
    if "p \<in> set (st_peers (rn_status v))" for p
  proof -
    have "pi_ID p \<in> fst ` set (lat_table (rn_status v))" using ok that by (auto simp: status_ok_def)
    then obtain l where l: "map_of (lat_table (rn_status v)) (pi_ID p) = Some l" by (metis map_of_eq_None_iff option.exhaust)
    then have "lat_ok l" using ok by (auto simp: status_ok_def list_all_iff dest!: map_of_SomeD)
    then have "lat_State l \<in> set lat_states" "lat_State l \<noteq> ''''" by (auto simp: lat_ok_def lat_states_def)
    then show ?thesis using l by (simp add: peerSnap_def lat_table_def [symmetric] Let_def)
  qed
  then show ?thesis using ok by (simp add: Status_Snapshot_def list_all_iff)
qed

theorem status_typed_witness:
  "status_ok run_status \<and> map cps_LatencyState (cs_Peers (Status_Snapshot 9 run_status)) = [''unknown'', ''unknown'']"
proof -
  have "map cps_LatencyState (cs_Peers (Status_Snapshot 9 run_status)) = [''unknown'', ''unknown'']" by code_simp
  then show ?thesis using status_typed [OF run_reconnected] by (simp add: run_client_def)
qed

text \<open>C27. No goroutine of the client is ever blocked on the error channel: each of the four that a
  session starts sends at most one error, the channel has four places, and so an error can
  always be sent, also when the session has long returned and nobody receives any more. A
  session that is waiting and has been sent an error can return with it.\<close>

theorem errch_never_blocks:
  assumes "client_reachable os cd env cfgText errText wr dwr v" and "i < length (rn_sess v)"
  shows "se_stuck (rn_sess v ! i) = [] \<and> length (se_errCh (rn_sess v ! i)) + length (se_live (rn_sess v ! i)) \<le> 4
    \<and> (t \<in> set (se_live (rn_sess v ! i)) \<longrightarrow> se_stuck (fails t e (rn_sess v ! i)) = [])
    \<and> (rn_phase v = InSession i \<and> se_errCh (rn_sess v ! i) \<noteq> [] \<longrightarrow>
         (\<exists>v'. client_step os cd env cfgText errText wr dwr v v' \<and> rn_phase v' = Failed (hd (se_errCh (rn_sess v ! i)))))"
proof -
  have ok: "sess_ok (rn_sess v ! i)" using client_inv_at [OF client_reachable_inv [OF assms(1)] assms(2)] .
  have "\<exists>v'. client_step os cd env cfgText errText wr dwr v v' \<and> rn_phase v' = Failed (hd (se_errCh (rn_sess v ! i)))"
    if ph: "rn_phase v = InSession i" and ne: "se_errCh (rn_sess v ! i) \<noteq> []"
  proof -
    obtain e es where "se_errCh (rn_sess v ! i) = e # es" using ne by (cases "se_errCh (rn_sess v ! i)") auto
    then show ?thesis using received [OF ph refl] by fastforce
  qed
  then show ?thesis using ok fails_ok [OF ok, of t e] by (auto simp: sess_ok_def)
qed

theorem errch_never_blocks_witness:
  "se_stuck run_old = [] \<and> se_live run_old = [TReader, TWriter, TTracker] \<and> se_stuck (fails TTracker (CProto (ErrIO EOF)) run_old) = []"
proof -
  have "se_live run_old = [TReader, TWriter, TTracker]" by code_simp
  then show ?thesis
    using errch_never_blocks [OF run_reconnected, of 0 TTracker "CProto (ErrIO EOF)"] by (simp add: run_client_def)
qed

lemma tick_closed:
  "fst (trackerTick run_codec (run_writer False) rnd now (w, s)) = (w, fst (nextLatencyProbe rnd now (expireLatencyProbes now s)))"
  by (auto simp: trackerTick_def run_writer_def WriteJSON_def WriteMessage_def Let_def split: prod.splits option.splits sum.splits)

text \<open>C30. The goroutines of an ended session still act on the status, which they share with what
  follows. The tracker is bound to the context of the whole client and not to its session:
  after a reconnect the old tracker still ticks, marks a peer of the new session as being
  probed and finds only then that its stream is closed, so the peer waits for an answer to a
  probe that was never sent. And the reader of the control stream may have a peer list in its
  hands when the user leaves: the client is idle, in no room, and its page shows peers.\<close>

theorem leftover_goroutines:
  "(\<exists>v v'. run_reachable v \<and> run_step v v' \<and> rn_phase v' = InSession 1 \<and> st_state (rn_status v') = ''connected''
      \<and> \<not> lat_Pending (lat_of (lat_table (rn_status v)) ''b'') \<and> lat_Pending (lat_of (lat_table (rn_status v')) ''b'')
      \<and> se_open (rn_sess v' ! 1) \<and> se_control (rn_sess v' ! 1) = frame_bytes (TypeJoinRoom, [1]) \<and> se_control (rn_sess v' ! 0) = se_control (rn_sess v ! 0))
   \<and> (\<exists>v. run_reachable v \<and> rn_phase v = Over \<and> st_state (rn_status v) = ''idle'' \<and> st_room (rn_status v) = ''lobby''
      \<and> st_peerID (rn_status v) = '''' \<and> map pi_ID (st_peers (rn_status v)) = [''b''])"
proof
  let ?v = "run_client run_status [run_old, run_sess] (InSession 1) False" and ?rnd = "replicate 16 (1 :: byte)"
  let ?res = "trackerTick run_codec (run_writer (se_open run_old)) (Some ?rnd) 6 (se_control run_old, run_status)"
  let ?v' = "control_step 0 TTracker ?res run_old ?v"
  have "run_step ?v ?v'"
    using tick [where v = ?v and i = 0 and x = run_old and rnd = "Some ?rnd" and now = 6 and cd = run_codec and wr = run_writer]
    by (simp add: run_client_def run_old_def fails_def run_sess_def newSess_def errChCap_def Let_def)
  moreover have "rn_phase ?v' = InSession 1" "rn_sess ?v' ! 1 = run_sess" "rn_sess ?v ! 0 = run_old" "rn_status ?v = run_status"
    "rn_status ?v' = snd (fst ?res)" "se_control (rn_sess ?v' ! 0) = fst (fst ?res)"
    by (simp_all add: control_step_def run_client_def on_sess_def fails_def Let_def split: prod.splits option.splits)
  moreover have "fst (fst ?res) = se_control run_old" "snd (fst ?res) = fst (nextLatencyProbe (Some ?rnd) 6 (expireLatencyProbes 6 run_status))"
    using tick_closed by (simp_all add: run_old_def)
  moreover have "st_state (fst (nextLatencyProbe (Some ?rnd) 6 (expireLatencyProbes 6 run_status))) = ''connected''"
    "lat_Pending (lat_of (lat_table (fst (nextLatencyProbe (Some ?rnd) 6 (expireLatencyProbes 6 run_status)))) ''b'')"
    "\<not> lat_Pending (lat_of (lat_table run_status) ''b'')"
    by code_simp+
  moreover have "se_open run_sess" "se_control run_sess = frame_bytes (TypeJoinRoom, [1])" by (simp_all add: run_sess_def newSess_def)
  ultimately show "\<exists>v v'. run_reachable v \<and> run_step v v' \<and> rn_phase v' = InSession 1 \<and> st_state (rn_status v') = ''connected''
      \<and> \<not> lat_Pending (lat_of (lat_table (rn_status v)) ''b'') \<and> lat_Pending (lat_of (lat_table (rn_status v')) ''b'')
      \<and> se_open (rn_sess v' ! 1) \<and> se_control (rn_sess v' ! 1) = frame_bytes (TypeJoinRoom, [1]) \<and> se_control (rn_sess v' ! 0) = se_control (rn_sess v ! 0)"
    using run_reconnected by (intro exI [of _ ?v] exI [of _ ?v']) simp
  let ?s = "updatePeers 9 \<lparr>pl_RoomCreatedAt = 1, pl_Peers = [demo_info ''b'']\<rparr> (endSession 8 None ''idle''
    (setState 7 ''leaving'' (joined_status 5 demo_accept run_start)))"
  have "st_state ?s = ''idle''" "st_room ?s = ''lobby''" "st_peerID ?s = ''''" "map pi_ID (st_peers ?s) = [''b'']" by code_simp+
  then show "\<exists>v. run_reachable v \<and> rn_phase v = Over \<and> st_state (rn_status v) = ''idle'' \<and> st_room (rn_status v) = ''lobby''
      \<and> st_peerID (rn_status v) = '''' \<and> map pi_ID (st_peers (rn_status v)) = [''b'']"
    using run_left by (intro exI [of _ "run_client ?s [run_sess\<lparr>se_open := False\<rparr>] Over True"]) (simp add: run_client_def)
qed

end
