(* ===== verification/Flags.thy ===== *)
theory Flags
  imports Tap
begin

text \<open>
  The command lines of \<^verbatim>\<open>src/cmd/server/main.go\<close> and \<^verbatim>\<open>src/cmd/client/main.go\<close> are read by Go's
  \<^verbatim>\<open>flag\<close> package: the syntax of arguments (\<^verbatim>\<open>FlagSet.Parse\<close>) and of boolean and integer values
  (\<^verbatim>\<open>strconv.ParseBool\<close>, and \<^verbatim>\<open>strconv.ParseInt\<close> with base 0).
\<close>

section \<open>Values\<close>

definition ParseBool :: "string \<Rightarrow> bool option" where
  "ParseBool s =
     (if s \<in> {''1'', ''t'', ''T'', ''true'', ''TRUE'', ''True''} then Some True
      else if s \<in> {''0'', ''f'', ''F'', ''false'', ''FALSE'', ''False''} then Some False
      else None)"

definition lower :: "char \<Rightarrow> char" where
  "lower c = (if 65 \<le> (of_char c :: nat) \<and> (of_char c :: nat) \<le> 90 then char_of ((of_char c :: nat) + 32) else c)"

text \<open>The base of a number and its digits; a leading zero alone means octal.\<close>

definition base_split :: "string \<Rightarrow> int \<times> string" where
  "base_split s =
     (if s = [] \<or> hd s \<noteq> CHR ''0'' then (10, s)
      else if 3 \<le> length s \<and> lower (s ! 1) = CHR ''b'' then (2, drop 2 s)
      else if 3 \<le> length s \<and> lower (s ! 1) = CHR ''o'' then (8, drop 2 s)
      else if 3 \<le> length s \<and> lower (s ! 1) = CHR ''x'' then (16, drop 2 s)
      else (8, drop 1 s))"

definition letter_val :: "char \<Rightarrow> nat option" where
  "letter_val c =
     (case digit_val c of
        Some d \<Rightarrow> Some d
      | None \<Rightarrow> if 97 \<le> (of_char (lower c) :: nat) \<and> (of_char (lower c) :: nat) \<le> 122 then Some ((of_char (lower c) :: nat) - 87) else None)"

fun digits_value :: "int \<Rightarrow> int \<Rightarrow> string \<Rightarrow> int option" where
  "digits_value base n [] = Some n"
| "digits_value base n (c # cs) =
     (if c = CHR ''_'' then digits_value base n cs
      else case letter_val c of
        None \<Rightarrow> None
      | Some d \<Rightarrow> if base \<le> int d then None else digits_value base (n * base + int d) cs)"

text \<open>Underscores may only stand between digits; the base prefix counts as one.\<close>

fun underscores :: "bool \<Rightarrow> char \<Rightarrow> string \<Rightarrow> bool" where
  "underscores hex i [] \<longleftrightarrow> i \<noteq> CHR ''_''"
| "underscores hex i (c # cs) \<longleftrightarrow>
     (if is_digit c \<or> hex \<and> 97 \<le> (of_char (lower c) :: nat) \<and> (of_char (lower c) :: nat) \<le> 102 then underscores hex (CHR ''0'') cs
      else if c = CHR ''_'' then i = CHR ''0'' \<and> underscores hex (CHR ''_'') cs
      else i \<noteq> CHR ''_'' \<and> underscores hex (CHR ''!'') cs)"

definition underscoreOK :: "string \<Rightarrow> bool" where
  "underscoreOK s =
     (if 2 \<le> length s \<and> hd s = CHR ''0'' \<and> lower (s ! 1) \<in> {CHR ''b'', CHR ''o'', CHR ''x''}
      then underscores (lower (s ! 1) = CHR ''x'') (CHR ''0'') (drop 2 s)
      else underscores False (CHR ''^'') s)"

definition ParseUint0 :: "string \<Rightarrow> int option" where
  "ParseUint0 s =
     (if s = '''' then None
      else case base_split s of
        (base, ds) \<Rightarrow>
          (case digits_value base 0 ds of
             None \<Rightarrow> None
           | Some n \<Rightarrow> if 2 ^ 64 \<le> n \<or> CHR ''_'' \<in> set ds \<and> \<not> underscoreOK s then None else Some n))"

definition ParseInt0 :: "string \<Rightarrow> int option" where
  "ParseInt0 s =
     (let neg = (s \<noteq> '''' \<and> hd s = CHR ''-'');
          s1 = (if s \<noteq> '''' \<and> (hd s = CHR ''-'' \<or> hd s = CHR ''+'') then tl s else s)
      in case ParseUint0 s1 of
           None \<Rightarrow> None
         | Some un \<Rightarrow>
             if \<not> neg \<and> 2 ^ 63 \<le> un \<or> neg \<and> 2 ^ 63 < un then None else Some (if neg then - un else un))"

section \<open>Arguments\<close>

datatype flag_value = FString string | FBool bool | FInt int

type_synonym flags = "(string \<times> flag_value) list"

datatype flag_error = BadSyntax string | NotDefined string | HelpWanted | NeedsArgument string | InvalidValue string string

definition setFlag :: "string \<Rightarrow> flag_value \<Rightarrow> string \<Rightarrow> flags \<Rightarrow> flag_error + flags" where
  "setFlag name old value fs =
     (case old of
        FString _ \<Rightarrow> Inr (AList.update name (FString value) fs)
      | FBool _ \<Rightarrow> (case ParseBool value of None \<Rightarrow> Inl (InvalidValue name value) | Some b \<Rightarrow> Inr (AList.update name (FBool b) fs))
      | FInt _ \<Rightarrow> (case ParseInt0 value of None \<Rightarrow> Inl (InvalidValue name value) | Some n \<Rightarrow> Inr (AList.update name (FInt n) fs)))"

text \<open>An argument without its dashes: the name, and the value if there is an equals sign behind the first character.\<close>

definition splitFlag :: "string \<Rightarrow> string \<times> string option" where
  "splitFlag s =
     (let name = hd s # takeWhile (\<lambda>c. c \<noteq> CHR ''='') (tl s); rest = dropWhile (\<lambda>c. c \<noteq> CHR ''='') (tl s)
      in (name, if rest = [] then None else Some (tl rest)))"

datatype arg_kind = Operand | Terminator | Malformed | Flag string "string option"

definition argKind :: "string \<Rightarrow> arg_kind" where
  "argKind s =
     (if length s < 2 \<or> hd s \<noteq> CHR ''-'' then Operand
      else if s = ''--'' then Terminator
      else
        (let name = (if s ! 1 = CHR ''-'' then drop 2 s else drop 1 s)
         in if name = '''' \<or> hd name = CHR ''-'' \<or> hd name = CHR ''='' then Malformed
            else case splitFlag name of (n, v) \<Rightarrow> Flag n v))"

fun parseFlags :: "string list \<Rightarrow> flags \<Rightarrow> flag_error + flags \<times> string list" where
  "parseFlags [] fs = Inr (fs, [])"
| "parseFlags (s # args) fs =
     (case argKind s of
        Operand \<Rightarrow> Inr (fs, s # args)
      | Terminator \<Rightarrow> Inr (fs, args)
      | Malformed \<Rightarrow> Inl (BadSyntax s)
      | Flag name value \<Rightarrow>
          (case map_of fs name of
             None \<Rightarrow> Inl (if name = ''help'' \<or> name = ''h'' then HelpWanted else NotDefined name)
           | Some old \<Rightarrow>
               (case value of
                  Some v \<Rightarrow> (case setFlag name old v fs of Inl e \<Rightarrow> Inl e | Inr fs1 \<Rightarrow> parseFlags args fs1)
                | None \<Rightarrow>
                    (case old of
                       FBool _ \<Rightarrow> (case setFlag name old ''true'' fs of Inl e \<Rightarrow> Inl e | Inr fs1 \<Rightarrow> parseFlags args fs1)
                     | _ \<Rightarrow>
                         (case args of
                            [] \<Rightarrow> Inl (NeedsArgument name)
                          | v # args1 \<Rightarrow> (case setFlag name old v fs of Inl e \<Rightarrow> Inl e | Inr fs1 \<Rightarrow> parseFlags args1 fs1))))))"

section \<open>What is written is read\<close>

lemma digits_value_append:
  "digits_value base n (s @ t) = Option.bind (digits_value base n s) (\<lambda>m. digits_value base m t)"
  by (induction base n s rule: digits_value.induct) (auto split: option.splits)

lemma digits_value_dec: "digits_value 10 0 (dec_string n) = Some (int n)"
proof (induction n rule: dec_string.induct)
  case (1 n)
  have d: "digits_value 10 m [char_of (48 + k)] = Some (m * 10 + int k)" if "k < 10" for m k
  proof -
    have v: "digit_val (char_of (48 + k)) = Some k" using that by (rule digit_val_dec)
    moreover have "digit_val (CHR ''_'') = None" by code_simp
    ultimately have "char_of (48 + k) \<noteq> CHR ''_''" by (metis option.distinct(1))
    then show ?thesis using v that by (simp add: letter_val_def)
  qed
  show ?case
  proof (cases "n < 10")
    case True
    then show ?thesis using d [of n 0] by (subst dec_string.simps) simp
  next
    case False
    have "int (n div 10) * 10 + int (n mod 10) = int n" by (metis div_mult_mod_eq of_nat_add of_nat_mult of_nat_numeral)
    then have "digits_value 10 (int (n div 10)) [char_of (48 + n mod 10)] = Some (int n)" using d [of "n mod 10" "int (n div 10)"] by simp
    moreover have "digits_value 10 0 (dec_string (n div 10)) = Some (int (n div 10))" using 1 False by simp
    ultimately show ?thesis using False by (subst dec_string.simps) (simp add: digits_value_append del: digits_value.simps)
  qed
qed

lemma ParseUint0_dec: "int n < 2 ^ 64 \<Longrightarrow> ParseUint0 (dec_string n) = Some (int n)"
proof (cases "n = 0")
  case False
  moreover assume "int n < 2 ^ 64"
  moreover have "CHR ''_'' \<notin> set (dec_string n)" by (rule dec_string_not_in) (simp add: is_digit_def digit_val_def)
  ultimately show ?thesis using hd_dec_string [of n] by (simp add: ParseUint0_def base_split_def digits_value_dec)
next
  case True
  have "char_of (48 + 0 :: nat) = CHR ''0''" "ParseUint0 ''0'' = Some 0" by code_simp+
  moreover from this have "dec_string 0 = ''0''" by (subst dec_string.simps) simp
  ultimately show ?thesis using True by simp
qed

lemma ParseInt0_Itoa:
  assumes "- (2 ^ 63) \<le> n" and "n < 2 ^ 63"
  shows "ParseInt0 (Itoa n) = Some n"
proof (cases "n < 0")
  case True
  then have "int (nat (- n)) < 2 ^ 64" using assms by simp
  then show ?thesis using True assms by (simp add: Itoa_def ParseInt0_def ParseUint0_dec)
next
  case False
  have "hd (dec_string (nat n)) \<notin> {CHR ''-'', CHR ''+''}"
    using dec_string_digits [of "nat n"] by (cases "dec_string (nat n)") (auto simp: is_digit_def digit_val_def)
  moreover have "int (nat n) < 2 ^ 64" using assms False by simp
  ultimately show ?thesis using False assms by (simp add: Itoa_def ParseInt0_def ParseUint0_dec)
qed

text \<open>An argument that names a flag and its value sets it, whatever the value is.\<close>

definition flagArg :: "string \<times> string \<Rightarrow> string" where
  "flagArg a = ''-'' @ fst a @ ''='' @ snd a"

definition plain_name :: "string \<Rightarrow> bool" where
  "plain_name n \<longleftrightarrow> n \<noteq> '''' \<and> hd n \<noteq> CHR ''-'' \<and> CHR ''='' \<notin> set n"

lemma argKind_flag: "plain_name n \<Longrightarrow> argKind (flagArg (n, v)) = Flag n (Some v)"
proof (cases n)
  case (Cons c cs)
  moreover assume "plain_name n"
  moreover have "CHR ''='' \<notin> set cs \<Longrightarrow> takeWhile (\<lambda>c. c \<noteq> CHR ''='') (cs @ CHR ''='' # v) = cs" by (induction cs) auto
  moreover have "CHR ''='' \<notin> set cs \<Longrightarrow> dropWhile (\<lambda>c. c \<noteq> CHR ''='') (cs @ CHR ''='' # v) = CHR ''='' # v" by (induction cs) auto
  ultimately show ?thesis by (auto simp: argKind_def flagArg_def plain_name_def splitFlag_def Let_def)
qed (simp add: plain_name_def)

end
