(* ===== verification/Programs.thy ===== *)
theory Programs
  imports Webui Server Control Flags
begin

text \<open>
  The two programs around the library: \<^verbatim>\<open>main\<close> of \<^verbatim>\<open>src/cmd/server/main.go\<close> and
  \<^verbatim>\<open>src/cmd/client/main.go\<close>, the start of the server in \<^verbatim>\<open>src/internal/server/server.go\<close> with its
  development certificate and its status page, the start of a page in
  \<^verbatim>\<open>src/internal/webui/server.go\<close>, and what is written to the log when a session ends. The
  cryptographic operations, the listeners and the HTTP server are arguments.
\<close>

section \<open>Addresses of pages (net.SplitHostPort, net.JoinHostPort)\<close>

definition last_colon :: "string \<Rightarrow> (string \<times> string) option" where
  "last_colon s =
     (if CHR '':'' \<notin> set s then None
      else Some (rev (tl (dropWhile (\<lambda>c. c \<noteq> CHR '':'') (rev s))), rev (takeWhile (\<lambda>c. c \<noteq> CHR '':'') (rev s))))"

definition SplitHostPort :: "string \<Rightarrow> string + string \<times> string" where
  "SplitHostPort s =
     (case last_colon s of
        None \<Rightarrow> Inl ''missing port in address''
      | Some (before, port) \<Rightarrow>
          if hd s = CHR ''['' then
            (let host = takeWhile (\<lambda>c. c \<noteq> CHR '']'') (tl s); rest = dropWhile (\<lambda>c. c \<noteq> CHR '']'') (tl s) in
             if rest = [] then Inl ''missing ']' in address''
             else if tl rest = [] then Inl ''missing port in address''
             else if tl rest \<noteq> CHR '':'' # port then
               Inl (if hd (tl rest) = CHR '':'' then ''too many colons in address'' else ''missing port in address'')
             else if CHR ''['' \<in> set (tl s) then Inl ''unexpected '[' in address''
             else if CHR '']'' \<in> set (tl rest) then Inl ''unexpected ']' in address''
             else Inr (host, port))
          else if CHR '':'' \<in> set before then Inl ''too many colons in address''
          else if CHR ''['' \<in> set s then Inl ''unexpected '[' in address''
          else if CHR '']'' \<in> set s then Inl ''unexpected ']' in address''
          else Inr (before, port))"

definition JoinHostPort :: "string \<Rightarrow> string \<Rightarrow> string" where
  "JoinHostPort host port = (if CHR '':'' \<in> set host then ''['' @ host @ '']:'' @ port else host @ '':'' @ port)"

definition displayAddr :: "string \<Rightarrow> string" where
  "displayAddr addr =
     (case SplitHostPort addr of
        Inl e \<Rightarrow> addr
      | Inr (host, port) \<Rightarrow> JoinHostPort (if host = '''' then ''127.0.0.1'' else host) port)"

section \<open>Serving a page\<close>

datatype http_end = ServerClosed | HTTPFailed string

text \<open>The select at the end: the context is done first (None), or the HTTP server has returned.\<close>

definition web_ListenAndServe :: "string \<Rightarrow> bool \<Rightarrow> http_end option \<Rightarrow> string option" where
  "web_ListenAndServe addr hasSnapshot first =
     (if addr = '''' then None
      else if \<not> hasSnapshot then Some ''web UI snapshot function is required''
      else case first of
        None \<Rightarrow> None
      | Some ServerClosed \<Rightarrow> None
      | Some (HTTPFailed e) \<Rightarrow> Some e)"

text \<open>The body of an answer: a missing value is shown as ok, and a value that cannot be encoded is an error.\<close>

definition writeJSON :: "('v \<Rightarrow> string + bytes) \<Rightarrow> bytes \<Rightarrow> 'v option \<Rightarrow> int \<times> bytes + string" where
  "writeJSON encode okBody value =
     (case value of
        None \<Rightarrow> Inl (200, okBody)
      | Some v \<Rightarrow> (case encode v of Inr body \<Rightarrow> Inl (200, body) | Inl e \<Rightarrow> Inr e))"

text \<open>The page of the server: its state is the relay with the capture.\<close>

type_synonym server_state = "Store \<times> CaptureRecorder option"

definition serverWeb :: "time \<Rightarrow> WebFeatures \<Rightarrow> LogRecorder option \<Rightarrow> (server_state, view_value) WebServer" where
  "serverWeb now f logs =
     \<lparr>ws_Token = web_Token f,
      ws_Snapshot = (\<lambda>(s, cap). VServer (Manager_Snapshot now s)),
      ws_Devices = None, ws_Join = None, ws_Leave = None,
      ws_Logs = (if web_Logs f then map_option (\<lambda>l s. VLogs (log_Snapshot l)) logs else None),
      ws_Capture = (if web_Capture f then Some (\<lambda>(s, cap). VCapture (Recorder_Snapshot now cap)) else None),
      ws_CaptureEnable = (if web_Capture f then Some (captureEnableHandler now snd (\<lambda>cap (s, _). (s, cap))) else None),
      ws_CaptureDisable = (if web_Capture f then Some (captureDisableHandler now snd (\<lambda>cap (s, _). (s, cap))) else None)\<rparr>"

section \<open>Starting the server\<close>

record QUICConfig =
  quic_MaxIdleTimeout :: duration
  quic_KeepAlivePeriod :: duration

definition quicConfig :: QUICConfig where
  "quicConfig = \<lparr>quic_MaxIdleTimeout = 60 * second, quic_KeepAlivePeriod = 20 * second\<rparr>"

text \<open>The certificate that is made when none is given. Its steps are those of the crypto packages.\<close>

record CertTemplate =
  ct_SerialNumber :: int
  ct_CommonName :: string
  ct_NotBefore :: time
  ct_NotAfter :: time
  ct_KeyUsage :: "string list"
  ct_ExtKeyUsage :: "string list"
  ct_DNSNames :: "string list"
  ct_IPAddresses :: "bytes list"

definition devTemplate :: "time \<Rightarrow> CertTemplate" where
  "devTemplate now =
     \<lparr>ct_SerialNumber = UnixNano now, ct_CommonName = ''anylan dev'', ct_NotBefore = now - 60 * second,
      ct_NotAfter = now + 24 * 3600 * second, ct_KeyUsage = [''KeyEncipherment'', ''DigitalSignature''],
      ct_ExtKeyUsage = [''ServerAuth''], ct_DNSNames = [''localhost''], ct_IPAddresses = []\<rparr>"

record ('key, 'cert) Crypto =
  cr_GenerateKey :: "string + 'key"
  cr_CreateCertificate :: "CertTemplate \<Rightarrow> 'key \<Rightarrow> string + bytes"
  cr_MarshalECPrivateKey :: "'key \<Rightarrow> string + bytes"
  cr_EncodePEM :: "string \<Rightarrow> bytes \<Rightarrow> bytes"
  cr_X509KeyPair :: "bytes \<Rightarrow> bytes \<Rightarrow> string + 'cert"

definition devCertificate :: "('key, 'cert) Crypto \<Rightarrow> time \<Rightarrow> string + 'cert" where
  "devCertificate cr now =
     (case cr_GenerateKey cr of
        Inl e \<Rightarrow> Inl e
      | Inr key \<Rightarrow>
          (case cr_CreateCertificate cr (devTemplate now) key of
             Inl e \<Rightarrow> Inl e
           | Inr certDER \<Rightarrow>
               (case cr_MarshalECPrivateKey cr key of
                  Inl e \<Rightarrow> Inl e
                | Inr keyDER \<Rightarrow> cr_X509KeyPair cr (cr_EncodePEM cr ''CERTIFICATE'' certDER) (cr_EncodePEM cr ''EC PRIVATE KEY'' keyDER))))"

datatype start_error = StartTLS tls_error | StartListen string

text \<open>The listener is an argument; the accept loop has the connections that come in.\<close>

definition Server_Serve ::
  "'l ServerCfg \<Rightarrow> ('e \<times> 'e option + 'conn) list \<Rightarrow> (Store \<times> Handler \<times> WebFeatures option) \<times> 'conn list \<times> 'e option" where
  "Server_Serve s accepts = (serveSetup s, acceptLoop accepts)"

definition Server_ListenAndServe ::
  "(string \<Rightarrow> string \<Rightarrow> string + 'cert) \<Rightarrow> (string + 'cert) \<Rightarrow> (string \<Rightarrow> 'cert TLSConfig \<Rightarrow> QUICConfig \<Rightarrow> string option) \<Rightarrow> 'l ServerCfg
     \<Rightarrow> ('e \<times> 'e option + 'conn) list \<Rightarrow> start_error + (Store \<times> Handler \<times> WebFeatures option) \<times> 'conn list \<times> 'e option" where
  "Server_ListenAndServe load dev listen s0 accepts =
     (let s = listenDefaults s0 in
      case tlsConfig load dev s of
        Inl e \<Rightarrow> Inl (StartTLS e)
      | Inr tls \<Rightarrow>
          (case listen (srv_Addr s) tls quicConfig of
             Some e \<Rightarrow> Inl (StartListen e)
           | None \<Rightarrow> Inr (Server_Serve s accepts)))"

definition Server_Listen ::
  "(string \<Rightarrow> string \<Rightarrow> string + 'cert) \<Rightarrow> (string + 'cert) \<Rightarrow> ('cert TLSConfig \<Rightarrow> QUICConfig \<Rightarrow> string + 'listener) \<Rightarrow> 'l ServerCfg
     \<Rightarrow> start_error + 'listener" where
  "Server_Listen load dev listen s0 =
     (case tlsConfig load dev (poolAndMTU s0) of
        Inl e \<Rightarrow> Inl (StartTLS e)
      | Inr tls \<Rightarrow> (case listen tls quicConfig of Inl e \<Rightarrow> Inl (StartListen e) | Inr l \<Rightarrow> Inr l))"

text \<open>
  A connection: the first stream is accepted, its conversation is held, and the connection is
  closed unless the client was rejected, which is left to close it after reading the reason.
\<close>

definition HandleConnection ::
  "Codec \<Rightarrow> string \<Rightarrow> 'w writer \<Rightarrow> 'd writer \<Rightarrow> (string + 'd) \<Rightarrow> Handler \<Rightarrow> Draw list \<Rightarrow> (string + Reader) \<Rightarrow> session_event list
     \<Rightarrow> 'w \<Rightarrow> 'd \<Rightarrow> Store \<Rightarrow> Store \<times> 'w \<times> bool" where
  "HandleConnection cd randText wr dwr opened h ds accepted evs w d0 s =
     (case accepted of
        Inl e \<Rightarrow> (s, w, True)
      | Inr r \<Rightarrow>
          (case handleStream cd randText wr dwr opened (if h_MTU h = 0 then h\<lparr>h_MTU := DefaultMTU\<rparr> else h) ds r evs w d0 s of
             (s1, w1, out) \<Rightarrow>
               (s1, w1, case snd (handleJoin cd randText ds r s) of Some (Rejected reason) \<Rightarrow> False | _ \<Rightarrow> True)))"

section \<open>What the log says of a session\<close>

text \<open>\<^verbatim>\<open>Duration.Round\<close> to whole seconds, half away from zero; the result may saturate.\<close>

definition roundSecond :: "duration \<Rightarrow> duration" where
  "roundSecond d =
     (if d < 0 then
        (let r = (- d) mod second in
         if r + r < second then d + r else max (- (2 ^ 63)) (d - second + r))
      else
        (let r = d mod second in
         if r + r < second then d - r else min (2 ^ 63 - 1) (d + second - r)))"

record sessionLogSnapshot =
  sl_Server :: string
  sl_Room :: string
  sl_DisplayName :: string
  sl_DeviceName :: string
  sl_State :: string
  sl_PeerID :: string
  sl_IPv4 :: string
  sl_MAC :: string
  sl_JoinedAt :: time
  sl_RxBytes :: u64
  sl_RxFrames :: u64
  sl_TxBytes :: u64
  sl_TxFrames :: u64
  sl_Reconnects :: u64

definition sessionLog :: "Status \<Rightarrow> sessionLogSnapshot" where
  "sessionLog s =
     \<lparr>sl_Server = st_server s, sl_Room = st_room s, sl_DisplayName = st_displayName s, sl_DeviceName = st_deviceName s,
      sl_State = st_state s, sl_PeerID = st_peerID s, sl_IPv4 = st_ipv4 s, sl_MAC = st_mac s, sl_JoinedAt = st_joinedAt s,
      sl_RxBytes = st_rxBytes s, sl_RxFrames = st_rxFrames s, sl_TxBytes = st_txBytes s, sl_TxFrames = st_txFrames s,
      sl_Reconnects = st_reconnects s\<rparr>"

text \<open>The values of the line, in their order.\<close>

record SessionEndLine =
  se_snap :: sessionLogSnapshot
  se_nextState :: string
  se_reason :: string
  se_duration :: duration

definition logSessionEnd :: "(client_err \<Rightarrow> string) \<Rightarrow> time \<Rightarrow> Status \<Rightarrow> client_err option \<Rightarrow> string \<Rightarrow> SessionEndLine" where
  "logSessionEnd errText now s err nextState =
     (let snap = sessionLog s
      in \<lparr>se_snap = snap, se_nextState = nextState, se_reason = errorString errText err,
          se_duration = (if IsZero (sl_JoinedAt snap) then 0 else roundSecond (time_Sub now (sl_JoinedAt snap)))\<rparr>)"

record PeerLeftLine =
  plf_room :: string
  plf_peer :: PeerSnapshot
  plf_remote :: string
  plf_duration :: duration
  plf_reason :: string
  plf_remaining :: nat

definition logPeerLeft ::
  "(session_err \<Rightarrow> string) \<Rightarrow> string \<Rightarrow> time \<Rightarrow> string \<Rightarrow> string \<Rightarrow> PeerSnapshot \<Rightarrow> nat \<Rightarrow> session_err option \<Rightarrow> PeerLeftLine" where
  "logPeerLeft errText cancelText now remote room peer remaining err =
     \<lparr>plf_room = room, plf_peer = peer, plf_remote = remote, plf_duration = roundSecond (time_Sub now (ps_ConnectedAt peer)),
      plf_reason = leftReason errText cancelText err, plf_remaining = remaining\<rparr>"

section \<open>The programs\<close>

datatype 'c program = Exit int | Run 'c

text \<open>A flag set that exits on an error: with 2, or with 0 where help was wanted.\<close>

definition exitOnError :: "flag_error \<Rightarrow> 'c program" where
  "exitOnError e = Exit (if e = HelpWanted then 0 else 2)"

definition string_flag :: "flags \<Rightarrow> string \<Rightarrow> string" where
  "string_flag fs n = (case map_of fs n of Some (FString s) \<Rightarrow> s | _ \<Rightarrow> '''')"

definition bool_flag :: "flags \<Rightarrow> string \<Rightarrow> bool" where
  "bool_flag fs n = (case map_of fs n of Some (FBool b) \<Rightarrow> b | _ \<Rightarrow> False)"

definition int_flag :: "flags \<Rightarrow> string \<Rightarrow> int" where
  "int_flag fs n = (case map_of fs n of Some (FInt i) \<Rightarrow> i | _ \<Rightarrow> 0)"

definition serverFlags :: flags where
  "serverFlags =
     [(''listen'', FString '':4433''), (''pool'', FString ''10.240.0.0/12''), (''tls-cert'', FString ''''), (''tls-key'', FString ''''),
      (''insecure-dev-cert'', FBool False), (''mtu'', FInt 1300), (''web'', FString '':18080''), (''web-token'', FString '''')]"

definition server_main :: "'l \<Rightarrow> string list \<Rightarrow> 'l ServerCfg program" where
  "server_main logs args =
     (case parseFlags args serverFlags of
        Inl e \<Rightarrow> exitOnError e
      | Inr (fs, rest) \<Rightarrow>
          (case LoadPool (string_flag fs ''pool'') of
             Inl e \<Rightarrow> Exit 1
           | Inr pool \<Rightarrow>
               Run \<lparr>srv_Addr = string_flag fs ''listen'', srv_Pool = pool, srv_TLSCertFile = string_flag fs ''tls-cert'',
                    srv_TLSKeyFile = string_flag fs ''tls-key'', srv_InsecureDevCert = bool_flag fs ''insecure-dev-cert'',
                    srv_MTU = int_flag fs ''mtu'', srv_WebAddr = string_flag fs ''web'', srv_WebToken = string_flag fs ''web-token'',
                    srv_Logs = Some logs, srv_Capture = None\<rparr>))"

definition DefaultWebAddr :: string where "DefaultWebAddr = ''127.0.0.1:18081''"

definition clientFlags :: flags where
  "clientFlags = [(''web'', FString DefaultWebAddr), (''web-token'', FString '''')]"

text \<open>The address and the token that \<^verbatim>\<open>RunControl\<close> serves the page with.\<close>

definition client_main :: "string list \<Rightarrow> (string \<times> string) program" where
  "client_main args =
     (case parseFlags args clientFlags of
        Inl e \<Rightarrow> exitOnError e
      | Inr (fs, rest) \<Rightarrow>
          if rest \<noteq> [] then Exit 2
          else
            (let webAddr = string_flag fs ''web''
             in Run (if webAddr = '''' then DefaultWebAddr else webAddr, string_flag fs ''web-token'')))"

section \<open>The status page of the server\<close>

lemma capture_handlers:
  "fst (fst (captureEnableHandler now snd (\<lambda>cap (s, _). (s, cap)) body x)) = fst x"
  "fst (fst (captureDisableHandler now snd (\<lambda>cap (s, _). (s, cap)) body x)) = fst x"
  by (simp_all add: captureEnableHandler_def captureDisableHandler_def split: prod.splits)

text \<open>The page of the server only looks at the relay: no request, authorised or not, changes a
  room or a peer. The one thing it can change is the capture, by a POST to one of its two
  paths, with the token where one is set and only where the server keeps a capture.\<close>

lemma server_page_readonly:
  assumes "web_Handler (serverWeb now f logs) r (s, cap) = ((s', cap'), rep)"
  shows "s' = s \<and> (cap' \<noteq> cap \<longrightarrow> rq_Method r = ''POST'' \<and> rq_Path r \<in> {''/api/capture/enable'', ''/api/capture/disable''}
    \<and> web_Capture f \<and> (web_Token f = '''' \<or> rq_Authorization r = ''Bearer '' @ web_Token f))"
proof (cases "web_Handler (serverWeb now f logs) r (s, cap) = route (serverWeb now f logs) r (s, cap)")
  case True
  then have run: "route (serverWeb now f logs) r (s, cap) = ((s', cap'), rep)" using assms by simp
  consider "(s', cap') = (s, cap)" | "handled (serverWeb now f logs) r (s, cap) (s', cap')" "web_Token f = '''' \<or> rq_Authorization r = ''Bearer '' @ web_Token f"
    using route_handled [OF run] by (auto simp: serverWeb_def)
  then show ?thesis
  proof cases
    case 2
    obtain h body where h: "(rq_Path r, rq_Method r, Some h) \<in> set (api_table (serverWeb now f logs))" "(s', cap') = fst (h body (s, cap))"
      using 2(1) by (auto simp: handled_def)
    then have "fst (s', cap') = s \<and> rq_Method r = ''POST'' \<and> rq_Path r \<in> {''/api/capture/enable'', ''/api/capture/disable''} \<and> web_Capture f"
      using capture_handlers [of now body "(s, cap)"] unfolding h(2) by (auto simp: api_table_def serverWeb_def split: if_splits)
    then show ?thesis using 2(2) by simp
  qed simp
next
  case False
  then show ?thesis using assms by (auto simp: web_Handler_def split: if_splits)
qed


section \<open>The command line\<close>

lemma parseFlags_flag:
  "plain_name n \<Longrightarrow> parseFlags (flagArg (n, v) # args) fs =
     (case map_of fs n of
        None \<Rightarrow> Inl (if n = ''help'' \<or> n = ''h'' then HelpWanted else NotDefined n)
      | Some old \<Rightarrow> (case setFlag n old v fs of Inl e \<Rightarrow> Inl e | Inr fs1 \<Rightarrow> parseFlags args fs1))"
  by (auto simp: argKind_flag split: option.split)

definition serverArgs :: "'l ServerCfg \<Rightarrow> string list" where
  "serverArgs s =
     map flagArg
       [(''listen'', srv_Addr s), (''pool'', Prefix_String (srv_Pool s)), (''tls-cert'', srv_TLSCertFile s), (''tls-key'', srv_TLSKeyFile s),
        (''insecure-dev-cert'', if srv_InsecureDevCert s then ''true'' else ''false''), (''mtu'', Itoa (srv_MTU s)),
        (''web'', srv_WebAddr s), (''web-token'', srv_WebToken s)]"

text \<open>Every setting of the server can be given on its command line: written as flags with
  their values, whatever characters these contain, a configuration with a pool the relay can
  work with and a 64-bit MTU is exactly the one the server starts with.\<close>

lemma server_command_line:
  assumes "srv_Pool s = PrefixFrom (Addr4 w) (int n)" and "n \<le> 24" and "take_bit (32 - n) w = 0"
    and "- (2 ^ 63) \<le> srv_MTU s" and "srv_MTU s < 2 ^ 63" and "srv_Logs s = Some logs" and "srv_Capture s = None"
  shows "server_main logs (serverArgs s) = Run s"
proof -
  have pool: "LoadPool (Prefix_String (srv_Pool s)) = Inr (srv_Pool s)" using LoadPool_roundtrip [of n w] assms(1-3) by simp
  have names: "plain_name ''listen''" "plain_name ''pool''" "plain_name ''tls-cert''" "plain_name ''tls-key''" "plain_name ''insecure-dev-cert''"
    "plain_name ''mtu''" "plain_name ''web''" "plain_name ''web-token''" by (simp_all add: plain_name_def)
  have b: "ParseBool (if x then ''true'' else ''false'') = Some x" for x by (simp add: ParseBool_def)
  note m = ParseInt0_Itoa [OF assms(4,5)]
  have "parseFlags (serverArgs s) serverFlags = Inr ([(''listen'', FString (srv_Addr s)), (''pool'', FString (Prefix_String (srv_Pool s))),
      (''tls-cert'', FString (srv_TLSCertFile s)), (''tls-key'', FString (srv_TLSKeyFile s)), (''insecure-dev-cert'', FBool (srv_InsecureDevCert s)),
      (''mtu'', FInt (srv_MTU s)), (''web'', FString (srv_WebAddr s)), (''web-token'', FString (srv_WebToken s))], [])"
    by (simp add: serverArgs_def serverFlags_def parseFlags_flag names setFlag_def b m del: parseFlags.simps(2))
  then show ?thesis using assms(6,7) pool by (simp add: server_main_def string_flag_def bool_flag_def int_flag_def)
qed

text \<open>Whatever the arguments are, a server that starts has a pool the relay can work with.\<close>

lemma server_main_pool: "server_main logs args = Run s \<Longrightarrow> pool_ok (srv_Pool s)"
  using LoadPool_ok by (auto simp: server_main_def exitOnError_def split: sum.splits prod.splits if_splits)

section \<open>Addresses\<close>

text \<open>The address that is shown is the one the page listens on, with the loopback address for all interfaces.\<close>

lemma last_colon_join: "CHR '':'' \<notin> set port \<Longrightarrow> last_colon (host @ CHR '':'' # port) = Some (host, port)"
proof -
  assume "CHR '':'' \<notin> set port"
  then have "CHR '':'' \<notin> set (rev port)" by simp
  then have "dropWhile (\<lambda>c. c \<noteq> CHR '':'') (rev port @ CHR '':'' # rev host) = CHR '':'' # rev host"
    "takeWhile (\<lambda>c. c \<noteq> CHR '':'') (rev port @ CHR '':'' # rev host) = rev port"
    by (induction "rev port" rule: list.induct) (auto simp: dropWhile_append takeWhile_append)
  then show ?thesis by (simp add: last_colon_def)
qed

lemma SplitHostPort_join:
  assumes "CHR '':'' \<notin> set port" and "{CHR ''['', CHR '']''} \<inter> (set host \<union> set port) = {}"
  shows "SplitHostPort (JoinHostPort host port) = Inr (host, port)"
proof (cases "CHR '':'' \<in> set host")
  case True
  have "last_colon (''['' @ host @ '']:'' @ port) = Some (''['' @ host @ '']'', port)"
    using last_colon_join [OF assms(1), of "''['' @ host @ '']''"] by simp
  moreover have "takeWhile (\<lambda>c. c \<noteq> CHR '']'') (host @ '']:'' @ port) = host" "dropWhile (\<lambda>c. c \<noteq> CHR '']'') (host @ '']:'' @ port) = '']:'' @ port"
    using assms(2) by (auto simp: takeWhile_append dropWhile_append)
  ultimately show ?thesis using True assms(2) by (auto simp: JoinHostPort_def SplitHostPort_def Let_def)
next
  case False
  have "hd (host @ '':'' @ port) \<noteq> CHR ''[''" using assms(2) by (cases host) auto
  then show ?thesis using last_colon_join [OF assms(1), of host] False assms(2) by (auto simp: JoinHostPort_def SplitHostPort_def)
qed

lemma last_colonD: "last_colon s = Some (before, port) \<Longrightarrow> s = before @ CHR '':'' # port \<and> CHR '':'' \<notin> set port"
proof -
  assume l: "last_colon s = Some (before, port)"
  then have "CHR '':'' \<in> set (rev s)" by (auto simp: last_colon_def split: if_splits)
  then obtain a b where "rev s = a @ CHR '':'' # b" "CHR '':'' \<notin> set a" by (metis split_list_first)
  then have "s = rev b @ CHR '':'' # rev a" "CHR '':'' \<notin> set (rev a)" by (metis append_Cons append_Nil append_assoc rev.simps(2) rev_append rev_rev_ident, simp)
  then show ?thesis using last_colon_join [of "rev a" "rev b"] l by auto
qed

lemma SplitHostPort_parts:
  assumes "SplitHostPort s = Inr (host, port)"
  shows "CHR '':'' \<notin> set port \<and> {CHR ''['', CHR '']''} \<inter> (set host \<union> set port) = {}"
proof -
  obtain before port' where l: "last_colon s = Some (before, port')" using assms by (auto simp: SplitHostPort_def split: option.splits)
  note s = last_colonD [OF l]
  show ?thesis
  proof (cases "hd s = CHR ''[''")
    case True
    let ?rest = "dropWhile (\<lambda>c. c \<noteq> CHR '']'') (tl s)"
    have r: "port = port'" "host = takeWhile (\<lambda>c. c \<noteq> CHR '']'') (tl s)" "tl ?rest = CHR '':'' # port'" "CHR ''['' \<notin> set (tl s)" "CHR '']'' \<notin> set (tl ?rest)"
      using assms True l by (auto simp: SplitHostPort_def Let_def split: if_splits)
    have "set port \<subseteq> set (tl s)"
    proof
      fix c assume "c \<in> set port"
      then have "c \<in> set (tl ?rest)" using r(1,3) by simp
      then have "c \<in> set ?rest" by (cases ?rest) auto
      then show "c \<in> set (tl s)" by (rule set_dropWhileD)
    qed
    moreover have "set host \<subseteq> set (tl s)" unfolding r(2) by (auto dest: set_takeWhileD)
    moreover have "CHR '']'' \<notin> set host" unfolding r(2) by (metis (mono_tags, lifting) set_takeWhileD)
    ultimately show ?thesis using s r by auto
  next
    case False
    then show ?thesis using assms l s by (auto simp: SplitHostPort_def split: if_splits)
  qed
qed

lemma displayAddr_split:
  assumes "SplitHostPort addr = Inr (host, port)"
  shows "SplitHostPort (displayAddr addr) = Inr (if host = '''' then ''127.0.0.1'' else host, port)"
  using SplitHostPort_join [of port "if host = '''' then ''127.0.0.1'' else host"] SplitHostPort_parts [OF assms] assms
  by (simp add: displayAddr_def)

end
