(* ===== verification/Spec2Isabelle.thy ===== *)
theory Spec2Isabelle
  imports Protocol_Props Relay_Flow Capture_Props Logmem Server System Server_Demo Client_Run_Props Programs
begin

text \<open>
  anylan puts computers into virtual Ethernet rooms. A client captures frames from a virtual
  adapter and sends them over a QUIC connection to a server; the server relays them to the
  other members of the room. This development models the Go code of both programs and proves
  what makes it correct.

  \<^bold>\<open>The program.\<close> A client connects and opens its control stream, asks to join a room and
  is answered with its peer id, MAC and IPv4 address (\<^verbatim>\<open>client.go: runSession\<close>,
  \<^verbatim>\<open>handler.go: handleStream\<close>). The server keeps the rooms (\<^verbatim>\<open>relay/room.go\<close>): every room has a /24
  of a pool, every peer a host number in it, a queue of frames and a queue of notifications.
  The server then opens the data stream; frames go from the adapter through the client's
  stream, the rate limit and the forwarding decision into the queues of the targets and from
  there to their clients. The control stream carries peer lists and latency probes. Both
  programs show their state on a web page, with a recorder for frames and one for log lines.

  \<^bold>\<open>Theories.\<close>
  \<^item> \<open>Prelude\<close>: time, channels, Go maps, text functions and general lemmas; \<open>Netaddr\<close> and
    \<open>Netparse\<close>: addresses, their texts and parsers as the standard library has them.
  \<^item> \<open>Protocol\<close>, \<open>Protocol_Props\<close>, \<open>Codec\<close> (\<^verbatim>\<open>protocol/protocol.go\<close>): message types and
    structures, framing, reading and writing with every error. Shown: messages are read back
    in order, reading accepts exactly the well-formed frames, a cut stream never yields a message.
  \<^item> \<open>Relay\<close>, \<open>Allocators\<close>, \<open>Relay_Inv\<close>, \<open>Relay_Ops\<close>, \<open>Relay_Conc\<close>, \<open>Relay_Props\<close>,
    \<open>Relay_Life\<close>, \<open>Relay_Flow\<close>, \<open>Relay_Snapshot\<close>, \<open>Relay_Demo\<close> (\<^verbatim>\<open>relay/room.go\<close>): the store with
    its manager, rooms and peers, one definition per operation; the allocators of room and
    host numbers through a locale; the invariant of the store, kept by each operation and by
    every interleaving of the critical sections (a step relation); joining, leaving,
    forwarding, queues, rate limit and snapshots.
  \<^item> \<open>Ring\<close>, \<open>Capture\<close>, \<open>Capture_Props\<close>, \<open>Logmem\<close> (\<^verbatim>\<open>capture/recorder.go\<close>,
    \<^verbatim>\<open>logmem/recorder.go\<close>): the packet parser with every slice checked, and both recorders as
    interpretations of one locale of bounded logs.
  \<^item> \<open>Server\<close> (\<^verbatim>\<open>server/server.go\<close>): the pool, defaults, certificate choice, the accept loop.
  \<^item> \<open>Control\<close>, \<open>Control_Props\<close>, \<open>Control_Session\<close>, \<open>Control_Traffic\<close>
    (\<^verbatim>\<open>control/handler.go\<close>): admission, the session as a sequence of events of its goroutines,
    clean-up. Shown: who is admitted, that no client input panics or damages the tables, that
    every frame is accounted for, that probes cannot be forged and that a conversation leaves
    no trace.
  \<^item> \<open>Server_Conc\<close>, \<open>Server_Refine\<close>, \<open>Server_Lan\<close>, \<open>Server_Demo\<close>: any number of connections
    over one relay, as a step relation over the critical sections of \<^verbatim>\<open>handleStream\<close>. The
    server is simulated by the relay of \<open>Relay_Conc\<close>, so what holds of every interleaving there
    holds here; the registered peers are those that one open connection has to remove; and
    through a locale of simulations the server refines an abstract LAN into which members
    with distinct addresses come and from which they go.
  \<^item> \<open>Client_Status\<close>, \<open>Client_Latency\<close> (\<^verbatim>\<open>client.go\<close>, type \<^verbatim>\<open>Status\<close> and the tracker): the
    status record, the probe table, the control stream. Shown: whom a probe goes to and how
    far probes are apart.
  \<^item> \<open>Client_IP\<close>, \<open>Client_Loops\<close>, \<open>Client_Loops_Props\<close> (the data path of \<^verbatim>\<open>client.go\<close>): the two
    loops of either adapter layer, the bridge between IP packets and frames, ARP. Every check
    on a frame reads through bounds-checked indices and slices, with the order of evaluation of
    \<^verbatim>\<open>&&\<close>. Shown: no input panics, packets arrive unchanged, exactly the ARP requests for the own
    address, described by their bytes, are answered.
  \<^item> \<open>Tap\<close> (\<^verbatim>\<open>tap/*.go\<close>, \<^verbatim>\<open>cmd/tapsetup\<close>): opening, listing and configuring adapters on each
    operating system, the set-up of the Windows driver.
  \<^item> \<open>Client_Session\<close> (\<^verbatim>\<open>client.go: runSession, runLoop\<close>, \<^verbatim>\<open>local_config.go\<close>): the stored
    configuration, the join conversation on the client's side, reconnecting.
  \<^item> \<open>Client_Controller\<close> (\<^verbatim>\<open>client.go: Controller\<close>): join and leave as a step relation over
    critical sections, with the invariant that at most one session runs.
  \<^item> \<open>Client_Typed\<close>, \<open>Client_Run\<close>, \<open>Client_Run_Props\<close>: the client from a join on, as a step
    relation over the loop of \<^verbatim>\<open>runLoop\<close> and the goroutines of all its sessions, those that
    have ended included. Shown: the status stays well-typed and no goroutine is ever blocked
    on the error channel of its session.
  \<^item> \<open>Webui\<close> (\<^verbatim>\<open>webui/server.go\<close>): routing, authentication and guards of the page.
  \<^item> \<open>Flags\<close>, \<open>Programs\<close> (\<^verbatim>\<open>cmd/server\<close>, \<^verbatim>\<open>cmd/client\<close>, the start of \<^verbatim>\<open>server/server.go\<close> and
    \<^verbatim>\<open>webui/server.go\<close>): command lines as package \<^verbatim>\<open>flag\<close> reads them, starting both programs,
    the development certificate, the server's page and the lines logged of a session. Shown:
    every configuration can be given on the command line, the page of the server never
    changes the relay.
  \<^item> \<open>System\<close> and this theory: both ends together. Below are the properties that span
    components: a frame from adapter to adapter, a join, and the round trip of a probe.

  \<^bold>\<open>How the code is rendered.\<close> Pointers to rooms and peers are indices into two heaps; a Go
  map is an association list, so that the order of iteration can be quantified over; counters
  and addresses are words of their width, lengths and times are numbers. Random draws, clock
  readings, the reads of a device and the moments at which a context is done are arguments.
  A panic (a slice or an index out of range, a send on a closed channel) is the value None, an
  error a value of a datatype. A stream that is read is its
  bytes with the error at its end; one that is written is a write function on a state, which
  the round trips instantiate with appending to a buffer. The JSON codec is a record of
  functions; theorems that need a message to survive it say so with \<open>sendable\<close>.

  \<^bold>\<open>Loops.\<close> Every reading loop consumes its input and is shown to terminate by the
  length of what is left. Loops that go on for ever in the code take a list: of draws for the
  retries of \<^verbatim>\<open>Manager.Join\<close> (one is enough when nothing interferes, which is proved), of
  reads for the device, of attempts for reconnecting; a list that is used up gives the state
  reached so far, never a result the code would not give.

  \<^bold>\<open>Interleavings.\<close> A step of the relay or the server is one critical section of a mutex. A
  step of a client session is one iteration of a goroutine, with reading and handling apart:
  within an iteration every method of \<^verbatim>\<open>Status\<close> and every write to a stream is taken together.
  The events of one server session are taken in any order. Coarser than the code are:
  \<^verbatim>\<open>BroadcastNotify\<close>, which collects its targets under the lock and pushes to them after it, is one
  step; the event \<open>EvDone\<close> stops the notifier of a session at the moment the cancellation is
  there to be seen; and in \<open>Client_Run\<close> a client joins again only when its loop is over and
  its status is reset (a join before that is the subject of \<open>Client_Controller\<close>).

  \<^bold>\<open>Not modelled.\<close> QUIC, TLS, the cryptographic operations, the HTTP server and the embedded
  files; JSON itself; package water, the registry, the commands run by the adapter code (all
  arguments); the texts of log lines other than their values; signals, which are the moment at
  which a context is done; the page written in JavaScript.

  \<^bold>\<open>What the code does not guarantee.\<close> \<open>forward_leave_race\<close> (a frame sent to a queue that is
  being closed panics the server), \<open>refused_join_keeps_room\<close> (refused joins use up the pool),
  \<open>stale_reset_race\<close> (an old session resets the status of a new one), \<open>stale_peer_list\<close> (a
  member is left with the peer list of an earlier moment) and \<open>leftover_goroutines\<close> (the tracker
  of a lost connection spends the probes of the next one) are proved of the model as it
  follows the code.
\<close>

section \<open>The system as a whole\<close>

text \<open>C7. A frame travels unchanged from one adapter to another: what the sender's client reads
  from its TAP device and writes to its stream, the server reads, queues for every peer of the
  room it is addressed to (by MAC, broadcast or multicast) and writes to that peer's stream,
  and the receiving client passes exactly those bytes to its device. Required is only that
  the frame has the sender's own source MAC and a legal size, the rate limit admits it and the
  receiver's queue is empty and open.\<close>

theorem frame_end_to_end:
  fixes wr :: "'w writer"
  assumes "store_inv s" and "k < length (roomHeap s)" and "p \<in> live (roomHeap s ! k)" and "q \<in> live (roomHeap s ! k)" and "q \<noteq> p"
    and "14 \<le> length frame" and "length frame \<le> MaxFrameSize" and "take 6 (drop 6 frame) = p_MAC (peerHeap s ! p)"
    and "take 6 frame = p_MAC (peerHeap s ! q) \<or> isBroadcast (take 6 frame) \<or> isMulticast (take 6 frame)"
    and "snd (AllowFrame (length frame) now (peerHeap s ! p))"
    and "chan_buf (p_Frames (peerHeap s ! q)) = []" and "0 < chan_cap (p_Frames (peerHeap s ! q))"
  shows "\<exists>lkA' cap' s'. readTAP buf_Write metaA clockA 0 [Inr frame] lkA = Some (lkA', None)
    \<and> ReadMessage \<lparr>rd_data = drop (length (lk_stream lkA)) (lk_stream lkA') @ rest, rd_end = e\<rparr> (int MaxFrameSize)
        = (\<lparr>rd_data = rest, rd_end = e\<rparr>, Inr (TypeEthernetFrame, frame))
    \<and> dataFrame now p frame (cap, s) = Some (cap', s')
    \<and> (\<forall>st. ss_store st = s' \<and> ss_writer st \<longrightarrow>
         (\<exists>st' lkB'. sessionEvent cd wr buf_Write q EvFrameOut st = Running st'
           \<and> writeTAP buf_Write metaB clockB \<lparr>rd_data = drop (length (ss_data st)) (ss_data st'), rd_end = e\<rparr> lkB
               = Some (lkB', Some (LProto (ErrIO e)))
           \<and> lk_device lkB' = lk_device lkB @ frame))"
proof -
  have ne: "frame \<noteq> []" using assms(6) by auto
  obtain lkA' where A: "sendFrame buf_Write (clockA 0) metaA frame lkA = Some (lkA', None)"
    "lk_stream lkA' = lk_stream lkA @ frame_bytes (TypeEthernetFrame, frame)"
    using sendFrame_written frame_readable [OF assms(7)] by blast
  obtain ts where tgt: "Forward k p frame s = Some (s, Inr ts)" "q \<in> frameTargets (Inr ts)"
    using target_of [OF assms(1-6,8,9)] .
  obtain cap' s' where D: "dataFrame now p frame (cap, s) = Some (cap', s')"
    "peerHeap s' ! q = fst (the (Enqueue frame (peerHeap s ! q)))"
    using dataFrame_effect [OF assms(1-3) refl tgt(1), of now cap] assms(5,10) tgt by (auto simp: if_P)
  have "\<not> chan_closed (p_Frames (peerHeap s ! q))"
    using store_room_inv [OF assms(1,2)] assms(4) by (auto simp: room_inv_def peer_ok_def)
  then have "chan_buf (p_Frames (peerHeap s' ! q)) = [frame]"
    using D(2) assms(11,12) by (simp add: Enqueue_def try_send_def RecordTxFrame_def)
  then have out: "\<exists>st' lkB'. sessionEvent cd wr buf_Write q EvFrameOut st = Running st'
           \<and> writeTAP buf_Write metaB clockB \<lparr>rd_data = drop (length (ss_data st)) (ss_data st'), rd_end = e\<rparr> lkB
               = Some (lkB', Some (LProto (ErrIO e)))
           \<and> lk_device lkB' = lk_device lkB @ frame" if "ss_store st = s' \<and> ss_writer st" for st :: "('w, bytes) Session"
    using frame_out [of st s' q frame cd wr] that assms(7) writeTAP_one [OF assms(7), of metaB clockB e lkB] by auto
  have "ReadMessage \<lparr>rd_data = drop (length (lk_stream lkA)) (lk_stream lkA') @ rest, rd_end = e\<rparr> (int MaxFrameSize)
      = (\<lparr>rd_data = rest, rd_end = e\<rparr>, Inr (TypeEthernetFrame, frame))"
    using A(2) ReadMessage_frame frame_readable [OF assms(7)] by simp
  moreover have "readTAP buf_Write metaA clockA 0 [Inr frame] lkA = Some (lkA', None)" using A(1) ne by simp
  ultimately show ?thesis using D(1) out by blast
qed

theorem frame_end_to_end_witness:
  "\<exists>lkA' cap' s'. readTAP buf_Write demo_meta (\<lambda>i. 1) 0 [Inr demo_frame] demo_link = Some (lkA', None)
    \<and> dataFrame 5 0 demo_frame (None, demo2) = Some (cap', s')
    \<and> (\<forall>st. ss_store st = s' \<and> ss_writer st \<longrightarrow>
         (\<exists>st' lkB'. sessionEvent toy_codec buf_Write buf_Write 1 EvFrameOut st = Running st'
           \<and> writeTAP buf_Write demo_meta (\<lambda>i. 1) \<lparr>rd_data = drop (length (ss_data st)) (ss_data st'), rd_end = EOF\<rparr> demo_link
               = Some (lkB', Some (LProto (ErrIO EOF)))
           \<and> lk_device lkB' = lk_device demo_link @ demo_frame))"
proof -
  have m: "0 < length (roomHeap demo2)" "0 \<in> live (roomHeap demo2 ! 0)" "1 \<in> live (roomHeap demo2 ! 0)" "(1 :: nat) \<noteq> 0"
    using demo_members by simp_all
  have f: "14 \<le> length demo_frame" "length demo_frame \<le> 100" "take 6 (drop 6 demo_frame) = p_MAC (peerHeap demo2 ! 0)"
    "take 6 demo_frame = p_MAC (peerHeap demo2 ! 1)" "snd (AllowFrame (length demo_frame) 5 (peerHeap demo2 ! 0))"
    "chan_buf (p_Frames (peerHeap demo2 ! 1)) = []" "0 < chan_cap (p_Frames (peerHeap demo2 ! 1))"
    by code_simp+
  have "length demo_frame \<le> MaxFrameSize" using f(2) by (simp add: size_defs)
  then show ?thesis
    using frame_end_to_end [OF demo_inv m(1,2,3,4) f(1) _ f(3) disjI1 [OF f(4)] f(5,6,7),
        of demo_meta "\<lambda>i. 1" demo_link "[]" EOF None toy_codec buf_Write demo_meta "\<lambda>i. 1" demo_link] by blast
qed

text \<open>C8. A client that joins ends up with what the server has registered for it. The client's
  session writes its request and reads the server's answer; the server reads that request and
  registers the client in the room of that name. Then the client shows itself connected, with
  the peer id and the address of its registration and exactly the room's members as peers; it
  goes on to set up its adapter with the server's accept message. The address and mask it
  derives are those of the registration in the room's /24, with .255 as the broadcast address
  it filters for, and on the IP layer it starts with precisely the registered MAC and address.\<close>

theorem join_end_to_end:
  assumes "store_inv s" and "unused_draw d s" and "normalizeConfig os raw = Inr cfg"
    and "sendable (cd_JoinRoom cd) (clientJoin cfg mac nonce)"
    and "env_dial env = None" and "openAdvertised os env cfg = Inr (device, mac)" and "env_openStream env = None"
    and "nonceHex (env_nonce env) = Some nonce"
    and "startSessionConn os cd env cfgText now buf_Write cfg \<lparr>rd_data = ss_control st, rd_end = e\<rparr> [] sys status = (status', w, sys', res)"
    and "handleJoin cd rt (d # ds) \<lparr>rd_data = w, rd_end = e\<rparr> s = (s', Some (Joined p join))"
    and "sendable (cd_JoinAccept cd) (buildAccept h join p s')"
    and "openSession cd buf_Write dwr opened h join p [] d0 s' = Running st"
  shows "\<exists>room. Manager_Room (cfg_Room cfg) s' = Some room \<and> p \<in> live (roomHeap s' ! room)
    \<and> st_state status' = ''connected'' \<and> st_peerID status' = p_ID (peerHeap s' ! p)
    \<and> ParseAddr (st_ipv4 status') = Some (p_IP (peerHeap s' ! p))
    \<and> pi_ID ` set (st_peers status') = (\<lambda>q. p_ID (peerHeap s' ! q)) ` live (roomHeap s' ! room)
    \<and> IPv4AndMask (st_cidr status') = Inr (st_ipv4 status', ''255.255.255.0'')
    \<and> broadcastIPv4 (st_cidr status') = Some (take 3 (As4 (p_IP (peerHeap s' ! p))) @ [255])
    \<and> setUpSession os env cfgText cfg device (buildAccept h join p s') sys = (sys', res)
    \<and> (\<forall>m i. res = Inr (StartTUN m i) \<longrightarrow> m = p_MAC (peerHeap s' ! p) \<and> i = As4 (p_IP (peerHeap s' ! p)))"
proof -
  have v: "Valid TypeJoinRoom" "TypeJoinRoom \<noteq> TypeEthernetFrame" by (simp_all add: Valid_def message_type_defs)
  obtain w1 where w1: "WriteJSON (fst (cd_JoinRoom cd)) buf_Write [] TypeJoinRoom (clientJoin cfg mac nonce) = (w1, None)"
    using sent_frame [OF assms(4) v] by metis
  note run = startSessionConn_request [OF assms(5-8) w1 assms(9)]
  obtain room a where J: "Manager_Room (cfg_Room cfg) s' = Some room" "p \<in> live (roomHeap s' ! room)"
    "readAnswer cd \<lparr>rd_data = ss_control st, rd_end = e\<rparr> = (\<lparr>rd_data = [], rd_end = e\<rparr>, Inr a)"
    "ja_PeerID a = p_ID (peerHeap s' ! p)" "ParseAddr (ja_IPv4 a) = Some (p_IP (peerHeap s' ! p))"
    "pi_ID ` set (ja_Peers a) = (\<lambda>q. p_ID (peerHeap s' ! q)) ` live (roomHeap s' ! room)"
    "startLayer LayerIP a = Inr (StartTUN (p_MAC (peerHeap s' ! p)) (As4 (p_IP (peerHeap s' ! p))))"
    "IPv4AndMask (ja_CIDR a) = Inr (ja_IPv4 a, ''255.255.255.0'')"
    "broadcastIPv4 (ja_CIDR a) = Some (take 3 (As4 (p_IP (peerHeap s' ! p))) @ [255])"
    using join_told [OF assms(1-4) w1 assms(10) [unfolded run(1)] assms(11,12)] by blast
  have "a = buildAccept h join p s'" using readAnswer_accept [OF assms(11), of "[]" e] openSession_writes [OF assms(12)] J(3) by auto
  moreover have S: "status' = joined_status now a status" "setUpSession os env cfgText cfg device a sys = (sys', res)" using run(2) [OF J(3)] by simp_all
  ultimately show ?thesis using J setUpSession_tun [of os env cfgText cfg device a sys sys'] by auto
qed

theorem join_end_to_end_witness:
  "\<exists>(st :: (bytes, bytes) Session) status' w sys' res. startSessionConn Darwin codec_demo env_demo (\<lambda>e. '''') 9 buf_Write demo_config
       \<lparr>rd_data = ss_control st, rd_end = EOF\<rparr> [] () demo_status = (status', w, sys', res)
     \<and> handleJoin codec_demo [] [demo_draw 3] \<lparr>rd_data = w, rd_end = EOF\<rparr> demo2 = (joined_demo, Some (Joined 2 join_demo))
     \<and> st_state status' = ''connected'' \<and> ParseAddr (st_ipv4 status') = Some (p_IP (peerHeap joined_demo ! 2))"
proof -
  let ?h = "\<lparr>h_MTU = 1300, h_Capture = None\<rparr> :: Handler"
  obtain w where w: "WriteJSON (fst (cd_JoinRoom codec_demo)) buf_Write [] TypeJoinRoom (clientJoin demo_config '''' ''01'') = (w, None)"
    "handleJoin codec_demo [] [demo_draw 3] \<lparr>rd_data = w, rd_end = EOF\<rparr> demo2 = (joined_demo, Some (Joined 2 join_demo))"
    using join_demo_accepted by (auto simp: join_demo_def)
  obtain st where st: "openSession codec_demo buf_Write buf_Write (Inr []) ?h join_demo 2 [] [] joined_demo = Running st"
    using join_demo_opened by blast
  have n: "unused_draw (demo_draw 3) demo2" "normalizeConfig Darwin demo_config = Inr demo_config" by code_simp+
  have sd: "sendable (cd_JoinRoom codec_demo) (clientJoin demo_config '''' ''01'')"
    "sendable (cd_JoinAccept codec_demo) (buildAccept ?h join_demo 2 joined_demo)"
    by (simp_all add: codec_demo_def join_demo_def sendable_single)
  have env: "env_dial env_demo = None" "openAdvertised Darwin env_demo demo_config = Inr (None, '''')" "env_openStream env_demo = None"
    "nonceHex (env_nonce env_demo) = Some ''01''" by code_simp+
  obtain status' w' sys' res where run: "startSessionConn Darwin codec_demo env_demo (\<lambda>e. '''') 9 buf_Write demo_config
      \<lparr>rd_data = ss_control st, rd_end = EOF\<rparr> [] () demo_status = (status', w', sys', res)" by (metis prod_cases4)
  have "w' = w" by (rule startSessionConn_request(1) [OF env w(1) run])
  then show ?thesis
    using join_end_to_end [OF demo_inv n sd(1) env run [unfolded \<open>w' = w\<close>] w(2) sd(2) st] run w(2) by blast
qed

text \<open>C9. A latency probe makes its round trip: a tick of the prober writes the probe to the
  client's stream, the server passes it on to the addressed peer of the room, that client
  answers, the server passes the answer back, and the first client then records for exactly
  that peer the time between the tick and the arrival of the answer, with the state ok and
  no probe outstanding. Required is that the messages can be encoded and that neither
  notification queue is full.\<close>

theorem latency_roundtrip:
  assumes "store_inv s" and "k < length (roomHeap s)" and "p \<in> live (roomHeap s ! k)" and "q \<in> live (roomHeap s ! k)" and "q \<noteq> p"
    and "notify_room (peerHeap s ! p)" and "notify_room (peerHeap s ! q)"
    and "idA = p_ID (peerHeap s ! p)" and "idB = p_ID (peerHeap s ! q)" and "localPeerID sA = idA" and "localPeerID sB = idB"
    and "nextLatencyProbe rnd t0 (expireLatencyProbes t0 sA) = (sA1, Some probe)" and "probe_PeerID probe = idB"
    and "ping = \<lparr>ping_ID = probe_ID probe, ping_FromPeerID = '''', ping_ToPeerID = idB, ping_SentAtUnixNano = UnixNano t0\<rparr>"
    and "pong = \<lparr>pong_ID = probe_ID probe, pong_FromPeerID = '''', pong_ToPeerID = idA, pong_SentAtUnixNano = UnixNano t0\<rparr>"
    and "sendable (cd_Ping cd) ping" and "sendable (cd_Ping cd) (ping\<lparr>ping_FromPeerID := idA\<rparr>)"
    and "sendable (cd_Pong cd) pong" and "sendable (cd_Pong cd) (pong\<lparr>pong_FromPeerID := idB\<rparr>)"
  shows "\<exists>b0 s1 m1 b2 s2 m2 sA2.
      trackerTick cd buf_Write rnd t0 ([], sA) = ((frame_bytes (TypePing, b0), sA1), None)
    \<and> forwardPeerPing cd p b0 s = (s1, None) \<and> chan_buf (p_Notify (peerHeap s1 ! q)) = chan_buf (p_Notify (peerHeap s ! q)) @ [m1]
    \<and> readControl cd buf_Write clockB 0 \<lparr>rd_data = m1, rd_end = e\<rparr> ([], sB) = ((frame_bytes (TypePong, b2), sB), ErrIO e)
    \<and> forwardPeerPong cd q b2 s1 = (s2, None) \<and> chan_buf (p_Notify (peerHeap s2 ! p)) = chan_buf (p_Notify (peerHeap s ! p)) @ [m2]
    \<and> readControl cd buf_Write clockA 0 \<lparr>rd_data = m2, rd_end = e\<rparr> ([], sA1) = (([], sA2), ErrIO e)
    \<and> lat_RTT (lat_of (lat_table sA2) idB) = time_Sub (clockA 0) t0
    \<and> lat_State (lat_of (lat_table sA2) idB) = ''ok'' \<and> \<not> lat_Pending (lat_of (lat_table sA2) idB)"
proof -
  have v: "Valid TypePing" "TypePing \<noteq> TypeEthernetFrame" "Valid TypePong" "TypePong \<noteq> TypeEthernetFrame"
    "TypePong \<noteq> TypePeerList" "TypePong \<noteq> TypePing"
    by (simp_all add: Valid_def message_type_defs)
  obtain l where l: "map_of (lat_table sA1) idB = Some l" "lat_Pending l" "lat_ProbeID l = probe_ID probe" "lat_SentAt l = t0"
    "probe_SentAt probe = t0" "localPeerID sA1 = idA" "idA \<noteq> ''''" "idB \<noteq> ''''"
    using probe_pending [OF assms(12)] assms(10,13) by (auto simp: localPeerID_def expire_peerID)
  obtain b0 where b0: "snd (cd_Ping cd) b0 = Inr ping" "\<And>b. WriteJSON (fst (cd_Ping cd)) buf_Write b TypePing ping = (b @ frame_bytes (TypePing, b0), None)"
    using sent_frame [OF assms(16) v(1,2)] by blast
  have tick: "trackerTick cd buf_Write rnd t0 ([], sA) = ((frame_bytes (TypePing, b0), sA1), None)"
    using assms(12) b0(2) l(5) by (simp add: trackerTick_def assms(13,14))
  obtain s1 b1 where F: "forwardPeerPing cd p b0 s = (s1, None)" "same_tables s s1"
    "chan_buf (p_Notify (peerHeap s1 ! q)) = chan_buf (p_Notify (peerHeap s ! q)) @ [frame_bytes (TypePing, b1)]"
    "peerHeap s1 ! p = peerHeap s ! p" "b1 \<noteq> []" "readable (int MaxControlSize) (TypePing, b1)"
    "snd (cd_Ping cd) b1 = Inr (ping\<lparr>ping_FromPeerID := idA\<rparr>)"
    using ping_relayed [OF assms(1-5,7) b0(1)] assms(8,9,14,17) l(8) by (metis PeerPing.select_convs(3))
  obtain b2 where b2: "snd (cd_Pong cd) b2 = Inr pong" "\<And>b. WriteJSON (fst (cd_Pong cd)) buf_Write b TypePong pong = (b @ frame_bytes (TypePong, b2), None)"
    using sent_frame [OF assms(18) v(3,4)] by blast
  have answer: "readControl cd buf_Write clockB 0 \<lparr>rd_data = frame_bytes (TypePing, b1), rd_end = e\<rparr> ([], sB)
      = ((frame_bytes (TypePong, b2), sB), ErrIO e)"
    by (rule ping_answered [OF F(6,5,7)]) (use l(7) assms(11,14,15) b2(2) in simp_all)
  note mem = same_tables_member [OF F(2) assms(1-3)] same_tables_member [OF F(2) assms(1,2,4)]
  have ids: "p_ID (peerHeap s1 ! q) = idB" using same_tables_peer [OF F(2), of q] assms(9) by (simp add: same_peer_def)
  obtain s2 b3 where G: "forwardPeerPong cd q b2 s1 = (s2, None)"
    "chan_buf (p_Notify (peerHeap s2 ! p)) = chan_buf (p_Notify (peerHeap s ! p)) @ [frame_bytes (TypePong, b3)]" "b3 \<noteq> []"
    "readable (int MaxControlSize) (TypePong, b3)" "snd (cd_Pong cd) b3 = Inr (pong\<lparr>pong_FromPeerID := idB\<rparr>)"
    using pong_relayed [OF mem(1,2) mem(6) mem(3) assms(5) [symmetric] _ b2(1)] ids assms(6,8,15,19) l(7)
    unfolding F(4) by (metis PeerPong.select_convs(3))
  define sA2 where "sA2 = handlePong (clockA 0) (pong\<lparr>pong_FromPeerID := idB\<rparr>) sA1"
  have "controlStep cd buf_Write (clockA 0) TypePong b3 ([], sA1) = (([], sA2), None)"
    using G(3,5) v(5,6) by (simp add: controlStep_def sA2_def)
  note received = readControl_one [where clock = clockA, OF G(4) this, of e]
  have "lat_of (lat_table sA2) idB = l\<lparr>lat_RTT := time_Sub (clockA 0) t0, lat_State := ''ok'', lat_UpdatedAt := clockA 0,
      lat_Pending := False, lat_ProbeID := ''''\<rparr>"
    using pong_recorded [of sA1 "pong\<lparr>pong_FromPeerID := idB\<rparr>" l "clockA 0"] l assms(15) by (simp add: sA2_def)
  with tick F(1,3) answer G(1,2) received show ?thesis by fastforce
qed

theorem latency_roundtrip_witness:
  "\<exists>sA1 b0 m2 sA2. trackerTick latency_codec buf_Write (Some [1]) 7 ([], probe_status ''0102030405060701'') = ((frame_bytes (TypePing, b0), sA1), None)
    \<and> readControl latency_codec buf_Write (\<lambda>i. 27) 0 \<lparr>rd_data = m2, rd_end = EOF\<rparr> ([], sA1) = (([], sA2), ErrIO EOF)
    \<and> lat_RTT (lat_of (lat_table sA2) ''0102030405060702'') = 20"
proof -
  let ?A = "''0102030405060701''" and ?B = "''0102030405060702''" and ?n = "nextLatencyProbe (Some [1]) 7 (expireLatencyProbes 7 (probe_status ''0102030405060701''))"
  have m: "0 < length (roomHeap demo2)" "0 \<in> live (roomHeap demo2 ! 0)" "1 \<in> live (roomHeap demo2 ! 0)" "(1 :: nat) \<noteq> 0"
    using demo_members by simp_all
  have h: "notify_room (peerHeap demo2 ! 0)" "notify_room (peerHeap demo2 ! 1)"
    "?A = p_ID (peerHeap demo2 ! 0)" "?B = p_ID (peerHeap demo2 ! 1)"
    "localPeerID (probe_status ?A) = ?A" "localPeerID (probe_status ?B) = ?B" by code_simp+
  have "snd ?n = Some \<lparr>probe_PeerID = ?B, probe_ID = ''01'', probe_SentAt = 7\<rparr>" by code_simp
  then have nx: "?n = (fst ?n, Some \<lparr>probe_PeerID = ?B, probe_ID = ''01'', probe_SentAt = 7\<rparr>)" by (metis prod.collapse)
  have "time_Sub 27 7 = 20" by code_simp
  then show ?thesis
    using latency_roundtrip [OF demo_inv m(1,2,3,4) h(1-6) nx _ _ _ latency_codec_sends, of "\<lambda>i. 0" EOF "\<lambda>i. 27"]
    by (force simp: ping_demo_def pong_demo_def)
qed

end
